theory Spec2Isabelle
  imports Main
begin

section \<open>Errors, Python slices and the array primitives used by the index\<close>

text \<open>
  The exceptions the indexing core can raise. \<open>ValueError\<close> carries the message of the
  source, since the core raises it for several distinct reasons. \<open>Unmodelled\<close> marks a
  call whose outcome is decided inside pandas or numpy on an input kind that this
  development does not describe (for instance an index attribute that is not a plain
  array).
\<close>

datatype error =
    ValueError string
  | IndexError
  | TypeError
  | NotImplementedError
  | AttributeError
  | AssertionError
  | Unmodelled

text \<open>A Python \<open>slice(start, stop, step)\<close>; \<open>None\<close> is a missing component.\<close>

datatype pyslice = Slice (start: "int option") (stop: "int option") (step: "int option")

text \<open>\<open>slice.indices(n)\<close>: the clamped start, stop and step for a sequence of length \<open>n\<close>.\<close>

definition slice_indices :: "pyslice \<Rightarrow> int \<Rightarrow> error + (int \<times> int \<times> int)" where
  "slice_indices s n =
     (let st = (case step s of None \<Rightarrow> 1 | Some k \<Rightarrow> k) in
      if st = 0 then Inl (ValueError ''slice step cannot be zero'')
      else
        let lower = (if st < 0 then - 1 else 0);
            upper = (if st < 0 then n - 1 else n);
            a = (case start s of
                   None \<Rightarrow> (if st < 0 then upper else lower)
                 | Some i \<Rightarrow> (if i < 0 then max (i + n) lower else min i upper));
            b = (case stop s of
                   None \<Rightarrow> (if st < 0 then lower else upper)
                 | Some i \<Rightarrow> (if i < 0 then max (i + n) lower else min i upper))
        in Inr (a, b, st))"

text \<open>\<open>range(a, b, st)\<close> for a non-zero step.\<close>

definition py_range :: "int \<Rightarrow> int \<Rightarrow> int \<Rightarrow> int list" where
  "py_range a b st =
     (if 0 < st then map (\<lambda>k. a + int k * st) [0..<nat ((b - a + st - 1) div st)]
      else map (\<lambda>k. a + int k * st) [0..<nat ((a - b - st - 1) div (- st))])"

text \<open>The row positions a slice selects in a sequence of length \<open>n\<close>.\<close>

definition slice_positions :: "pyslice \<Rightarrow> nat \<Rightarrow> error + nat list" where
  "slice_positions s n =
     (case slice_indices s (int n) of
        Inl e \<Rightarrow> Inl e
      | Inr (a, b, st) \<Rightarrow> Inr (map nat (py_range a b st)))"

text \<open>\<open>xs[s]\<close> for a slice \<open>s\<close>.\<close>

definition getitem_slice :: "'a list \<Rightarrow> pyslice \<Rightarrow> error + 'a list" where
  "getitem_slice xs s =
     (case slice_positions s (length xs) of
        Inl e \<Rightarrow> Inl e
      | Inr ps \<Rightarrow> Inr (map (\<lambda>p. xs ! p) ps))"

text \<open>
  One integer position of an index array: negative positions count from the end, a
  position outside the array is an \<open>IndexError\<close>.
\<close>

definition norm_index :: "nat \<Rightarrow> int \<Rightarrow> error + nat" where
  "norm_index n i =
     (let j = (if i < 0 then i + int n else i)
      in if 0 \<le> j \<and> j < int n then Inr (nat j) else Inl IndexError)"

fun norm_indices :: "nat \<Rightarrow> int list \<Rightarrow> error + nat list" where
  "norm_indices n [] = Inr []"
| "norm_indices n (i # is) =
     (case norm_index n i of
        Inl e \<Rightarrow> Inl e
      | Inr p \<Rightarrow> (case norm_indices n is of Inl e \<Rightarrow> Inl e | Inr ps \<Rightarrow> Inr (p # ps)))"

text \<open>\<open>xs[inds]\<close> for an integer list or integer array \<open>inds\<close>.\<close>

definition getitem_array :: "'a list \<Rightarrow> int list \<Rightarrow> error + 'a list" where
  "getitem_array xs inds =
     (case norm_indices (length xs) inds of
        Inl e \<Rightarrow> Inl e
      | Inr ps \<Rightarrow> Inr (map (\<lambda>p. xs ! p) ps))"

text \<open>The rows of \<open>xs\<close> that survive the removal of the positions \<open>ps\<close>, in their order.\<close>

definition delete_rows :: "nat list \<Rightarrow> 'a list \<Rightarrow> 'a list" where
  "delete_rows ps xs = map (\<lambda>p. xs ! p) (filter (\<lambda>p. p \<notin> set ps) [0..<length xs])"

text \<open>
  \<open>pd.unique\<close>: the distinct values in order of first occurrence (one pass with the
  values seen so far).
\<close>

fun unique_from :: "'a list \<Rightarrow> 'a list \<Rightarrow> 'a list" where
  "unique_from seen [] = seen"
| "unique_from seen (x # xs) =
     (if x \<in> set seen then unique_from seen xs else unique_from (seen @ [x]) xs)"

definition pd_unique :: "'a list \<Rightarrow> 'a list" where
  "pd_unique xs = unique_from [] xs"

text \<open>The position of the first occurrence of \<open>k\<close>.\<close>

fun index_of :: "'a list \<Rightarrow> 'a \<Rightarrow> nat" where
  "index_of [] k = 0"
| "index_of (x # xs) k = (if x = k then 0 else Suc (index_of xs k))"

text \<open>
  The integer encoding of \<open>set_index\<close>: \<open>drop_duplicates(keep="first")\<close> numbers the
  distinct keys \<open>0, 1, ...\<close> in order of first occurrence, and the left merge gives every
  row the number of its key.
\<close>

definition map_to_integers :: "'a list \<Rightarrow> int list" where
  "map_to_integers vs = (let df_unique = pd_unique vs in map (\<lambda>v. int (index_of df_unique v)) vs)"

text \<open>\<open>np.where(values == i)[0]\<close> and \<open>np.diff\<close>.\<close>

definition np_where_eq :: "'a list \<Rightarrow> 'a \<Rightarrow> nat list" where
  "np_where_eq vs i = filter (\<lambda>p. vs ! p = i) [0..<length vs]"

fun np_diff :: "int list \<Rightarrow> int list" where
  "np_diff (a # b # xs) = (b - a) # np_diff (b # xs)"
| "np_diff _ = []"

section \<open>Grouping rows into slices\<close>

text \<open>
  The loop of \<open>_convert_grouped_array_to_slices\<close> over the unique values, with the
  running \<open>slice_start\<close> and the slices collected so far.
\<close>

fun grouped_slices :: "'a list \<Rightarrow> 'a list \<Rightarrow> nat \<Rightarrow> pyslice list \<Rightarrow> error + pyslice list" where
  "grouped_slices vs [] slice_start slices = Inr slices"
| "grouped_slices vs (i # unique_values) slice_start slices =
     (let mask = np_where_eq vs i in
      if 1 < length mask \<and> list_all (\<lambda>d. d \<noteq> 1) (np_diff (map int mask))
      then Inl (ValueError ''The values must be grouped.'')
      else grouped_slices vs unique_values (slice_start + length mask)
             (slices @ [Slice (Some (int slice_start)) (Some (int (slice_start + length mask))) (Some 1)]))"

definition convert_grouped_array_to_slices :: "'a list \<Rightarrow> error + pyslice list" where
  "convert_grouped_array_to_slices vs = grouped_slices vs (pd_unique vs) 0 []"

section \<open>Entities and their index state\<close>

text \<open>
  The class-index-to-members mapping is either an array of slices, one per class-index
  position, or the per-row array of integer group identifiers. The constructor plays the
  part of the flag \<open>_class_index_to_members_is_slice\<close>, which \<open>set_index\<close> always
  assigns together with the mapping.
\<close>

datatype class_index_to_members = Slices "pyslice list" | Raw "int list"

fun ctm_length :: "class_index_to_members \<Rightarrow> nat" where
  "ctm_length (Slices sls) = length sls"
| "ctm_length (Raw vs) = length vs"

text \<open>
  The class index is an integer array; indexing it with a plain integer, as
  \<open>__getitem__\<close> does for an integer selection, leaves a numpy scalar in its place.
\<close>

datatype int_array = IntArray "int list" | IntScalar int

record index_state =
  member_length :: nat
  member_index :: "int list"
  class_index_attribute :: "string option"
  class_index :: int_array
  class_index_to_members :: class_index_to_members

text \<open>
  The attributes of an entity by kind: plain array, masked array (data and mask), time
  array (values as MJD, scale, format), nested entity, opaque value (string, number,
  boolean, set, dictionary), \<open>None\<close>, and anything else. An entity is the list of its
  attributes in the order of the instance dictionary, followed by the index attributes,
  which are absent only while the constructor has not yet called \<open>set_index\<close>.

  Three simplifications bound what this datatype describes. Cell values are exact: a time
  array is the list of its MJD values, and the rounding of the conversion between the two
  floating-point numbers an astropy \<open>Time\<close> holds and one MJD number is not described. A
  masked array always has a mask array; one built without a mask (\<open>np.ma.nomask\<close>) has no
  counterpart. Values are equal to themselves, so a floating-point NaN has no counterpart
  either.
\<close>

datatype 'a member =
    Arr "'a list"
  | Masked "'a list" "bool list"
  | TimeF "'a list" string string
  | Nested "'a entity"
  | Opaque 'a
  | NoneV
  | Unsupported
and 'a entity = Entity (members: "(string \<times> 'a member) list") (idx: "index_state option")

text \<open>The argument of \<open>set_index\<close>: \<open>None\<close>, an attribute name, an array, or anything else.\<close>

datatype 'a index_values = NoValues | ByName string | ByArray "'a list" | OtherValues

text \<open>A selection: integer, slice, list or array of integers, or anything else.\<close>

datatype selection = SInt int | SSlice pyslice | SList "int list" | SOther

text \<open>What \<open>_query_index\<close> returns: a slice or an integer array of member positions.\<close>

datatype member_ind = MSlice pyslice | MArray "int list"

section \<open>The index builder\<close>

text \<open>
  The lengths of all attributes that are arrays, masked arrays or times. The scan runs
  over the whole instance dictionary, so once an index exists its own three arrays are
  among them.
\<close>

fun sliceable_length :: "'a member \<Rightarrow> nat list" where
  "sliceable_length (Arr xs) = [length xs]"
| "sliceable_length (Masked xs m) = [length xs]"
| "sliceable_length (TimeF xs sc fm) = [length xs]"
| "sliceable_length _ = []"

fun int_array_length :: "int_array \<Rightarrow> nat list" where
  "int_array_length (IntArray xs) = [length xs]"
| "int_array_length (IntScalar x) = []"

definition member_lengths :: "'a entity \<Rightarrow> nat list" where
  "member_lengths e =
     remdups (concat (map (\<lambda>(k, v). sliceable_length v) (members e)) @
              (case idx e of
                 None \<Rightarrow> []
               | Some st \<Rightarrow> [length (member_index st)] @ int_array_length (class_index st) @
                            [ctm_length (class_index_to_members st)]))"

definition check_member_validity :: "'a entity \<Rightarrow> error + (nat \<times> int list)" where
  "check_member_validity e =
     (case member_lengths e of
        [n] \<Rightarrow> Inr (n, map int [0..<n])
      | _ \<Rightarrow> Inl (ValueError ''All sliceable members must have the same length.''))"

text \<open>
  \<open>getattr(self, name)\<close> for a name that is not one of the members: the index attributes
  of the instance dictionary and the property \<open>index\<close> of the class, which returns the
  class index. When \<open>set_index\<close> looks a name up it has already assigned the member length
  and the member index for \<open>n\<close> rows. An attribute that is not an integer array is
  outside this model, as are the methods of the class and the properties a subclass may
  declare: such a name is not found here. A subclass cannot keep a member under the name
  \<open>index\<close>, since assigning to it calls the property setter.
\<close>

definition index_attribute_values :: "'a entity \<Rightarrow> nat \<Rightarrow> string \<Rightarrow> error + int list" where
  "index_attribute_values e n a =
     (if a = ''_member_index'' then Inr (map int [0..<n])
      else if a = ''_member_length'' then Inl Unmodelled
      else
        (case idx e of
           None \<Rightarrow> Inl AttributeError
         | Some st \<Rightarrow>
             if a = ''index'' \<or> a = ''_class_index''
             then (case class_index st of
                     IntArray ci \<Rightarrow> Inr ci
                   | IntScalar c \<Rightarrow> Inl Unmodelled)
             else if a = ''_class_index_to_members''
             then (case class_index_to_members st of
                     Raw vs \<Rightarrow> Inr vs
                   | Slices sls \<Rightarrow> Inl Unmodelled)
             else if a = ''_class_index_attribute'' \<or> a = ''_class_index_to_members_is_slice''
             then Inl Unmodelled
             else Inl AttributeError))"

text \<open>
  Part 2 of \<open>set_index\<close>: the values to index on, already mapped to integers, and the
  attribute name to remember. Every numpy array takes the mapping branch, the default
  range included, as the scalar type of an array is never the Python type \<open>int\<close>. A
  member used as index must be a plain array; other kinds are outside this model.
\<close>

fun class_index_values :: "'a entity \<Rightarrow> nat \<Rightarrow> 'a index_values \<Rightarrow> error + (int list \<times> string option)" where
  "class_index_values e n NoValues = Inr (map_to_integers (map int [0..<n]), None)"
| "class_index_values e n (ByName a) =
     (case map_of (members e) a of
        None \<Rightarrow>
          (case index_attribute_values e n a of
             Inl err \<Rightarrow> Inl err
           | Inr vs \<Rightarrow> Inr (map_to_integers vs, Some a))
      | Some (Arr xs) \<Rightarrow> Inr (map_to_integers xs, Some a)
      | Some _ \<Rightarrow> Inl Unmodelled)"
| "class_index_values e n (ByArray xs) = Inr (map_to_integers xs, None)"
| "class_index_values e n OtherValues = Inl (ValueError ''values must be None, str, or numpy.ndarray'')"

definition set_index :: "'a entity \<Rightarrow> 'a index_values \<Rightarrow> error + 'a entity" where
  "set_index e index_values =
     (case check_member_validity e of
        Inl err \<Rightarrow> Inl err
      | Inr (n, mi) \<Rightarrow>
          (case class_index_values e n index_values of
             Inl err \<Rightarrow> Inl err
           | Inr (civ, attr) \<Rightarrow>
               Inr (Entity (members e)
                 (Some \<lparr> member_length = n,
                         member_index = mi,
                         class_index_attribute = attr,
                         class_index = IntArray (pd_unique civ),
                         class_index_to_members =
                           (case convert_grouped_array_to_slices civ of
                              Inr sls \<Rightarrow> Slices sls
                            | Inl err \<Rightarrow> Raw civ) \<rparr>))))"

text \<open>The constructor \<open>Indexable.__init__\<close>, run on the attributes the subclass has set.\<close>

definition init :: "(string \<times> 'a member) list \<Rightarrow> 'a index_values \<Rightarrow> error + 'a entity" where
  "init ms index_values = set_index (Entity ms None) index_values"

section \<open>The query engine\<close>

text \<open>\<open>len(entity)\<close> is the length of the class index; a numpy scalar has no length.\<close>

fun len :: "index_state \<Rightarrow> error + nat" where
  "len st = (case class_index st of IntArray ci \<Rightarrow> Inr (length ci) | IntScalar c \<Rightarrow> Inl TypeError)"

text \<open>The loop that decides whether neighbouring slices can be fused.\<close>

fun is_consecutive :: "pyslice list \<Rightarrow> bool" where
  "is_consecutive (s_i # s_next # rest) =
     (if stop s_i \<noteq> start s_next then False
      else if step s_i \<noteq> None \<and> step s_i \<noteq> step s_next then False
      else is_consecutive (s_next # rest))"
| "is_consecutive _ = True"

text \<open>\<open>self._class_index[ind]\<close> for a slice or an integer array \<open>ind\<close>.\<close>

fun class_index_getitem :: "int_array \<Rightarrow> selection \<Rightarrow> error + int list" where
  "class_index_getitem (IntArray ci) (SSlice s) = getitem_slice ci s"
| "class_index_getitem (IntArray ci) (SList l) = getitem_array ci l"
| "class_index_getitem (IntArray ci) _ = Inl TypeError"
| "class_index_getitem (IntScalar c) _ = Inl IndexError"

fun getitem_slices :: "int list \<Rightarrow> pyslice list \<Rightarrow> error + int list" where
  "getitem_slices ci [] = Inr []"
| "getitem_slices ci (s # sls) =
     (case getitem_slice ci s of
        Inl e \<Rightarrow> Inl e
      | Inr xs \<Rightarrow> (case getitem_slices ci sls of Inl e \<Rightarrow> Inl e | Inr ys \<Rightarrow> Inr (xs @ ys)))"

text \<open>
  \<open>self._member_index[np.isin(self._class_index_to_members, wanted)]\<close>. Slice objects
  are equal to no integer, so an array of slices gives an all-false mask; a boolean mask
  must have the length of the array it indexes.
\<close>

definition isin_members :: "index_state \<Rightarrow> int list \<Rightarrow> error + int list" where
  "isin_members st wanted =
     (let mask = (case class_index_to_members st of
                    Raw vs \<Rightarrow> map (\<lambda>v. v \<in> set wanted) vs
                  | Slices sls \<Rightarrow> map (\<lambda>s. False) sls)
      in if length mask \<noteq> length (member_index st) then Inl IndexError
         else Inr (map fst (filter snd (zip (member_index st) mask))))"

text \<open>The last two branches of \<open>_query_index\<close>, shared by slices and arrays.\<close>

definition query_by_values :: "index_state \<Rightarrow> selection \<Rightarrow> error + member_ind" where
  "query_by_values st ind =
     (if class_index st = IntArray (member_index st)
      then (case class_index_getitem (class_index st) ind of
              Inl e \<Rightarrow> Inl e
            | Inr xs \<Rightarrow> Inr (MArray xs))
      else (case class_index_getitem (class_index st) ind of
              Inl e \<Rightarrow> Inl e
            | Inr wanted \<Rightarrow>
                (case isin_members st wanted of
                   Inl e \<Rightarrow> Inl e
                 | Inr xs \<Rightarrow> Inr (MArray xs))))"

text \<open>The slice-form branch: gather the slices of the requested range and fuse them.\<close>

definition query_slices :: "index_state \<Rightarrow> pyslice list \<Rightarrow> pyslice \<Rightarrow> error + member_ind" where
  "query_slices st sls ind =
     (case getitem_slice sls ind of
        Inl e \<Rightarrow> Inl e
      | Inr slices \<Rightarrow>
          if is_consecutive slices
          then (case slices of
                  [] \<Rightarrow> Inl IndexError
                | s0 # rest \<Rightarrow> Inr (MSlice (Slice (start s0) (stop (last slices)) (step s0))))
          else (case class_index st of
                  IntScalar c \<Rightarrow> Inl IndexError
                | IntArray ci \<Rightarrow>
                    (case getitem_slices ci slices of
                       Inl e \<Rightarrow> Inl e
                     | Inr xs \<Rightarrow> Inr (MArray xs))))"

definition query_slice :: "index_state \<Rightarrow> pyslice \<Rightarrow> error + member_ind" where
  "query_slice st ind =
     (case (case start ind of
              None \<Rightarrow> Inr False
            | Some a \<Rightarrow> (case len st of Inl e \<Rightarrow> Inl e | Inr n \<Rightarrow> Inr (int n \<le> a))) of
        Inl e \<Rightarrow> Inl e
      | Inr True \<Rightarrow> Inl IndexError
      | Inr False \<Rightarrow>
          (case class_index_to_members st of
             Slices sls \<Rightarrow> query_slices st sls ind
           | Raw vs \<Rightarrow> query_by_values st (SSlice ind)))"

fun query_index :: "index_state \<Rightarrow> selection \<Rightarrow> error + member_ind" where
  "query_index st (SInt class_ind) = query_slice st (Slice (Some class_ind) (Some (class_ind + 1)) None)"
| "query_index st (SSlice ind) = query_slice st ind"
| "query_index st (SList ind) = query_by_values st (SList ind)"
| "query_index st SOther = Inl TypeError"

section \<open>Reading a selection\<close>

fun apply_member_ind :: "'a list \<Rightarrow> member_ind \<Rightarrow> error + 'a list" where
  "apply_member_ind xs (MSlice s) = getitem_slice xs s"
| "apply_member_ind xs (MArray l) = getitem_array xs l"

text \<open>A nested entity receives the member positions as its own selection.\<close>

fun as_selection :: "member_ind \<Rightarrow> selection" where
  "as_selection (MSlice s) = SSlice s"
| "as_selection (MArray l) = SList l"

text \<open>\<open>v[np.s_[class_ind]]\<close> on the class index.\<close>

fun class_index_select :: "int_array \<Rightarrow> selection \<Rightarrow> error + int_array" where
  "class_index_select (IntArray ci) (SInt i) =
     (case norm_index (length ci) i of Inl e \<Rightarrow> Inl e | Inr p \<Rightarrow> Inr (IntScalar (ci ! p)))"
| "class_index_select (IntArray ci) (SSlice s) =
     (case getitem_slice ci s of Inl e \<Rightarrow> Inl e | Inr xs \<Rightarrow> Inr (IntArray xs))"
| "class_index_select (IntArray ci) (SList l) =
     (case getitem_array ci l of Inl e \<Rightarrow> Inl e | Inr xs \<Rightarrow> Inr (IntArray xs))"
| "class_index_select (IntArray ci) SOther = Inl TypeError"
| "class_index_select (IntScalar c) sel = Inl IndexError"

fun ctm_getitem :: "class_index_to_members \<Rightarrow> member_ind \<Rightarrow> error + class_index_to_members" where
  "ctm_getitem (Slices sls) m =
     (case apply_member_ind sls m of Inl e \<Rightarrow> Inl e | Inr xs \<Rightarrow> Inr (Slices xs))"
| "ctm_getitem (Raw vs) m =
     (case apply_member_ind vs m of Inl e \<Rightarrow> Inl e | Inr xs \<Rightarrow> Inr (Raw xs))"

text \<open>
  What the loop of \<open>__getitem__\<close> does to the index attributes of the copy: the member
  index and the mapping are arrays and are indexed by the member positions like any
  other array, the class index is indexed by the selection itself, and the member length
  and the attribute name are left as they are. \<open>set_index\<close> is not called.
\<close>

definition getitem_index :: "index_state \<Rightarrow> selection \<Rightarrow> member_ind \<Rightarrow> error + index_state" where
  "getitem_index st class_ind m =
     (case apply_member_ind (member_index st) m of
        Inl e \<Rightarrow> Inl e
      | Inr mi \<Rightarrow>
          (case class_index_select (class_index st) class_ind of
             Inl e \<Rightarrow> Inl e
           | Inr ci \<Rightarrow>
               (case ctm_getitem (class_index_to_members st) m of
                  Inl e \<Rightarrow> Inl e
                | Inr ctm \<Rightarrow>
                    Inr (st\<lparr> member_index := mi, class_index := ci,
                             class_index_to_members := ctm \<rparr>))))"

text \<open>
  \<open>__getitem__\<close>: resolve the member positions, then walk the instance dictionary (the
  attributes of the subclass first, the index attributes after them).
\<close>

fun getitem :: "'a entity \<Rightarrow> selection \<Rightarrow> error + 'a entity"
and getitem_members :: "(string \<times> 'a member) list \<Rightarrow> member_ind \<Rightarrow> error + (string \<times> 'a member) list"
and getitem_member :: "'a member \<Rightarrow> member_ind \<Rightarrow> error + 'a member" where
  "getitem (Entity ms None) class_ind = Inl AttributeError"
| "getitem (Entity ms (Some st)) class_ind =
     (case query_index st class_ind of
        Inl e \<Rightarrow> Inl e
      | Inr m \<Rightarrow>
          (case getitem_members ms m of
             Inl e \<Rightarrow> Inl e
           | Inr ms' \<Rightarrow>
               (case getitem_index st class_ind m of
                  Inl e \<Rightarrow> Inl e
                | Inr st' \<Rightarrow> Inr (Entity ms' (Some st')))))"
| "getitem_members [] m = Inr []"
| "getitem_members ((k, v) # rest) m =
     (case getitem_member v m of
        Inl e \<Rightarrow> Inl e
      | Inr v' \<Rightarrow>
          (case getitem_members rest m of
             Inl e \<Rightarrow> Inl e
           | Inr rest' \<Rightarrow> Inr ((k, v') # rest')))"
| "getitem_member (Arr xs) m =
     (case apply_member_ind xs m of Inl e \<Rightarrow> Inl e | Inr ys \<Rightarrow> Inr (Arr ys))"
| "getitem_member (Masked xs mk) m =
     (case apply_member_ind xs m of
        Inl e \<Rightarrow> Inl e
      | Inr ys \<Rightarrow>
          (case apply_member_ind mk m of Inl e \<Rightarrow> Inl e | Inr mk' \<Rightarrow> Inr (Masked ys mk')))"
| "getitem_member (TimeF xs scale fmt) m =
     (case apply_member_ind xs m of Inl e \<Rightarrow> Inl e | Inr ys \<Rightarrow> Inr (TimeF ys scale fmt))"
| "getitem_member (Nested ent) m =
     (case getitem ent (as_selection m) of Inl e \<Rightarrow> Inl e | Inr ent' \<Rightarrow> Inr (Nested ent'))"
| "getitem_member (Opaque x) m = Inr (Opaque x)"
| "getitem_member NoneV m = Inr NoneV"
| "getitem_member Unsupported m = Inl NotImplementedError"

section \<open>Deleting a selection\<close>

text \<open>
  \<open>np.delete(xs, obj, axis=0)\<close> for a slice or an integer array: positions outside the
  array are an \<open>IndexError\<close>, negative positions count from the end.
\<close>

fun np_delete :: "'a list \<Rightarrow> member_ind \<Rightarrow> error + 'a list" where
  "np_delete xs (MSlice s) =
     (case slice_positions s (length xs) of Inl e \<Rightarrow> Inl e | Inr ps \<Rightarrow> Inr (delete_rows ps xs))"
| "np_delete xs (MArray l) =
     (case norm_indices (length xs) l of Inl e \<Rightarrow> Inl e | Inr ps \<Rightarrow> Inr (delete_rows ps xs))"

text \<open>\<open>np.delete(v, np.s_[class_ind], axis=0)\<close> on the class index.\<close>

fun class_index_delete :: "int_array \<Rightarrow> selection \<Rightarrow> error + int_array" where
  "class_index_delete (IntArray ci) (SInt i) =
     (case norm_index (length ci) i of Inl e \<Rightarrow> Inl e | Inr p \<Rightarrow> Inr (IntArray (delete_rows [p] ci)))"
| "class_index_delete (IntArray ci) (SSlice s) =
     (case np_delete ci (MSlice s) of Inl e \<Rightarrow> Inl e | Inr xs \<Rightarrow> Inr (IntArray xs))"
| "class_index_delete (IntArray ci) (SList l) =
     (case np_delete ci (MArray l) of Inl e \<Rightarrow> Inl e | Inr xs \<Rightarrow> Inr (IntArray xs))"
| "class_index_delete (IntArray ci) SOther = Inl TypeError"
| "class_index_delete (IntScalar c) sel = Inl Unmodelled"

fun ctm_delete :: "class_index_to_members \<Rightarrow> member_ind \<Rightarrow> error + class_index_to_members" where
  "ctm_delete (Slices sls) m =
     (case np_delete sls m of Inl e \<Rightarrow> Inl e | Inr xs \<Rightarrow> Inr (Slices xs))"
| "ctm_delete (Raw vs) m =
     (case np_delete vs m of Inl e \<Rightarrow> Inl e | Inr xs \<Rightarrow> Inr (Raw xs))"

definition delitem_index :: "index_state \<Rightarrow> selection \<Rightarrow> member_ind \<Rightarrow> error + index_state" where
  "delitem_index st class_ind m =
     (case np_delete (member_index st) m of
        Inl e \<Rightarrow> Inl e
      | Inr mi \<Rightarrow>
          (case class_index_delete (class_index st) class_ind of
             Inl e \<Rightarrow> Inl e
           | Inr ci \<Rightarrow>
               (case ctm_delete (class_index_to_members st) m of
                  Inl e \<Rightarrow> Inl e
                | Inr ctm \<Rightarrow>
                    Inr (st\<lparr> member_index := mi, class_index := ci,
                             class_index_to_members := ctm \<rparr>))))"

definition attribute_values :: "string option \<Rightarrow> 'a index_values" where
  "attribute_values a = (case a of None \<Rightarrow> NoValues | Some name \<Rightarrow> ByName name)"

text \<open>
  \<open>__delitem__\<close> mutates the entity in place; the result is the entity after the call.
  When an exception leaves the loop or the final \<open>set_index\<close>, the attributes already
  reduced stay reduced in the source; here the error alone is returned.
\<close>

fun delitem :: "'a entity \<Rightarrow> selection \<Rightarrow> error + 'a entity"
and delitem_members :: "(string \<times> 'a member) list \<Rightarrow> member_ind \<Rightarrow> error + (string \<times> 'a member) list"
and delitem_member :: "'a member \<Rightarrow> member_ind \<Rightarrow> error + 'a member" where
  "delitem (Entity ms None) class_ind = Inl AttributeError"
| "delitem (Entity ms (Some st)) class_ind =
     (case query_index st class_ind of
        Inl e \<Rightarrow> Inl e
      | Inr m \<Rightarrow>
          (case delitem_members ms m of
             Inl e \<Rightarrow> Inl e
           | Inr ms' \<Rightarrow>
               (case delitem_index st class_ind m of
                  Inl e \<Rightarrow> Inl e
                | Inr st' \<Rightarrow>
                    set_index (Entity ms' (Some st'))
                      (attribute_values (class_index_attribute st')))))"
| "delitem_members [] m = Inr []"
| "delitem_members ((k, v) # rest) m =
     (case delitem_member v m of
        Inl e \<Rightarrow> Inl e
      | Inr v' \<Rightarrow>
          (case delitem_members rest m of
             Inl e \<Rightarrow> Inl e
           | Inr rest' \<Rightarrow> Inr ((k, v') # rest')))"
| "delitem_member (Masked xs mk) m =
     (case np_delete xs m of
        Inl e \<Rightarrow> Inl e
      | Inr ys \<Rightarrow>
          (case np_delete mk m of Inl e \<Rightarrow> Inl e | Inr mk' \<Rightarrow> Inr (Masked ys mk')))"
| "delitem_member (Arr xs) m =
     (case np_delete xs m of Inl e \<Rightarrow> Inl e | Inr ys \<Rightarrow> Inr (Arr ys))"
| "delitem_member (TimeF xs scale fmt) m =
     (case np_delete xs m of Inl e \<Rightarrow> Inl e | Inr ys \<Rightarrow> Inr (TimeF ys scale ''mjd''))"
| "delitem_member (Nested ent) m =
     (case delitem ent (as_selection m) of Inl e \<Rightarrow> Inl e | Inr ent' \<Rightarrow> Inr (Nested ent'))"
| "delitem_member (Opaque x) m = Inr (Opaque x)"
| "delitem_member NoneV m = Inr NoneV"
| "delitem_member Unsupported m = Inl NotImplementedError"

section \<open>Concatenation\<close>

text \<open>
  \<open>concatenate\<close> classifies every attribute by the kind it has in the first entity and
  then reads the other entities by attribute name. Entities whose attribute names or
  kinds differ from the first one, and class indexes that are numpy scalars, are outside
  this model.
\<close>

fun same_kind :: "'a member \<Rightarrow> 'a member \<Rightarrow> bool" where
  "same_kind (Arr xs) (Arr ys) = True"
| "same_kind (Masked xs mk) (Masked ys mk') = True"
| "same_kind (TimeF xs sc fm) (TimeF ys sc' fm') = True"
| "same_kind (Nested a) (Nested b) = True"
| "same_kind (Opaque x) (Opaque y) = True"
| "same_kind NoneV NoneV = True"
| "same_kind Unsupported Unsupported = True"
| "same_kind v w = False"

fun is_int_array :: "int_array \<Rightarrow> bool" where
  "is_int_array (IntArray xs) = True"
| "is_int_array (IntScalar x) = False"

definition same_schema :: "'a entity \<Rightarrow> 'a entity \<Rightarrow> bool" where
  "same_schema first other =
     (map fst (members other) = map fst (members first) \<and>
      list_all2 same_kind (map snd (members first)) (map snd (members other)) \<and>
      (case (idx first, idx other) of
         (None, None) \<Rightarrow> True
       | (Some st, Some st') \<Rightarrow> is_int_array (class_index st) \<and> is_int_array (class_index st')
       | _ \<Rightarrow> False))"

text \<open>
  The assertions of the second loop: equal time scales, equal opaque values (the \<open>==\<close> of
  Python, which is equality for every value that is equal to itself). The member length,
  the attribute name and the slice flag of the index are opaque values too.
\<close>

fun member_assertion :: "'a member \<Rightarrow> 'a member \<Rightarrow> bool" where
  "member_assertion (TimeF xs sc fm) (TimeF ys sc' fm') = (sc = sc')"
| "member_assertion (Opaque x) (Opaque y) = (x = y)"
| "member_assertion v w = True"

fun is_slice :: "class_index_to_members \<Rightarrow> bool" where
  "is_slice (Slices sls) = True"
| "is_slice (Raw vs) = False"

definition index_assertion :: "index_state \<Rightarrow> index_state \<Rightarrow> bool" where
  "index_assertion st st' =
     (member_length st = member_length st' \<and>
      (case class_index_attribute st' of
         None \<Rightarrow> True
       | Some b \<Rightarrow> class_index_attribute st = Some b) \<and>
      is_slice (class_index_to_members st) = is_slice (class_index_to_members st'))"

definition assertions_hold :: "'a entity \<Rightarrow> 'a entity \<Rightarrow> bool" where
  "assertions_hold first other =
     (list_all2 member_assertion (map snd (members first)) (map snd (members other)) \<and>
      (case (idx first, idx other) of
         (Some st, Some st') \<Rightarrow> index_assertion st st'
       | _ \<Rightarrow> True))"

fun array_of :: "'a member \<Rightarrow> 'a list option" where
  "array_of (Arr xs) = Some xs"
| "array_of (Masked xs mk) = Some xs"
| "array_of (TimeF xs sc fm) = Some xs"
| "array_of v = None"

fun mask_of :: "'a member \<Rightarrow> bool list option" where
  "mask_of (Masked xs mk) = Some mk"
| "mask_of v = None"

fun entity_of :: "'a member \<Rightarrow> 'a entity option" where
  "entity_of (Nested ent) = Some ent"
| "entity_of v = None"

fun int_array_values :: "int_array \<Rightarrow> int list option" where
  "int_array_values (IntArray xs) = Some xs"
| "int_array_values (IntScalar x) = None"

fun ctm_append :: "class_index_to_members \<Rightarrow> class_index_to_members \<Rightarrow> class_index_to_members option" where
  "ctm_append (Slices a) (Slices b) = Some (Slices (a @ b))"
| "ctm_append (Raw a) (Raw b) = Some (Raw (a @ b))"
| "ctm_append a b = None"

fun ctm_concatenate :: "class_index_to_members \<Rightarrow> class_index_to_members list \<Rightarrow> class_index_to_members option" where
  "ctm_concatenate a [] = Some a"
| "ctm_concatenate a (b # bs) =
     (case ctm_append a b of None \<Rightarrow> None | Some ab \<Rightarrow> ctm_concatenate ab bs)"

text \<open>The three index arrays are arrays like any other and are joined end to end.\<close>

definition concatenate_index :: "index_state \<Rightarrow> index_state list \<Rightarrow> error + index_state" where
  "concatenate_index st others =
     (case those (map (\<lambda>other. int_array_values (class_index other)) (st # others)) of
        None \<Rightarrow> Inl Unmodelled
      | Some cis \<Rightarrow>
          (case ctm_concatenate (class_index_to_members st) (map class_index_to_members others) of
             None \<Rightarrow> Inl Unmodelled
           | Some ctm \<Rightarrow>
               Inr (st\<lparr> member_index := concat (map member_index (st # others)),
                        class_index := IntArray (concat cis),
                        class_index_to_members := ctm \<rparr>)))"

text \<open>
  \<open>concatenate_from first others\<close> is \<open>concatenate([first] + others)\<close>. The result starts
  as a deep copy of the first entity; joined attributes replace the copied ones, time
  arrays are rebuilt from MJD values with the scale of the first entity and format
  \<open>mjd\<close>, nested entities are concatenated recursively, and the index is rebuilt from
  the attribute name of the first entity.
\<close>

fun concatenate_from :: "'a entity \<Rightarrow> 'a entity list \<Rightarrow> error + 'a entity"
and concatenate_members :: "(string \<times> 'a member) list \<Rightarrow> 'a entity list \<Rightarrow> error + (string \<times> 'a member) list"
and concatenate_member :: "'a member \<Rightarrow> 'a member list \<Rightarrow> error + 'a member" where
  "concatenate_from (Entity ms i) others =
     (if \<not> list_all (same_schema (Entity ms i)) others then Inl Unmodelled
      else if \<not> list_all (assertions_hold (Entity ms i)) others then Inl AssertionError
      else
        (case concatenate_members ms others of
           Inl e \<Rightarrow> Inl e
         | Inr ms' \<Rightarrow>
             (case i of
                None \<Rightarrow> Inr (Entity ms' None)
              | Some st \<Rightarrow>
                  (case those (map idx others) of
                     None \<Rightarrow> Inl Unmodelled
                   | Some sts \<Rightarrow>
                       (case concatenate_index st sts of
                          Inl e \<Rightarrow> Inl e
                        | Inr st' \<Rightarrow>
                            set_index (Entity ms' (Some st'))
                              (attribute_values (class_index_attribute st')))))))"
| "concatenate_members [] others = Inr []"
| "concatenate_members ((k, v) # rest) others =
     (case those (map (\<lambda>other. map_of (members other) k) others) of
        None \<Rightarrow> Inl Unmodelled
      | Some ws \<Rightarrow>
          (case concatenate_member v ws of
             Inl e \<Rightarrow> Inl e
           | Inr v' \<Rightarrow>
               (case concatenate_members rest others of
                  Inl e \<Rightarrow> Inl e
                | Inr rest' \<Rightarrow> Inr ((k, v') # rest'))))"
| "concatenate_member (Masked xs mk) ws =
     (case (those (map array_of ws), those (map mask_of ws)) of
        (Some yss, Some mks) \<Rightarrow> Inr (Masked (concat (xs # yss)) (concat (mk # mks)))
      | _ \<Rightarrow> Inl Unmodelled)"
| "concatenate_member (Arr xs) ws =
     (case those (map array_of ws) of
        Some yss \<Rightarrow> Inr (Arr (concat (xs # yss)))
      | None \<Rightarrow> Inl Unmodelled)"
| "concatenate_member (Nested ent) ws =
     (case those (map entity_of ws) of
        Some ents \<Rightarrow>
          (case concatenate_from ent ents of Inl e \<Rightarrow> Inl e | Inr ent' \<Rightarrow> Inr (Nested ent'))
      | None \<Rightarrow> Inl Unmodelled)"
| "concatenate_member (TimeF xs scale fmt) ws =
     (case those (map array_of ws) of
        Some yss \<Rightarrow> Inr (TimeF (concat (xs # yss)) scale ''mjd'')
      | None \<Rightarrow> Inl Unmodelled)"
| "concatenate_member (Opaque x) ws = Inr (Opaque x)"
| "concatenate_member NoneV ws = Inr NoneV"
| "concatenate_member Unsupported ws = Inr Unsupported"

fun concatenate :: "'a entity list \<Rightarrow> error + 'a entity" where
  "concatenate [] = Inl IndexError"
| "concatenate (first # others) = concatenate_from first others"

section \<open>Sorting\<close>

datatype by_arg = ByStr string | ByList "string list"

datatype ascending_arg = AscBool bool | AscList "bool list"

text \<open>The four accepted combinations of \<open>by\<close> and \<open>ascending\<close>.\<close>

fun sort_arguments :: "by_arg \<Rightarrow> ascending_arg \<Rightarrow> error + (string list \<times> bool list)" where
  "sort_arguments (ByList by) (AscList ascending) =
     (if length ascending \<noteq> length by then Inl AssertionError else Inr (by, ascending))"
| "sort_arguments (ByList by) (AscBool ascending) = Inr (by, map (\<lambda>i. ascending) by)"
| "sort_arguments (ByStr by) (AscBool ascending) = Inr ([by], [ascending])"
| "sort_arguments (ByStr by) (AscList ascending) = Inr ([by], ascending)"

text \<open>
  The names, besides those of the members, under which \<open>getattr\<close> finds an attribute of an
  entity that has an index: the property \<open>index\<close> and the index attributes of the instance
  dictionary.
\<close>

definition index_attribute_names :: "string list" where
  "index_attribute_names =
     [''index'', ''_member_length'', ''_member_index'', ''_class_index_attribute'',
      ''_class_index'', ''_class_index_to_members'', ''_class_index_to_members_is_slice'']"

text \<open>
  The attributes appended for one sort key: the attribute of the entity itself, or, when
  the entity has none of that name, the attribute of every nested entity that has one.
  A sort key that names an index attribute is found by \<open>getattr\<close> but is no member, and
  sorting on it is outside this model; so are keys that are properties of a subclass.
\<close>

definition find_attribute :: "'a entity \<Rightarrow> string \<Rightarrow> error + 'a member list" where
  "find_attribute e by_i =
     (case map_of (members e) by_i of
        Some v \<Rightarrow> Inr [v]
      | None \<Rightarrow>
          if by_i \<in> set index_attribute_names \<and> idx e \<noteq> None then Inl Unmodelled
          else
            (let found = concat (map (\<lambda>(k, v).
                   (case v of
                      Nested ent \<Rightarrow>
                        (case map_of (members ent) by_i of Some w \<Rightarrow> [w] | None \<Rightarrow> [])
                    | _ \<Rightarrow> [])) (members e))
             in if found = [] then Inl AttributeError else Inr found))"

fun find_attributes :: "'a entity \<Rightarrow> string list \<Rightarrow> error + 'a member list" where
  "find_attributes e [] = Inr []"
| "find_attributes e (by_i # by) =
     (case find_attribute e by_i of
        Inl err \<Rightarrow> Inl err
      | Inr vs \<Rightarrow>
          (case find_attributes e by of Inl err \<Rightarrow> Inl err | Inr ws \<Rightarrow> Inr (vs @ ws)))"

text \<open>
  The column that enters the data frame: the filled values of a masked array (\<open>fill\<close> is
  its fill value), the MJD values of a time array, a plain array as it is. Other kinds of
  attribute as sort keys are outside this model.
\<close>

fun sort_column :: "'a \<Rightarrow> 'a member \<Rightarrow> error + 'a list" where
  "sort_column fill (Masked xs mk) = Inr (map (\<lambda>(x, m). if m then fill else x) (zip xs mk))"
| "sort_column fill (TimeF xs scale fmt) = Inr xs"
| "sort_column fill (Arr xs) = Inr xs"
| "sort_column fill v = Inl Unmodelled"

text \<open>The dictionary \<open>data\<close>, filled pair by pair; a repeated name keeps its last column.\<close>

fun sort_data :: "'a \<Rightarrow> (string \<times> 'a member) list \<Rightarrow> (string \<rightharpoonup> 'a list) \<Rightarrow> error + (string \<rightharpoonup> 'a list)" where
  "sort_data fill [] data = Inr data"
| "sort_data fill ((by_i, attribute_i) # rest) data =
     (case sort_column fill attribute_i of
        Inl err \<Rightarrow> Inl err
      | Inr col \<Rightarrow> sort_data fill rest (data(by_i \<mapsto> col)))"

text \<open>
  \<open>DataFrame.sort_values(by, ascending, kind="stable")\<close>, the contract of the library
  call: rows are compared key by key, each key in its own direction, and rows that agree
  on every key keep their order. It is written as an insertion sort of the row labels.
\<close>

fun row_le :: "('a::linorder list \<times> bool) list \<Rightarrow> nat \<Rightarrow> nat \<Rightarrow> bool" where
  "row_le [] i j = True"
| "row_le ((col, ascending) # keys) i j =
     (if col ! i = col ! j then row_le keys i j
      else if ascending then col ! i < col ! j
      else col ! j < col ! i)"

fun insert_row :: "('a::linorder list \<times> bool) list \<Rightarrow> nat \<Rightarrow> nat list \<Rightarrow> nat list" where
  "insert_row keys i [] = [i]"
| "insert_row keys i (j # js) =
     (if row_le keys i j then i # j # js else j # insert_row keys i js)"

fun stable_sort_rows :: "('a::linorder list \<times> bool) list \<Rightarrow> nat list \<Rightarrow> nat list" where
  "stable_sort_rows keys [] = []"
| "stable_sort_rows keys (i # is) = insert_row keys i (stable_sort_rows keys is)"

text \<open>Decimal digits of a number, for the messages that quote lengths.\<close>

fun show_nat :: "nat \<Rightarrow> string" where
  "show_nat n =
     (if n < 10 then [char_of (48 + n)]
      else show_nat (n div 10) @ [char_of (48 + n mod 10)])"

declare show_nat.simps [simp del]

text \<open>
  The data frame and its sorted row labels. Columns of different lengths, and a list of
  directions whose length differs from the number of keys, are a \<open>ValueError\<close> of
  pandas; sorting by no key at all is outside this model.
\<close>

definition sorted_indices :: "(string \<rightharpoonup> 'a::linorder list) \<Rightarrow> string list \<Rightarrow> bool list \<Rightarrow> error + nat list" where
  "sorted_indices data by ascending =
     (case those (map data by) of
        None \<Rightarrow> Inl Unmodelled
      | Some [] \<Rightarrow> Inl Unmodelled
      | Some (col # cols) \<Rightarrow>
          if \<not> list_all (\<lambda>c. length c = length col) cols
          then Inl (ValueError ''All arrays must be of the same length'')
          else if length ascending \<noteq> length by
          then Inl (ValueError (''Length of ascending ('' @ show_nat (length ascending) @
                 '') != length of by ('' @ show_nat (length by) @ '')''))
          else Inr (stable_sort_rows (zip (col # cols) ascending) [0..<length col]))"

text \<open>
  \<open>sort_values\<close> returns the entity as the call leaves it, and the sorted copy when the
  sort is not in place.
\<close>

definition sort_values :: "'a::linorder \<Rightarrow> 'a entity \<Rightarrow> by_arg \<Rightarrow> bool \<Rightarrow> ascending_arg \<Rightarrow> error + ('a entity \<times> 'a entity option)" where
  "sort_values fill e by inplace ascending =
     (case sort_arguments by ascending of
        Inl err \<Rightarrow> Inl err
      | Inr (by', ascending') \<Rightarrow>
     (case find_attributes e by' of
        Inl err \<Rightarrow> Inl err
      | Inr attributes \<Rightarrow>
     (case sort_data fill (zip by' attributes) Map.empty of
        Inl err \<Rightarrow> Inl err
      | Inr data \<Rightarrow>
     (case sorted_indices data by' ascending' of
        Inl err \<Rightarrow> Inl err
      | Inr inds \<Rightarrow>
     (case idx e of
        None \<Rightarrow> Inl AttributeError
      | Some st \<Rightarrow>
     (case set_index e NoValues of
        Inl err \<Rightarrow> Inl err
      | Inr e1 \<Rightarrow>
     (case getitem e1 (SList (map int inds)) of
        Inl err \<Rightarrow> Inl err
      | Inr copy \<Rightarrow>
     (case class_index_attribute st of
        Some index_attribute \<Rightarrow>
          (case set_index copy (ByName index_attribute) of
             Inl err \<Rightarrow> Inl err
           | Inr copy' \<Rightarrow>
               (case set_index e1 (ByName index_attribute) of
                  Inl err \<Rightarrow> Inl err
                | Inr e2 \<Rightarrow> if inplace then Inr (copy', None) else Inr (e2, Some copy')))
      | None \<Rightarrow>
          (case set_index copy NoValues of
             Inl err \<Rightarrow> Inl err
           | Inr copy' \<Rightarrow> if inplace then Inr (copy', None) else Inr (e1, Some copy'))))))))))"

section \<open>The default index and regular entities\<close>

text \<open>
  The index that \<open>set_index()\<close> builds for \<open>n\<close> rows when no index values are given: one
  key per row, the mapping in slice form with one unit slice per row.
\<close>

definition default_index :: "nat \<Rightarrow> index_state" where
  "default_index n =
     \<lparr> member_length = n,
       member_index = map int [0..<n],
       class_index_attribute = None,
       class_index = IntArray (map int [0..<n]),
       class_index_to_members =
         Slices (map (\<lambda>i. Slice (Some (int i)) (Some (int i + 1)) (Some 1)) [0..<n]) \<rparr>"

text \<open>
  The entities of the round-trip theorems: \<open>n\<close> rows under the default index, distinct
  attribute names, every array of \<open>n\<close> rows (a masked array with a mask of the same
  length), no attribute of an unsupported kind, nested entities of the same form.
\<close>

fun default_indexed :: "nat \<Rightarrow> 'a entity \<Rightarrow> bool"
and regular_members :: "nat \<Rightarrow> (string \<times> 'a member) list \<Rightarrow> bool"
and regular_member :: "nat \<Rightarrow> 'a member \<Rightarrow> bool" where
  "default_indexed n (Entity ms i) =
     (i = Some (default_index n) \<and> distinct (map fst ms) \<and> regular_members n ms)"
| "regular_members n [] = True"
| "regular_members n ((k, v) # rest) = (regular_member n v \<and> regular_members n rest)"
| "regular_member n (Arr xs) = (length xs = n)"
| "regular_member n (Masked xs mk) = (length xs = n \<and> length mk = n)"
| "regular_member n (TimeF xs scale fmt) = (length xs = n)"
| "regular_member n (Nested ent) = default_indexed n ent"
| "regular_member n (Opaque x) = True"
| "regular_member n NoneV = True"
| "regular_member n Unsupported = False"

text \<open>
  The entity with every time array, its own and those of its nested entities, in format
  \<open>mjd\<close>: \<open>concatenate\<close> rebuilds time arrays as \<open>Time(values, scale=scale, format="mjd")\<close>.
\<close>

fun mjd_times :: "'a entity \<Rightarrow> 'a entity"
and mjd_times_members :: "(string \<times> 'a member) list \<Rightarrow> (string \<times> 'a member) list"
and mjd_times_member :: "'a member \<Rightarrow> 'a member" where
  "mjd_times (Entity ms i) = Entity (mjd_times_members ms) i"
| "mjd_times_members [] = []"
| "mjd_times_members ((k, v) # rest) = (k, mjd_times_member v) # mjd_times_members rest"
| "mjd_times_member (TimeF xs scale fmt) = TimeF xs scale ''mjd''"
| "mjd_times_member (Nested ent) = Nested (mjd_times ent)"
| "mjd_times_member v = v"

section \<open>Cardinality check\<close>

lemma member_lengths_no_sliceable:
  assumes "list_all (\<lambda>(k, v). sliceable_length v = []) ms"
  shows "member_lengths (Entity ms None) = []"
proof -
  have "concat (map (\<lambda>(k, v). sliceable_length v) ms) = []"
    using assms by (induction ms) auto
  then show ?thesis by (simp add: member_lengths_def)
qed

text \<open>
  C10. An entity whose instance dictionary holds no array, masked array or time array
  cannot be indexed: \<open>set_index\<close>, and with it the constructor, raises the \<open>ValueError\<close>
  that mismatched lengths raise, whatever index values are passed. The set of member
  lengths must hold exactly one value; opaque, nested and \<open>None\<close> attributes add none.
\<close>

theorem no_sliceable_members_error:
  "(member_lengths e = [] \<longrightarrow>
      set_index e index_values = Inl (ValueError ''All sliceable members must have the same length.'')) \<and>
   (list_all (\<lambda>(k, v). sliceable_length v = []) ms \<longrightarrow>
      init ms index_values = Inl (ValueError ''All sliceable members must have the same length.'')) \<and>
   (a \<in> set (member_lengths e) \<and> b \<in> set (member_lengths e) \<and> a \<noteq> b \<longrightarrow>
      set_index e index_values = Inl (ValueError ''All sliceable members must have the same length.''))"
proof (intro conjI impI)
  assume "member_lengths e = []"
  then show "set_index e index_values = Inl (ValueError ''All sliceable members must have the same length.'')"
    by (simp add: set_index_def check_member_validity_def)
next
  assume "list_all (\<lambda>(k, v). sliceable_length v = []) ms"
  then have "member_lengths (Entity ms None) = []" by (rule member_lengths_no_sliceable)
  then show "init ms index_values = Inl (ValueError ''All sliceable members must have the same length.'')"
    by (simp add: init_def set_index_def check_member_validity_def)
next
  assume h: "a \<in> set (member_lengths e) \<and> b \<in> set (member_lengths e) \<and> a \<noteq> b"
  have "\<And>n. member_lengths e \<noteq> [n]"
  proof
    fix n assume "member_lengths e = [n]"
    with h show False by auto
  qed
  then have "check_member_validity e = Inl (ValueError ''All sliceable members must have the same length.'')"
    by (auto simp: check_member_validity_def split: list.splits)
  then show "set_index e index_values = Inl (ValueError ''All sliceable members must have the same length.'')"
    by (simp add: set_index_def)
qed

theorem no_sliceable_members_error_witness:
  "init [(''origin'', Opaque (0::int)), (''inner'', Nested (Entity [(''x'', Arr [1, 2])] None)), (''spare'', NoneV)] NoValues
     = Inl (ValueError ''All sliceable members must have the same length.'') \<and>
   set_index (Entity [(''x'', Arr [1, 2 :: int]), (''y'', Arr [1])] None) (ByName ''x'')
     = Inl (ValueError ''All sliceable members must have the same length.'') \<and>
   set_index (Entity [(''origin'', Opaque (0::int))] None) NoValues
     = Inl (ValueError ''All sliceable members must have the same length.'')"
  using no_sliceable_members_error
          [of "Entity [(''origin'', Opaque (0::int))] None" NoValues
              "[(''origin'', Opaque (0::int)), (''inner'', Nested (Entity [(''x'', Arr [1, 2])] None)), (''spare'', NoneV)]"
              2 1]
        no_sliceable_members_error
          [of "Entity [(''x'', Arr [1, 2 :: int]), (''y'', Arr [1])] None" "ByName ''x''" "[]" 2 1]
  by (simp add: member_lengths_def)

section \<open>Slices with unit step\<close>

lemma py_range_step_one: "py_range a b 1 = map (\<lambda>k. a + int k) [0..<nat (b - a)]"
  by (simp add: py_range_def)

lemma slice_indices_unit_step:
  assumes "0 \<le> a" "0 \<le> b"
  shows "slice_indices (Slice (Some a) (Some b) (Some 1)) n = Inr (min a n, min b n, 1)"
  using assms by (simp add: slice_indices_def Let_def)

lemma slice_positions_unit_step:
  assumes "0 \<le> a" "0 \<le> b"
  shows "slice_positions (Slice (Some a) (Some b) (Some 1)) n =
           Inr (map (\<lambda>k. nat (min a (int n)) + k) [0..<nat (min b (int n)) - nat (min a (int n))])"
proof -
  have "map nat (map (\<lambda>k. min a (int n) + int k) [0..<nat (min b (int n) - min a (int n))]) =
        map (\<lambda>k. nat (min a (int n)) + k) [0..<nat (min b (int n)) - nat (min a (int n))]"
    using assms by (auto simp: nat_add_distrib nat_diff_distrib')
  then show ?thesis
    unfolding slice_positions_def slice_indices_unit_step[OF assms]
    by (simp add: py_range_step_one)
qed

lemma getitem_slice_unit_step:
  assumes "0 \<le> a" "0 \<le> b"
  shows "getitem_slice xs (Slice (Some a) (Some b) (Some 1)) = Inr (drop (nat a) (take (nat b) xs))"
proof -
  let ?n = "length xs"
  let ?a = "nat (min a (int ?n))" and ?b = "nat (min b (int ?n))"
  have "map (\<lambda>p. xs ! p) (map (\<lambda>k. ?a + k) [0..<?b - ?a]) = drop (nat a) (take (nat b) xs)"
    using assms by (auto intro!: nth_equalityI simp: min_def)
  then show ?thesis
    unfolding getitem_slice_def slice_positions_unit_step[OF assms] by simp
qed

section \<open>Bounds check\<close>

text \<open>
  C6. A slice selection whose start is at or beyond \<open>len(entity)\<close> is an \<open>IndexError\<close>. The
  check sits in \<open>_query_index\<close>, the first statement of both \<open>__getitem__\<close> and
  \<open>__delitem__\<close>, so the error comes before any attribute is read or reduced. An integer
  selection \<open>i\<close> is resolved as the slice from \<open>i\<close> to \<open>i + 1\<close> and meets the same check.
\<close>

theorem start_beyond_length_is_index_error:
  assumes "len st = Inr n" and "int n \<le> a"
  shows "query_index st (SSlice (Slice (Some a) b c)) = Inl IndexError \<and>
         getitem (Entity ms (Some st)) (SSlice (Slice (Some a) b c)) = Inl IndexError \<and>
         delitem (Entity ms (Some st)) (SSlice (Slice (Some a) b c)) = Inl IndexError \<and>
         query_index st (SInt a) = query_index st (SSlice (Slice (Some a) (Some (a + 1)) None)) \<and>
         query_index st (SInt a) = Inl IndexError \<and>
         getitem (Entity ms (Some st)) (SInt a) = Inl IndexError \<and>
         delitem (Entity ms (Some st)) (SInt a) = Inl IndexError"
proof -
  have q: "\<And>b c. query_slice st (Slice (Some a) b c) = Inl IndexError"
    using assms by (simp add: query_slice_def)
  show ?thesis by (simp add: q)
qed

theorem start_beyond_length_is_index_error_witness:
  "getitem (Entity [(''x'', Arr [10, 11, 12 :: int])]
      (Some \<lparr> member_length = 3, member_index = [0, 1, 2], class_index_attribute = None,
             class_index = IntArray [0, 1, 2],
             class_index_to_members = Slices [Slice (Some 0) (Some 1) (Some 1),
               Slice (Some 1) (Some 2) (Some 1), Slice (Some 2) (Some 3) (Some 1)] \<rparr>))
      (SSlice (Slice (Some 3) None None)) = Inl IndexError \<and>
   delitem (Entity [(''x'', Arr [10, 11, 12 :: int])]
      (Some \<lparr> member_length = 3, member_index = [0, 1, 2], class_index_attribute = None,
             class_index = IntArray [0, 1, 2],
             class_index_to_members = Slices [Slice (Some 0) (Some 1) (Some 1),
               Slice (Some 1) (Some 2) (Some 1), Slice (Some 2) (Some 3) (Some 1)] \<rparr>))
      (SInt 3) = Inl IndexError"
  using start_beyond_length_is_index_error
     [of "\<lparr> member_length = 3, member_index = [0, 1, 2], class_index_attribute = None,
             class_index = IntArray [0, 1, 2],
             class_index_to_members = Slices [Slice (Some 0) (Some 1) (Some 1),
               Slice (Some 1) (Some 2) (Some 1), Slice (Some 2) (Some 3) (Some 1)] \<rparr>" 3 3
         None None "[(''x'', Arr [10, 11, 12 :: int])]"]
  by simp

section \<open>Grouped keys\<close>

text \<open>
  C1. The grouping test rejects a group only when none of its neighbouring positions are
  adjacent (\<open>np.all(np.diff(mask) != 1)\<close>). For the keys \<open>a, a, b, a\<close> the group of \<open>a\<close> is not
  a contiguous run, yet the test passes: the index is built in slice form, with the slices
  \<open>[0, 3)\<close> and \<open>[3, 4)\<close>, and reading class position 0 (key \<open>a\<close>) returns rows 0, 1 and 2,
  the row of key \<open>b\<close> among them.
\<close>

theorem ungrouped_keys_compressed_to_slices:
  "init [(''x'', Arr [''r0'', ''r1'', ''r2'', ''r3''])] (ByArray [''a'', ''a'', ''b'', ''a'']) =
     Inr (Entity [(''x'', Arr [''r0'', ''r1'', ''r2'', ''r3''])]
       (Some \<lparr> member_length = 4, member_index = [0, 1, 2, 3], class_index_attribute = None,
               class_index = IntArray [0, 1],
               class_index_to_members =
                 Slices [Slice (Some 0) (Some 3) (Some 1), Slice (Some 3) (Some 4) (Some 1)] \<rparr>)) \<and>
   (case getitem (Entity [(''x'', Arr [''r0'', ''r1'', ''r2'', ''r3''])]
       (Some \<lparr> member_length = 4, member_index = [0, 1, 2, 3], class_index_attribute = None,
               class_index = IntArray [0, 1],
               class_index_to_members =
                 Slices [Slice (Some 0) (Some 3) (Some 1), Slice (Some 3) (Some 4) (Some 1)] \<rparr>)) (SInt 0) of
      Inr copy \<Rightarrow> members copy = [(''x'', Arr [''r0'', ''r1'', ''r2''])]
    | Inl err \<Rightarrow> False)"
  by code_simp

lemma getitem_members_success:
  "getitem_members ms m = Inr ms' \<Longrightarrow>
     list_all2 (\<lambda>(k, v) (k', v'). k' = k \<and> getitem_member v m = Inr v') ms ms'"
proof (induction ms arbitrary: ms')
  case Nil
  then show ?case by simp
next
  case (Cons kv ms)
  obtain k v where kv: "kv = (k, v)" by (cases kv)
  from Cons.prems obtain v' rest' where
    "getitem_member v m = Inr v'" "getitem_members ms m = Inr rest'" "ms' = (k, v') # rest'"
    unfolding kv by (auto split: sum.splits)
  with Cons.IH[of rest'] show ?case by (simp add: kv)
qed

lemma getitem_members_total:
  "list_all (\<lambda>(k, v). \<exists>v'. getitem_member v m = Inr v') ms \<Longrightarrow> \<exists>ms'. getitem_members ms m = Inr ms'"
  by (induction ms) auto

lemma sliceable_length_in_member_lengths:
  assumes "(k, v) \<in> set (members e)" and "n \<in> set (sliceable_length v)"
  shows "n \<in> set (member_lengths e)"
  using assms by (auto simp: member_lengths_def)

lemma member_lengths_single:
  assumes "member_lengths e = [n]" and "(k, v) \<in> set (members e)"
  shows "sliceable_length v = [] \<or> sliceable_length v = [n]"
proof (cases "sliceable_length v")
  case Nil
  then show ?thesis by simp
next
  case (Cons l ls)
  then have "sliceable_length v = [l]" by (cases v) auto
  moreover have "l \<in> set (member_lengths e)"
    using sliceable_length_in_member_lengths[OF assms(2)] Cons by simp
  ultimately show ?thesis using assms(1) by simp
qed

lemma check_member_validity_single:
  "member_lengths e = [n] \<Longrightarrow> check_member_validity e = Inr (n, map int [0..<n])"
  by (simp add: check_member_validity_def)

lemma upt_6: "[0..<6] = [0, 1, 2, 3, 4, 5]"
  by code_simp
lemma upt_3: "[0..<3] = [0, 1, 2]"
  by code_simp

lemma codes_aabccc:
  assumes "a \<noteq> b" "a \<noteq> c" "b \<noteq> c"
  shows "map_to_integers [a, a, b, c, c, c] = [0, 0, 1, 2, 2, 2]"
  using assms by (simp add: map_to_integers_def pd_unique_def)

lemma slices_001222:
  "convert_grouped_array_to_slices [0, 0, 1, 2, 2, 2 :: int] =
     Inr [Slice (Some 0) (Some 2) (Some 1), Slice (Some 2) (Some 3) (Some 1), Slice (Some 3) (Some 6) (Some 1)]"
  by code_simp

lemma unique_001222: "pd_unique [0, 0, 1, 2, 2, 2 :: int] = [0, 1, 2]"
  by code_simp

lemma set_index_aabccc:
  assumes "a \<noteq> b" "a \<noteq> c" "b \<noteq> c" and "member_lengths e = [6]"
  shows "set_index e (ByArray [a, a, b, c, c, c]) =
     Inr (Entity (members e)
       (Some \<lparr> member_length = 6, member_index = [0, 1, 2, 3, 4, 5], class_index_attribute = None,
               class_index = IntArray [0, 1, 2],
               class_index_to_members =
                 Slices [Slice (Some 0) (Some 2) (Some 1), Slice (Some 2) (Some 3) (Some 1),
                         Slice (Some 3) (Some 6) (Some 1)] \<rparr>))"
  unfolding set_index_def check_member_validity_single[OF assms(4)]
  by (simp add: codes_aabccc[OF assms(1-3)] slices_001222 unique_001222 upt_6)

lemma query_third_group:
  "query_index \<lparr> member_length = 6, member_index = [0, 1, 2, 3, 4, 5], class_index_attribute = None,
               class_index = IntArray [0, 1, 2],
               class_index_to_members =
                 Slices [Slice (Some 0) (Some 2) (Some 1), Slice (Some 2) (Some 3) (Some 1),
                         Slice (Some 3) (Some 6) (Some 1)] \<rparr> (SInt 2) =
     Inr (MSlice (Slice (Some 3) (Some 6) (Some 1)))"
  by code_simp

lemma getitem_index_third_group:
  "getitem_index \<lparr> member_length = 6, member_index = [0, 1, 2, 3, 4, 5], class_index_attribute = None,
               class_index = IntArray [0, 1, 2],
               class_index_to_members =
                 Slices [Slice (Some 0) (Some 2) (Some 1), Slice (Some 2) (Some 3) (Some 1),
                         Slice (Some 3) (Some 6) (Some 1)] \<rparr> (SInt 2) (MSlice (Slice (Some 3) (Some 6) (Some 1))) =
     Inr \<lparr> member_length = 6, member_index = [3, 4, 5], class_index_attribute = None,
               class_index = IntScalar 2,
               class_index_to_members = Slices [] \<rparr>"
  by code_simp

lemma getitem_success_members:
  assumes "getitem (Entity ms (Some st)) sel = Inr copy" and "query_index st sel = Inr m"
  shows "getitem_members ms m = Inr (members copy)"
  using assms by (auto split: sum.splits)

lemma getitem_member_unit_slice_total:
  assumes "0 \<le> a" "0 \<le> b"
    and "case v of Nested ent \<Rightarrow> False | Unsupported \<Rightarrow> False | _ \<Rightarrow> True"
  shows "\<exists>v'. getitem_member v (MSlice (Slice (Some a) (Some b) (Some 1))) = Inr v'"
  using assms by (cases v) (simp_all add: getitem_slice_unit_step)

lemma rows_3_to_5:
  assumes "length xs = 6"
  shows "drop 3 xs = [xs ! 3, xs ! 4, xs ! 5]"
proof -
  from assms obtain x0 x1 x2 x3 x4 x5 where "xs = [x0, x1, x2, x3, x4, x5]"
    by (auto simp: eval_nat_numeral length_Suc_conv)
  then show ?thesis by simp
qed

text \<open>
  C3. For three distinct keys \<open>a\<close>, \<open>b\<close>, \<open>c\<close> and an entity whose sliceable members all have
  length 6, \<open>set_index\<close> on the key array \<open>a, a, b, c, c, c\<close> succeeds and groups rows 0 and 1
  under the first key, row 2 under the second and rows 3 to 5 under the third; the length
  of the entity is 3; the selection 2 resolves to the member rows 3 to 5, and the copy
  returned by \<open>entity[2]\<close> holds exactly these rows of every array, masked array and time
  array. The read succeeds whenever no attribute is of an unsupported kind.
\<close>

theorem grouping_round_trip:
  assumes "a \<noteq> b" "a \<noteq> c" "b \<noteq> c" and "member_lengths e = [6]"
  shows "\<exists>st. set_index e (ByArray [a, a, b, c, c, c]) = Inr (Entity (members e) (Some st)) \<and>
     map_to_integers [a, a, b, c, c, c] = [0, 0, 1, 2, 2, 2] \<and>
     class_index st = IntArray [0, 1, 2] \<and>
     class_index_to_members st =
       Slices [Slice (Some 0) (Some 2) (Some 1), Slice (Some 2) (Some 3) (Some 1),
               Slice (Some 3) (Some 6) (Some 1)] \<and>
     len st = Inr 3 \<and>
     query_index st (SInt 2) = Inr (MSlice (Slice (Some 3) (Some 6) (Some 1))) \<and>
     (\<forall>copy. getitem (Entity (members e) (Some st)) (SInt 2) = Inr copy \<longrightarrow>
        list_all2 (\<lambda>(k, v) (k', v'). k' = k \<and>
            (case v of
               Arr xs \<Rightarrow> v' = Arr [xs ! 3, xs ! 4, xs ! 5]
             | Masked xs mk \<Rightarrow> v' = Masked [xs ! 3, xs ! 4, xs ! 5] (drop 3 (take 6 mk))
             | TimeF xs scale fmt \<Rightarrow> v' = TimeF [xs ! 3, xs ! 4, xs ! 5] scale fmt
             | Opaque x \<Rightarrow> v' = Opaque x
             | _ \<Rightarrow> True))
          (members e) (members copy)) \<and>
     (list_all (\<lambda>(k, v). case v of Nested ent \<Rightarrow> False | Unsupported \<Rightarrow> False | _ \<Rightarrow> True) (members e) \<longrightarrow>
        (\<exists>copy. getitem (Entity (members e) (Some st)) (SInt 2) = Inr copy))"
proof -
  let ?st = "\<lparr> member_length = 6, member_index = [0, 1, 2, 3, 4, 5], class_index_attribute = None,
               class_index = IntArray [0, 1, 2],
               class_index_to_members =
                 Slices [Slice (Some 0) (Some 2) (Some 1), Slice (Some 2) (Some 3) (Some 1),
                         Slice (Some 3) (Some 6) (Some 1)] \<rparr>"
  let ?m = "MSlice (Slice (Some 3) (Some 6) (Some 1))"
  have built: "set_index e (ByArray [a, a, b, c, c, c]) = Inr (Entity (members e) (Some ?st))"
    by (rule set_index_aabccc[OF assms])
  have member: "getitem_member v ?m = Inr v' \<Longrightarrow>
           (case v of
               Arr xs \<Rightarrow> v' = Arr [xs ! 3, xs ! 4, xs ! 5]
             | Masked xs mk \<Rightarrow> v' = Masked [xs ! 3, xs ! 4, xs ! 5] (drop 3 (take 6 mk))
             | TimeF xs scale fmt \<Rightarrow> v' = TimeF [xs ! 3, xs ! 4, xs ! 5] scale fmt
             | Opaque x \<Rightarrow> v' = Opaque x
             | _ \<Rightarrow> True)" if "(k, v) \<in> set (members e)" for k v v'
  proof -
    have "sliceable_length v = [] \<or> sliceable_length v = [6]"
      using member_lengths_single[OF assms(4) that] .
    then show "getitem_member v ?m = Inr v' \<Longrightarrow> ?thesis"
      by (cases v) (auto simp: getitem_slice_unit_step rows_3_to_5)
  qed
  have rows: "list_all2 (\<lambda>(k, v) (k', v'). k' = k \<and>
            (case v of
               Arr xs \<Rightarrow> v' = Arr [xs ! 3, xs ! 4, xs ! 5]
             | Masked xs mk \<Rightarrow> v' = Masked [xs ! 3, xs ! 4, xs ! 5] (drop 3 (take 6 mk))
             | TimeF xs scale fmt \<Rightarrow> v' = TimeF [xs ! 3, xs ! 4, xs ! 5] scale fmt
             | Opaque x \<Rightarrow> v' = Opaque x
             | _ \<Rightarrow> True))
          (members e) (members copy)"
    if "getitem (Entity (members e) (Some ?st)) (SInt 2) = Inr copy" for copy
  proof -
    define ms' where "ms' = members copy"
    have ms': "getitem_members (members e) ?m = Inr ms'"
      unfolding ms'_def by (rule getitem_success_members[OF that query_third_group])
    have "list_all2 (\<lambda>(k, v) (k', v'). k' = k \<and> getitem_member v ?m = Inr v') (members e) ms'"
      by (rule getitem_members_success[OF ms'])
    then have "list_all2 (\<lambda>(k, v) (k', v'). k' = k \<and>
            (case v of
               Arr xs \<Rightarrow> v' = Arr [xs ! 3, xs ! 4, xs ! 5]
             | Masked xs mk \<Rightarrow> v' = Masked [xs ! 3, xs ! 4, xs ! 5] (drop 3 (take 6 mk))
             | TimeF xs scale fmt \<Rightarrow> v' = TimeF [xs ! 3, xs ! 4, xs ! 5] scale fmt
             | Opaque x \<Rightarrow> v' = Opaque x
             | _ \<Rightarrow> True)) (members e) ms'"
      by (rule list.rel_mono_strong) (use member in auto)
    then show ?thesis by (simp add: ms'_def)
  qed
  have total: "\<exists>copy. getitem (Entity (members e) (Some ?st)) (SInt 2) = Inr copy"
    if simple: "list_all (\<lambda>(k, v). case v of Nested ent \<Rightarrow> False | Unsupported \<Rightarrow> False | _ \<Rightarrow> True) (members e)"
  proof -
    have "list_all (\<lambda>(k, v). \<exists>v'. getitem_member v ?m = Inr v') (members e)"
      using simple by (rule list.pred_mono_strong) (auto intro: getitem_member_unit_slice_total)
    then obtain ms' where "getitem_members (members e) ?m = Inr ms'"
      using getitem_members_total by blast
    then show ?thesis
      by (simp only: getitem.simps query_third_group getitem_index_third_group sum.case) simp
  qed
  show ?thesis
    apply (rule exI[of _ ?st])
    using built rows total codes_aabccc[OF assms(1-3)] query_third_group
    by simp
qed

theorem grouping_round_trip_witness:
  "member_lengths (Entity [(''x'', Arr [''r0'', ''r1'', ''r2'', ''r3'', ''r4'', ''r5''])] None) = [6] \<and>
   (\<exists>st. set_index (Entity [(''x'', Arr [''r0'', ''r1'', ''r2'', ''r3'', ''r4'', ''r5''])] None)
            (ByArray [''a'', ''a'', ''b'', ''c'', ''c'', ''c'']) =
          Inr (Entity [(''x'', Arr [''r0'', ''r1'', ''r2'', ''r3'', ''r4'', ''r5''])] (Some st)) \<and>
        len st = Inr 3 \<and>
        (\<exists>copy. getitem (Entity [(''x'', Arr [''r0'', ''r1'', ''r2'', ''r3'', ''r4'', ''r5''])] (Some st)) (SInt 2) = Inr copy \<and>
           members copy = [(''x'', Arr [''r3'', ''r4'', ''r5''])]))"
proof -
  let ?e = "Entity [(''x'', Arr [''r0'', ''r1'', ''r2'', ''r3'', ''r4'', ''r5''])] None"
  have h: "''a'' \<noteq> ''b''" "''a'' \<noteq> ''c''" "''b'' \<noteq> ''c''" "member_lengths ?e = [6]"
    by (simp_all add: member_lengths_def)
  from grouping_round_trip[OF h] obtain st where
    st: "set_index ?e (ByArray [''a'', ''a'', ''b'', ''c'', ''c'', ''c'']) = Inr (Entity (members ?e) (Some st))"
      "len st = Inr 3"
      "\<forall>copy. getitem (Entity (members ?e) (Some st)) (SInt 2) = Inr copy \<longrightarrow>
        list_all2 (\<lambda>(k, v) (k', v'). k' = k \<and>
            (case v of
               Arr xs \<Rightarrow> v' = Arr [xs ! 3, xs ! 4, xs ! 5]
             | Masked xs mk \<Rightarrow> v' = Masked [xs ! 3, xs ! 4, xs ! 5] (drop 3 (take 6 mk))
             | TimeF xs scale fmt \<Rightarrow> v' = TimeF [xs ! 3, xs ! 4, xs ! 5] scale fmt
             | Opaque x \<Rightarrow> v' = Opaque x
             | _ \<Rightarrow> True))
          (members ?e) (members copy)"
      "list_all (\<lambda>(k, v). case v of Nested ent \<Rightarrow> False | Unsupported \<Rightarrow> False | _ \<Rightarrow> True) (members ?e) \<longrightarrow>
        (\<exists>copy. getitem (Entity (members ?e) (Some st)) (SInt 2) = Inr copy)"
    by blast
  from st(4) obtain copy where copy: "getitem (Entity (members ?e) (Some st)) (SInt 2) = Inr copy"
    by auto
  with st(3) have "members copy = [(''x'', Arr [''r3'', ''r4'', ''r5''])]"
    by (auto simp: list_all2_Cons1)
  with st(1,2) copy h(4) show ?thesis by auto
qed

section \<open>Non-contiguous keys\<close>

lemma codes_aba:
  assumes "a \<noteq> b"
  shows "map_to_integers [a, b, a] = [0, 1, 0]"
  using assms by (simp add: map_to_integers_def pd_unique_def)

lemma slices_010:
  "convert_grouped_array_to_slices [0, 1, 0 :: int] = Inl (ValueError ''The values must be grouped.'')"
  by code_simp

lemma unique_010: "pd_unique [0, 1, 0 :: int] = [0, 1]"
  by code_simp

lemma set_index_aba:
  assumes "a \<noteq> b" and "member_lengths e = [3]"
  shows "set_index e (ByArray [a, b, a]) =
     Inr (Entity (members e)
       (Some \<lparr> member_length = 3, member_index = [0, 1, 2], class_index_attribute = None,
               class_index = IntArray [0, 1],
               class_index_to_members = Raw [0, 1, 0] \<rparr>))"
  unfolding set_index_def check_member_validity_single[OF assms(2)]
  by (simp add: codes_aba[OF assms(1)] slices_010 unique_010 upt_3)

lemma query_first_group_raw:
  "query_index \<lparr> member_length = 3, member_index = [0, 1, 2], class_index_attribute = None,
               class_index = IntArray [0, 1],
               class_index_to_members = Raw [0, 1, 0] \<rparr> (SInt 0) = Inr (MArray [0, 2])"
  by code_simp

lemma getitem_index_first_group_raw:
  "getitem_index \<lparr> member_length = 3, member_index = [0, 1, 2], class_index_attribute = None,
               class_index = IntArray [0, 1],
               class_index_to_members = Raw [0, 1, 0] \<rparr> (SInt 0) (MArray [0, 2]) =
     Inr \<lparr> member_length = 3, member_index = [0, 2], class_index_attribute = None,
               class_index = IntScalar 0,
               class_index_to_members = Raw [0, 0] \<rparr>"
  by code_simp

lemma getitem_array_0_2:
  "getitem_array xs [0, 2] = (if 3 \<le> length xs then Inr [xs ! 0, xs ! 2] else Inl IndexError)"
  by (auto simp: getitem_array_def norm_index_def)

text \<open>
  C4. For two distinct keys \<open>a\<close>, \<open>b\<close> and an entity whose sliceable members all have length 3,
  \<open>set_index\<close> on the key array \<open>a, b, a\<close> keeps the per-row mapping (raw form, not slices);
  the selection 0 resolves to the member positions 0 and 2, and the copy returned by
  \<open>entity[0]\<close> holds rows 0 and 2, in this order, of every array, masked array and time
  array. The read succeeds whenever no attribute is of an unsupported kind.
\<close>

theorem non_contiguous_fallback:
  assumes "a \<noteq> b" and "member_lengths e = [3]"
  shows "\<exists>st. set_index e (ByArray [a, b, a]) = Inr (Entity (members e) (Some st)) \<and>
     class_index st = IntArray [0, 1] \<and>
     class_index_to_members st = Raw [0, 1, 0] \<and>
     \<not> is_slice (class_index_to_members st) \<and>
     query_index st (SInt 0) = Inr (MArray [0, 2]) \<and>
     (\<forall>copy. getitem (Entity (members e) (Some st)) (SInt 0) = Inr copy \<longrightarrow>
        list_all2 (\<lambda>(k, v) (k', v'). k' = k \<and>
            (case v of
               Arr xs \<Rightarrow> v' = Arr [xs ! 0, xs ! 2]
             | Masked xs mk \<Rightarrow> v' = Masked [xs ! 0, xs ! 2] [mk ! 0, mk ! 2]
             | TimeF xs scale fmt \<Rightarrow> v' = TimeF [xs ! 0, xs ! 2] scale fmt
             | Opaque x \<Rightarrow> v' = Opaque x
             | _ \<Rightarrow> True))
          (members e) (members copy)) \<and>
     (list_all (\<lambda>(k, v). case v of Nested ent \<Rightarrow> False | Unsupported \<Rightarrow> False
                          | Masked xs mk \<Rightarrow> length mk = length xs | _ \<Rightarrow> True) (members e) \<longrightarrow>
        (\<exists>copy. getitem (Entity (members e) (Some st)) (SInt 0) = Inr copy))"
proof -
  let ?st = "\<lparr> member_length = 3, member_index = [0, 1, 2], class_index_attribute = None,
               class_index = IntArray [0, 1],
               class_index_to_members = Raw [0, 1, 0] \<rparr>"
  let ?m = "MArray [0, 2]"
  have built: "set_index e (ByArray [a, b, a]) = Inr (Entity (members e) (Some ?st))"
    by (rule set_index_aba[OF assms])
  have member: "getitem_member v ?m = Inr v' \<Longrightarrow>
           (case v of
               Arr xs \<Rightarrow> v' = Arr [xs ! 0, xs ! 2]
             | Masked xs mk \<Rightarrow> v' = Masked [xs ! 0, xs ! 2] [mk ! 0, mk ! 2]
             | TimeF xs scale fmt \<Rightarrow> v' = TimeF [xs ! 0, xs ! 2] scale fmt
             | Opaque x \<Rightarrow> v' = Opaque x
             | _ \<Rightarrow> True)" for v v'
    by (cases v) (auto simp: getitem_array_0_2 split: if_splits)
  have rows: "list_all2 (\<lambda>(k, v) (k', v'). k' = k \<and>
            (case v of
               Arr xs \<Rightarrow> v' = Arr [xs ! 0, xs ! 2]
             | Masked xs mk \<Rightarrow> v' = Masked [xs ! 0, xs ! 2] [mk ! 0, mk ! 2]
             | TimeF xs scale fmt \<Rightarrow> v' = TimeF [xs ! 0, xs ! 2] scale fmt
             | Opaque x \<Rightarrow> v' = Opaque x
             | _ \<Rightarrow> True))
          (members e) (members copy)"
    if "getitem (Entity (members e) (Some ?st)) (SInt 0) = Inr copy" for copy
  proof -
    define ms' where "ms' = members copy"
    have ms': "getitem_members (members e) ?m = Inr ms'"
      unfolding ms'_def by (rule getitem_success_members[OF that query_first_group_raw])
    have "list_all2 (\<lambda>(k, v) (k', v'). k' = k \<and> getitem_member v ?m = Inr v') (members e) ms'"
      by (rule getitem_members_success[OF ms'])
    then have "list_all2 (\<lambda>(k, v) (k', v'). k' = k \<and>
            (case v of
               Arr xs \<Rightarrow> v' = Arr [xs ! 0, xs ! 2]
             | Masked xs mk \<Rightarrow> v' = Masked [xs ! 0, xs ! 2] [mk ! 0, mk ! 2]
             | TimeF xs scale fmt \<Rightarrow> v' = TimeF [xs ! 0, xs ! 2] scale fmt
             | Opaque x \<Rightarrow> v' = Opaque x
             | _ \<Rightarrow> True)) (members e) ms'"
      by (rule list.rel_mono_strong) (use member in auto)
    then show ?thesis by (simp add: ms'_def)
  qed
  have total: "\<exists>copy. getitem (Entity (members e) (Some ?st)) (SInt 0) = Inr copy"
    if simple: "list_all (\<lambda>(k, v). case v of Nested ent \<Rightarrow> False | Unsupported \<Rightarrow> False
                          | Masked xs mk \<Rightarrow> length mk = length xs | _ \<Rightarrow> True) (members e)"
  proof -
    have one: "\<exists>v'. getitem_member v ?m = Inr v'"
      if "(k, v) \<in> set (members e)"
        and "case v of Nested ent \<Rightarrow> False | Unsupported \<Rightarrow> False
                          | Masked xs mk \<Rightarrow> length mk = length xs | _ \<Rightarrow> True" for k v
    proof -
      have "sliceable_length v = [] \<or> sliceable_length v = [3]"
        using member_lengths_single[OF assms(2) that(1)] .
      then show ?thesis using that(2) by (cases v) (auto simp: getitem_array_0_2)
    qed
    have "list_all (\<lambda>(k, v). \<exists>v'. getitem_member v ?m = Inr v') (members e)"
      using simple by (rule list.pred_mono_strong) (use one in auto)
    then obtain ms' where "getitem_members (members e) ?m = Inr ms'"
      using getitem_members_total by blast
    then show ?thesis
      by (simp only: getitem.simps query_first_group_raw getitem_index_first_group_raw sum.case) simp
  qed
  show ?thesis
    apply (rule exI[of _ ?st])
    using built rows total query_first_group_raw
    by simp
qed

theorem non_contiguous_fallback_witness:
  "member_lengths (Entity [(''x'', Arr [''r0'', ''r1'', ''r2'']), (''m'', Masked [''m0'', ''m1'', ''m2''] [False, True, True])] None) = [3] \<and>
   (\<exists>st. set_index (Entity [(''x'', Arr [''r0'', ''r1'', ''r2'']), (''m'', Masked [''m0'', ''m1'', ''m2''] [False, True, True])] None)
            (ByArray [''a'', ''b'', ''a'']) =
          Inr (Entity [(''x'', Arr [''r0'', ''r1'', ''r2'']), (''m'', Masked [''m0'', ''m1'', ''m2''] [False, True, True])] (Some st)) \<and>
        class_index_to_members st = Raw [0, 1, 0] \<and>
        (\<exists>copy. getitem (Entity [(''x'', Arr [''r0'', ''r1'', ''r2'']), (''m'', Masked [''m0'', ''m1'', ''m2''] [False, True, True])] (Some st)) (SInt 0) = Inr copy \<and>
           members copy = [(''x'', Arr [''r0'', ''r2'']), (''m'', Masked [''m0'', ''m2''] [False, True])]))"
proof -
  let ?e = "Entity [(''x'', Arr [''r0'', ''r1'', ''r2'']), (''m'', Masked [''m0'', ''m1'', ''m2''] [False, True, True])] None"
  have h: "''a'' \<noteq> ''b''" "member_lengths ?e = [3]"
    by (simp_all add: member_lengths_def)
  from non_contiguous_fallback[OF h] obtain st where
    st: "set_index ?e (ByArray [''a'', ''b'', ''a'']) = Inr (Entity (members ?e) (Some st))"
      "class_index_to_members st = Raw [0, 1, 0]"
      "\<forall>copy. getitem (Entity (members ?e) (Some st)) (SInt 0) = Inr copy \<longrightarrow>
        list_all2 (\<lambda>(k, v) (k', v'). k' = k \<and>
            (case v of
               Arr xs \<Rightarrow> v' = Arr [xs ! 0, xs ! 2]
             | Masked xs mk \<Rightarrow> v' = Masked [xs ! 0, xs ! 2] [mk ! 0, mk ! 2]
             | TimeF xs scale fmt \<Rightarrow> v' = TimeF [xs ! 0, xs ! 2] scale fmt
             | Opaque x \<Rightarrow> v' = Opaque x
             | _ \<Rightarrow> True))
          (members ?e) (members copy)"
      "list_all (\<lambda>(k, v). case v of Nested ent \<Rightarrow> False | Unsupported \<Rightarrow> False
                          | Masked xs mk \<Rightarrow> length mk = length xs | _ \<Rightarrow> True) (members ?e) \<longrightarrow>
        (\<exists>copy. getitem (Entity (members ?e) (Some st)) (SInt 0) = Inr copy)"
    by blast
  from st(4) obtain copy where copy: "getitem (Entity (members ?e) (Some st)) (SInt 0) = Inr copy"
    by auto
  with st(3) have "members copy = [(''x'', Arr [''r0'', ''r2'']), (''m'', Masked [''m0'', ''m2''] [False, True])]"
    by (auto simp: list_all2_Cons1)
  with st(1,2) copy h(2) show ?thesis by auto
qed

section \<open>Slice fusion\<close>

lemma unique_from_replicate:
  "0 < c \<Longrightarrow> unique_from seen (replicate c k @ rest) =
     unique_from (if k \<in> set seen then seen else seen @ [k]) rest"
proof (induction c arbitrary: seen)
  case 0
  then show ?case by simp
next
  case (Suc c)
  show ?case
  proof (cases "c = 0")
    case True
    then show ?thesis by simp
  next
    case False
    then have "0 < c" by simp
    from Suc.IH[OF this] show ?thesis by simp
  qed
qed

lemma unique_from_groups:
  assumes "0 < c"
  shows "distinct ks \<Longrightarrow> set ks \<inter> set seen = {} \<Longrightarrow>
     unique_from seen (concat (map (replicate c) ks)) = seen @ ks"
proof (induction ks arbitrary: seen)
  case Nil
  then show ?case by simp
next
  case (Cons k ks)
  have "unique_from seen (replicate c k @ concat (map (replicate c) ks)) =
        unique_from (seen @ [k]) (concat (map (replicate c) ks))"
    using Cons.prems by (simp add: unique_from_replicate[OF assms])
  also have "\<dots> = (seen @ [k]) @ ks"
    using Cons.prems by (intro Cons.IH) auto
  finally show ?case by simp
qed

lemma index_of_nth: "distinct ks \<Longrightarrow> i < length ks \<Longrightarrow> index_of ks (ks ! i) = i"
proof (induction ks arbitrary: i)
  case Nil
  then show ?case by simp
next
  case (Cons k ks)
  then show ?case by (cases i) auto
qed

lemma map_to_integers_groups:
  assumes "0 < c" and "distinct ks"
  shows "map_to_integers (concat (map (replicate c) ks)) =
           concat (map (\<lambda>i. replicate c (int i)) [0..<length ks])"
proof -
  have u: "pd_unique (concat (map (replicate c) ks)) = ks"
    using unique_from_groups[OF assms(1), of ks "[]"] assms(2) by (simp add: pd_unique_def)
  have "map (\<lambda>k. replicate c (int (index_of ks k))) ks =
        map (\<lambda>k. replicate c (int (index_of ks k))) (map (\<lambda>i. ks ! i) [0..<length ks])"
    by (simp add: map_nth)
  also have "\<dots> = map (\<lambda>i. replicate c (int i)) [0..<length ks]"
    using assms(2) by (simp add: index_of_nth)
  finally show ?thesis
    by (simp add: map_to_integers_def u map_concat comp_def)
qed

lemma codes_ten_groups:
  "concat (map (\<lambda>i. replicate 10 (int i)) [0..<10]) =
     [0,0,0,0,0,0,0,0,0,0, 1,1,1,1,1,1,1,1,1,1, 2,2,2,2,2,2,2,2,2,2, 3,3,3,3,3,3,3,3,3,3,
      4,4,4,4,4,4,4,4,4,4, 5,5,5,5,5,5,5,5,5,5, 6,6,6,6,6,6,6,6,6,6, 7,7,7,7,7,7,7,7,7,7,
      8,8,8,8,8,8,8,8,8,8, 9,9,9,9,9,9,9,9,9,9]"
  by code_simp

lemma slices_ten_groups:
  "convert_grouped_array_to_slices (concat (map (\<lambda>i. replicate 10 (int i)) [0..<10])) =
     Inr [Slice (Some 0) (Some 10) (Some 1), Slice (Some 10) (Some 20) (Some 1),
          Slice (Some 20) (Some 30) (Some 1), Slice (Some 30) (Some 40) (Some 1),
          Slice (Some 40) (Some 50) (Some 1), Slice (Some 50) (Some 60) (Some 1),
          Slice (Some 60) (Some 70) (Some 1), Slice (Some 70) (Some 80) (Some 1),
          Slice (Some 80) (Some 90) (Some 1), Slice (Some 90) (Some 100) (Some 1)]"
  by code_simp

lemma unique_ten_groups:
  "pd_unique (concat (map (\<lambda>i. replicate 10 (int i)) [0..<10])) = [0, 1, 2, 3, 4, 5, 6, 7, 8, 9]"
  by code_simp

lemma query_fused_ten_groups:
  "query_index \<lparr> member_length = 100, member_index = map int [0..<100], class_index_attribute = None,
        class_index = IntArray [0, 1, 2, 3, 4, 5, 6, 7, 8, 9],
        class_index_to_members =
          Slices [Slice (Some 0) (Some 10) (Some 1), Slice (Some 10) (Some 20) (Some 1),
          Slice (Some 20) (Some 30) (Some 1), Slice (Some 30) (Some 40) (Some 1),
          Slice (Some 40) (Some 50) (Some 1), Slice (Some 50) (Some 60) (Some 1),
          Slice (Some 60) (Some 70) (Some 1), Slice (Some 70) (Some 80) (Some 1),
          Slice (Some 80) (Some 90) (Some 1), Slice (Some 90) (Some 100) (Some 1)] \<rparr>
      (SSlice (Slice (Some 2) (Some 5) None)) = Inr (MSlice (Slice (Some 20) (Some 50) (Some 1)))"
  by code_simp

lemma gathered_ten_groups:
  "getitem_slice [Slice (Some 0) (Some 10) (Some 1), Slice (Some 10) (Some 20) (Some 1),
          Slice (Some 20) (Some 30) (Some 1), Slice (Some 30) (Some 40) (Some 1),
          Slice (Some 40) (Some 50) (Some 1), Slice (Some 50) (Some 60) (Some 1),
          Slice (Some 60) (Some 70) (Some 1), Slice (Some 70) (Some 80) (Some 1),
          Slice (Some 80) (Some 90) (Some 1), Slice (Some 90) (Some 100) (Some 1)]
      (Slice (Some 2) (Some 5) None) =
    Inr [Slice (Some 20) (Some 30) (Some 1), Slice (Some 30) (Some 40) (Some 1),
         Slice (Some 40) (Some 50) (Some 1)]"
  by code_simp

lemma drop_take_split:
  assumes "a \<le> b" "b \<le> c"
  shows "drop a (take c xs) = drop a (take b xs) @ drop b (take c xs)"
proof -
  have "take (c - a) (drop a xs) = take ((b - a) + (c - b)) (drop a xs)"
    using assms by simp
  also have "\<dots> = take (b - a) (drop a xs) @ take (c - b) (drop (b - a) (drop a xs))"
    by (rule take_add)
  also have "drop (b - a) (drop a xs) = drop b xs"
    using assms by simp
  finally show ?thesis by (simp add: drop_take)
qed

lemma fused_rows:
  "drop 20 (take 50 xs) = drop 20 (take 30 xs) @ drop 30 (take 40 xs) @ drop 40 (take 50 xs)"
  using drop_take_split[of 20 30 50 xs] drop_take_split[of 30 40 50 xs] by simp

text \<open>
  C5. For ten distinct keys, each on ten consecutive rows of an entity with 100 member
  rows, the index is in slice form with the ten slices \<open>[0, 10), ..., [90, 100)\<close>. The
  class-index range \<open>[2:5]\<close> gathers the three slices \<open>[20, 30)\<close>, \<open>[30, 40)\<close>, \<open>[40, 50)\<close>
  and resolves to the single slice \<open>[20, 50)\<close>, which selects from any array the rows of
  the three slices one after the other.
\<close>

theorem slice_fusion:
  assumes "distinct ks" and "length ks = 10" and "member_lengths e = [100]"
  shows "\<exists>st. set_index e (ByArray (concat (map (replicate 10) ks))) = Inr (Entity (members e) (Some st)) \<and>
     class_index_to_members st =
       Slices [Slice (Some 0) (Some 10) (Some 1), Slice (Some 10) (Some 20) (Some 1),
          Slice (Some 20) (Some 30) (Some 1), Slice (Some 30) (Some 40) (Some 1),
          Slice (Some 40) (Some 50) (Some 1), Slice (Some 50) (Some 60) (Some 1),
          Slice (Some 60) (Some 70) (Some 1), Slice (Some 70) (Some 80) (Some 1),
          Slice (Some 80) (Some 90) (Some 1), Slice (Some 90) (Some 100) (Some 1)] \<and>
     len st = Inr 10 \<and>
     query_index st (SSlice (Slice (Some 2) (Some 5) None)) = Inr (MSlice (Slice (Some 20) (Some 50) (Some 1))) \<and>
     (\<exists>sls. class_index_to_members st = Slices sls \<and>
        getitem_slice sls (Slice (Some 2) (Some 5) None) =
          Inr [Slice (Some 20) (Some 30) (Some 1), Slice (Some 30) (Some 40) (Some 1),
               Slice (Some 40) (Some 50) (Some 1)]) \<and>
     (\<forall>xs :: 'b list. \<exists>r1 r2 r3.
        getitem_slice xs (Slice (Some 20) (Some 30) (Some 1)) = Inr r1 \<and>
        getitem_slice xs (Slice (Some 30) (Some 40) (Some 1)) = Inr r2 \<and>
        getitem_slice xs (Slice (Some 40) (Some 50) (Some 1)) = Inr r3 \<and>
        apply_member_ind xs (MSlice (Slice (Some 20) (Some 50) (Some 1))) = Inr (r1 @ r2 @ r3))"
proof -
  let ?sls = "[Slice (Some 0) (Some 10) (Some 1), Slice (Some 10) (Some 20) (Some 1),
          Slice (Some 20) (Some 30) (Some 1), Slice (Some 30) (Some 40) (Some 1),
          Slice (Some 40) (Some 50) (Some 1), Slice (Some 50) (Some 60) (Some 1),
          Slice (Some 60) (Some 70) (Some 1), Slice (Some 70) (Some 80) (Some 1),
          Slice (Some 80) (Some 90) (Some 1), Slice (Some 90) (Some 100) (Some 1)]"
  let ?st = "\<lparr> member_length = 100, member_index = map int [0..<100], class_index_attribute = None,
        class_index = IntArray [0, 1, 2, 3, 4, 5, 6, 7, 8, 9],
        class_index_to_members = Slices ?sls \<rparr>"
  have codes: "map_to_integers (concat (map (replicate 10) ks)) =
                 concat (map (\<lambda>i. replicate 10 (int i)) [0..<10])"
    using map_to_integers_groups[of 10 ks] assms(1,2) by simp
  have built: "set_index e (ByArray (concat (map (replicate 10) ks))) = Inr (Entity (members e) (Some ?st))"
    unfolding set_index_def check_member_validity_single[OF assms(3)]
    by (simp add: codes slices_ten_groups unique_ten_groups)
  have rows: "\<exists>r1 r2 r3.
        getitem_slice xs (Slice (Some 20) (Some 30) (Some 1)) = Inr r1 \<and>
        getitem_slice xs (Slice (Some 30) (Some 40) (Some 1)) = Inr r2 \<and>
        getitem_slice xs (Slice (Some 40) (Some 50) (Some 1)) = Inr r3 \<and>
        apply_member_ind xs (MSlice (Slice (Some 20) (Some 50) (Some 1))) = Inr (r1 @ r2 @ r3)"
    for xs :: "'b list"
    using fused_rows[of xs] by (simp add: getitem_slice_unit_step)
  show ?thesis
    apply (rule exI[of _ ?st])
    using built rows query_fused_ten_groups gathered_ten_groups
    by simp
qed

theorem slice_fusion_witness:
  "member_lengths (Entity [(''x'', Arr (map (\<lambda>i. 1000 + i) [0..<100]))] None) = [100] \<and>
   (\<exists>st. set_index (Entity [(''x'', Arr (map (\<lambda>i. 1000 + i) [0..<100]))] None)
            (ByArray (concat (map (replicate 10) [0, 1, 2, 3, 4, 5, 6, 7, 8, 9 :: nat]))) =
            Inr (Entity [(''x'', Arr (map (\<lambda>i. 1000 + i) [0..<100]))] (Some st)) \<and>
          query_index st (SSlice (Slice (Some 2) (Some 5) None)) = Inr (MSlice (Slice (Some 20) (Some 50) (Some 1))))"
proof -
  let ?e = "Entity [(''x'', Arr (map (\<lambda>i. 1000 + i) [0..<100]))] None"
  have h: "distinct [0, 1, 2, 3, 4, 5, 6, 7, 8, 9 :: nat]" "length [0, 1, 2, 3, 4, 5, 6, 7, 8, 9 :: nat] = 10"
    "member_lengths ?e = [100]"
    by (simp_all add: member_lengths_def)
  from slice_fusion[OF h] obtain st where
    "set_index ?e (ByArray (concat (map (replicate 10) [0, 1, 2, 3, 4, 5, 6, 7, 8, 9 :: nat]))) =
       Inr (Entity (members ?e) (Some st))"
    "query_index st (SSlice (Slice (Some 2) (Some 5) None)) = Inr (MSlice (Slice (Some 20) (Some 50) (Some 1)))"
    by blast
  with h(3) show ?thesis by auto
qed

section \<open>The index of a copy\<close>

text \<open>
  C2. Reading a selection leaves the source as it is (\<open>getitem\<close> returns a new entity), but
  the index of the copy is not rebuilt: its member index and its mapping are the source's
  arrays indexed by the member positions, and its member length is the source's. For a
  default-indexed entity of five rows and the selection \<open>[1:3]\<close> the copy keeps member
  length 5, member index \<open>1, 2\<close> and the slices \<open>[1, 2)\<close>, \<open>[2, 3)\<close>, where \<open>set_index\<close> on the
  copy gives 2, \<open>0, 1\<close> and \<open>[0, 1)\<close>, \<open>[1, 2)\<close>; reading position 0 of the copy returns its
  second row.
\<close>

theorem copy_index_not_rebuilt:
  "init [(''x'', Arr [''r0'', ''r1'', ''r2'', ''r3'', ''r4''])] NoValues =
     Inr (Entity [(''x'', Arr [''r0'', ''r1'', ''r2'', ''r3'', ''r4''])]
       (Some \<lparr> member_length = 5, member_index = [0, 1, 2, 3, 4], class_index_attribute = None,
               class_index = IntArray [0, 1, 2, 3, 4],
               class_index_to_members =
                 Slices [Slice (Some 0) (Some 1) (Some 1), Slice (Some 1) (Some 2) (Some 1),
                         Slice (Some 2) (Some 3) (Some 1), Slice (Some 3) (Some 4) (Some 1),
                         Slice (Some 4) (Some 5) (Some 1)] \<rparr>)) \<and>
   getitem (Entity [(''x'', Arr [''r0'', ''r1'', ''r2'', ''r3'', ''r4''])]
       (Some \<lparr> member_length = 5, member_index = [0, 1, 2, 3, 4], class_index_attribute = None,
               class_index = IntArray [0, 1, 2, 3, 4],
               class_index_to_members =
                 Slices [Slice (Some 0) (Some 1) (Some 1), Slice (Some 1) (Some 2) (Some 1),
                         Slice (Some 2) (Some 3) (Some 1), Slice (Some 3) (Some 4) (Some 1),
                         Slice (Some 4) (Some 5) (Some 1)] \<rparr>))
     (SSlice (Slice (Some 1) (Some 3) None)) =
     Inr (Entity [(''x'', Arr [''r1'', ''r2''])]
       (Some \<lparr> member_length = 5, member_index = [1, 2], class_index_attribute = None,
               class_index = IntArray [1, 2],
               class_index_to_members =
                 Slices [Slice (Some 1) (Some 2) (Some 1), Slice (Some 2) (Some 3) (Some 1)] \<rparr>)) \<and>
   set_index (Entity [(''x'', Arr [''r1'', ''r2''])]
       (Some \<lparr> member_length = 5, member_index = [1, 2], class_index_attribute = None,
               class_index = IntArray [1, 2],
               class_index_to_members =
                 Slices [Slice (Some 1) (Some 2) (Some 1), Slice (Some 2) (Some 3) (Some 1)] \<rparr>)) NoValues =
     Inr (Entity [(''x'', Arr [''r1'', ''r2''])]
       (Some \<lparr> member_length = 2, member_index = [0, 1], class_index_attribute = None,
               class_index = IntArray [0, 1],
               class_index_to_members =
                 Slices [Slice (Some 0) (Some 1) (Some 1), Slice (Some 1) (Some 2) (Some 1)] \<rparr>)) \<and>
   (case getitem (Entity [(''x'', Arr [''r1'', ''r2''])]
       (Some \<lparr> member_length = 5, member_index = [1, 2], class_index_attribute = None,
               class_index = IntArray [1, 2],
               class_index_to_members =
                 Slices [Slice (Some 1) (Some 2) (Some 1), Slice (Some 2) (Some 3) (Some 1)] \<rparr>)) (SInt 0) of
      Inr copy \<Rightarrow> members copy = [(''x'', Arr [''r2''])]
    | Inl err \<Rightarrow> False)"
  by code_simp

section \<open>Deleting from a grouped index\<close>

text \<open>
  C7. For an entity of six rows indexed on an attribute with the keys \<open>a, a, b, b, c, c\<close>,
  deleting class position 2 reduces the members to four rows, the class index to two
  entries and leaves the three slices of the mapping; the final \<open>set_index\<close> then finds the
  lengths 4, 2 and 3 among the arrays of the instance dictionary and raises the
  \<open>ValueError\<close> of the cardinality check.
\<close>

theorem delete_from_grouped_index_fails:
  "init [(''orbit_id'', Arr [''a'', ''a'', ''b'', ''b'', ''c'', ''c'']),
         (''x'', Arr [''r0'', ''r1'', ''r2'', ''r3'', ''r4'', ''r5''])] (ByName ''orbit_id'') =
     Inr (Entity [(''orbit_id'', Arr [''a'', ''a'', ''b'', ''b'', ''c'', ''c'']),
                  (''x'', Arr [''r0'', ''r1'', ''r2'', ''r3'', ''r4'', ''r5''])]
       (Some \<lparr> member_length = 6, member_index = [0, 1, 2, 3, 4, 5],
               class_index_attribute = Some ''orbit_id'',
               class_index = IntArray [0, 1, 2],
               class_index_to_members =
                 Slices [Slice (Some 0) (Some 2) (Some 1), Slice (Some 2) (Some 4) (Some 1),
                         Slice (Some 4) (Some 6) (Some 1)] \<rparr>)) \<and>
   query_index \<lparr> member_length = 6, member_index = [0, 1, 2, 3, 4, 5],
               class_index_attribute = Some ''orbit_id'',
               class_index = IntArray [0, 1, 2],
               class_index_to_members =
                 Slices [Slice (Some 0) (Some 2) (Some 1), Slice (Some 2) (Some 4) (Some 1),
                         Slice (Some 4) (Some 6) (Some 1)] \<rparr> (SInt 2) =
     Inr (MSlice (Slice (Some 4) (Some 6) (Some 1))) \<and>
   delitem_members [(''orbit_id'', Arr [''a'', ''a'', ''b'', ''b'', ''c'', ''c'']),
                    (''x'', Arr [''r0'', ''r1'', ''r2'', ''r3'', ''r4'', ''r5''])]
       (MSlice (Slice (Some 4) (Some 6) (Some 1))) =
     Inr [(''orbit_id'', Arr [''a'', ''a'', ''b'', ''b'']), (''x'', Arr [''r0'', ''r1'', ''r2'', ''r3''])] \<and>
   delitem_index \<lparr> member_length = 6, member_index = [0, 1, 2, 3, 4, 5],
               class_index_attribute = Some ''orbit_id'',
               class_index = IntArray [0, 1, 2],
               class_index_to_members =
                 Slices [Slice (Some 0) (Some 2) (Some 1), Slice (Some 2) (Some 4) (Some 1),
                         Slice (Some 4) (Some 6) (Some 1)] \<rparr> (SInt 2)
       (MSlice (Slice (Some 4) (Some 6) (Some 1))) =
     Inr \<lparr> member_length = 6, member_index = [0, 1, 2, 3],
               class_index_attribute = Some ''orbit_id'',
               class_index = IntArray [0, 1],
               class_index_to_members =
                 Slices [Slice (Some 0) (Some 2) (Some 1), Slice (Some 2) (Some 4) (Some 1),
                         Slice (Some 4) (Some 6) (Some 1)] \<rparr> \<and>
   member_lengths (Entity [(''orbit_id'', Arr [''a'', ''a'', ''b'', ''b'']),
                  (''x'', Arr [''r0'', ''r1'', ''r2'', ''r3''])]
       (Some \<lparr> member_length = 6, member_index = [0, 1, 2, 3],
               class_index_attribute = Some ''orbit_id'',
               class_index = IntArray [0, 1],
               class_index_to_members =
                 Slices [Slice (Some 0) (Some 2) (Some 1), Slice (Some 2) (Some 4) (Some 1),
                         Slice (Some 4) (Some 6) (Some 1)] \<rparr>)) = [4, 2, 3] \<and>
   delitem (Entity [(''orbit_id'', Arr [''a'', ''a'', ''b'', ''b'', ''c'', ''c'']),
                  (''x'', Arr [''r0'', ''r1'', ''r2'', ''r3'', ''r4'', ''r5''])]
       (Some \<lparr> member_length = 6, member_index = [0, 1, 2, 3, 4, 5],
               class_index_attribute = Some ''orbit_id'',
               class_index = IntArray [0, 1, 2],
               class_index_to_members =
                 Slices [Slice (Some 0) (Some 2) (Some 1), Slice (Some 2) (Some 4) (Some 1),
                         Slice (Some 4) (Some 6) (Some 1)] \<rparr>)) (SInt 2) =
     Inl (ValueError ''All sliceable members must have the same length.'')"
  by code_simp

section \<open>Building the default index\<close>

lemma unique_from_distinct:
  "distinct (seen @ xs) \<Longrightarrow> unique_from seen xs = seen @ xs"
  by (induction xs arbitrary: seen) auto

lemma pd_unique_distinct: "distinct xs \<Longrightarrow> pd_unique xs = xs"
  using unique_from_distinct[of "[]" xs] by (simp add: pd_unique_def)

lemma map_to_integers_distinct:
  assumes "distinct vs"
  shows "map_to_integers vs = map int [0..<length vs]"
proof -
  have "map (\<lambda>v. int (index_of vs v)) vs = map (\<lambda>v. int (index_of vs v)) (map (\<lambda>i. vs ! i) [0..<length vs])"
    by (simp add: map_nth)
  also have "\<dots> = map int [0..<length vs]"
    using assms by (simp add: index_of_nth)
  finally show ?thesis
    by (simp add: map_to_integers_def pd_unique_distinct[OF assms])
qed

lemma filter_position: "i < n \<Longrightarrow> filter (\<lambda>p. p = i) [0..<n] = [i]"
proof (induction n)
  case 0
  then show ?case by simp
next
  case (Suc n)
  show ?case
  proof (cases "i = n")
    case True
    then show ?thesis by (simp add: filter_empty_conv)
  next
    case False
    with Suc show ?thesis by simp
  qed
qed

lemma np_where_eq_distinct:
  assumes "distinct vs" and "i < length vs"
  shows "np_where_eq vs (vs ! i) = [i]"
proof -
  have "filter (\<lambda>p. vs ! p = vs ! i) [0..<length vs] = filter (\<lambda>p. p = i) [0..<length vs]"
    using assms by (intro filter_cong) (auto simp: nth_eq_iff_index_eq)
  also have "\<dots> = [i]"
    using assms(2) by (rule filter_position)
  finally show ?thesis by (simp add: np_where_eq_def)
qed

lemma grouped_slices_distinct:
  assumes "distinct vs"
  shows "j \<le> length vs \<Longrightarrow>
     grouped_slices vs (drop j vs) j acc =
       Inr (acc @ map (\<lambda>i. Slice (Some (int i)) (Some (int i + 1)) (Some 1)) [j..<length vs])"
proof (induction "length vs - j" arbitrary: j acc)
  case 0
  then show ?case by simp
next
  case (Suc d)
  then have j: "j < length vs" by simp
  have step: "drop j vs = vs ! j # drop (Suc j) vs"
    using j by (simp add: Cons_nth_drop_Suc)
  have ih: "grouped_slices vs (drop (Suc j) vs) (Suc j) (acc @ [Slice (Some (int j)) (Some (int j + 1)) (Some 1)]) =
       Inr ((acc @ [Slice (Some (int j)) (Some (int j + 1)) (Some 1)]) @
            map (\<lambda>i. Slice (Some (int i)) (Some (int i + 1)) (Some 1)) [Suc j..<length vs])"
    using Suc.hyps(2) j by (intro Suc.hyps(1)) auto
  show ?case
    unfolding step using j ih
    by (simp add: np_where_eq_distinct[OF assms j] upt_conv_Cons add.commute)
qed

lemma convert_grouped_distinct:
  assumes "distinct vs"
  shows "convert_grouped_array_to_slices vs =
           Inr (map (\<lambda>i. Slice (Some (int i)) (Some (int i + 1)) (Some 1)) [0..<length vs])"
  using grouped_slices_distinct[OF assms, of 0 "[]"]
  by (simp add: convert_grouped_array_to_slices_def pd_unique_distinct[OF assms])

lemma distinct_int_upt: "distinct (map int [0..<n])"
  by (simp add: distinct_map inj_on_def)

lemma set_index_default:
  assumes "member_lengths e = [n]"
  shows "set_index e NoValues = Inr (Entity (members e) (Some (default_index n)))"
proof -
  have codes: "map_to_integers (map int [0..<n]) = map int [0..<n]"
    using map_to_integers_distinct[OF distinct_int_upt[of n]] by simp
  show ?thesis
    unfolding set_index_def check_member_validity_single[OF assms]
    using convert_grouped_distinct[OF distinct_int_upt[of n]]
    by (simp add: codes pd_unique_distinct[OF distinct_int_upt] default_index_def)
qed

section \<open>Stable sort\<close>

lemma row_le_total: "row_le keys i j \<or> row_le keys j i"
  by (induction keys) auto

lemma row_le_trans: "row_le keys i j \<Longrightarrow> row_le keys j k \<Longrightarrow> row_le keys i k"
proof (induction keys)
  case Nil
  then show ?case by simp
next
  case (Cons key keys)
  obtain col asc where key: "key = (col, asc)" by (cases key)
  from Cons show ?case
    unfolding key by (auto split: if_splits)
qed

lemma row_le_equal_keys:
  "\<forall>(col, asc) \<in> set keys. col ! i = col ! j \<Longrightarrow> row_le keys i j"
  by (induction keys) auto

lemma row_le_lexicographic:
  "row_le keys a b \<longleftrightarrow>
     (\<forall>j < length keys. fst (keys ! j) ! a = fst (keys ! j) ! b) \<or>
     (\<exists>j < length keys.
        (\<forall>i < j. fst (keys ! i) ! a = fst (keys ! i) ! b) \<and>
        (if snd (keys ! j) then fst (keys ! j) ! a < fst (keys ! j) ! b
         else fst (keys ! j) ! b < fst (keys ! j) ! a))"
proof (induction keys)
  case Nil
  show ?case by simp
next
  case (Cons key keys)
  obtain col asc where key: "key = (col, asc)" by (cases key)
  show ?case
  proof (cases "col ! a = col ! b")
    case True
    then show ?thesis
      unfolding key using Cons.IH
      by (simp add: All_less_Suc2 Ex_less_Suc2)
  next
    case False
    then show ?thesis
      unfolding key
      by (auto simp: All_less_Suc2 Ex_less_Suc2)
  qed
qed

lemma set_insert_row: "set (insert_row keys i js) = insert i (set js)"
  by (induction js) auto

lemma length_insert_row: "length (insert_row keys i js) = Suc (length js)"
  by (induction js) auto

lemma distinct_insert_row: "distinct js \<Longrightarrow> i \<notin> set js \<Longrightarrow> distinct (insert_row keys i js)"
  by (induction js) (auto simp: set_insert_row)

lemma set_stable_sort_rows: "set (stable_sort_rows keys is) = set is"
  by (induction "is") (auto simp: set_insert_row)

lemma length_stable_sort_rows: "length (stable_sort_rows keys is) = length is"
  by (induction "is") (auto simp: length_insert_row)

lemma distinct_stable_sort_rows: "distinct is \<Longrightarrow> distinct (stable_sort_rows keys is)"
  by (induction "is") (auto simp: distinct_insert_row set_stable_sort_rows)

lemma sorted_insert_row:
  "sorted_wrt (row_le keys) js \<Longrightarrow> sorted_wrt (row_le keys) (insert_row keys i js)"
proof (induction js)
  case Nil
  then show ?case by simp
next
  case (Cons j js)
  show ?case
  proof (cases "row_le keys i j")
    case True
    with Cons.prems show ?thesis by (auto intro: row_le_trans)
  next
    case False
    then have "row_le keys j i" using row_le_total by blast
    with False Cons show ?thesis by (auto simp: set_insert_row)
  qed
qed

lemma sorted_stable_sort_rows: "sorted_wrt (row_le keys) (stable_sort_rows keys is)"
  by (induction "is") (auto intro: sorted_insert_row)

lemma stable_insert_row:
  assumes "sorted_wrt (\<lambda>a b. row_le keys b a \<longrightarrow> a < b) js" and "\<forall>j \<in> set js. i < j"
  shows "sorted_wrt (\<lambda>a b. row_le keys b a \<longrightarrow> a < b) (insert_row keys i js)"
  using assms
proof (induction js)
  case Nil
  then show ?case by simp
next
  case (Cons j js)
  show ?case
  proof (cases "row_le keys i j")
    case True
    with Cons.prems show ?thesis by auto
  next
    case False
    with Cons show ?thesis by (auto simp: set_insert_row)
  qed
qed

lemma stable_stable_sort_rows:
  "sorted_wrt (<) is \<Longrightarrow> sorted_wrt (\<lambda>a b. row_le keys b a \<longrightarrow> a < b) (stable_sort_rows keys is)"
proof (induction "is")
  case Nil
  then show ?case by simp
next
  case (Cons i "is")
  then show ?case
    by (auto intro!: stable_insert_row simp: set_stable_sort_rows)
qed

lemma stable_sort_rows_properties:
  fixes keys :: "('a::linorder list \<times> bool) list" and m :: nat
  defines "perm \<equiv> stable_sort_rows keys [0..<m]"
  shows "distinct perm" and "set perm = {0..<m}" and "length perm = m"
    and "\<And>p q. p < q \<Longrightarrow> q < m \<Longrightarrow> row_le keys (perm ! p) (perm ! q)"
    and "\<And>p q. p < q \<Longrightarrow> q < m \<Longrightarrow> \<forall>(col, asc) \<in> set keys. col ! (perm ! p) = col ! (perm ! q) \<Longrightarrow>
            perm ! p < perm ! q"
proof -
  show "distinct perm" by (simp add: perm_def distinct_stable_sort_rows)
  show "set perm = {0..<m}" by (simp add: perm_def set_stable_sort_rows)
  show len: "length perm = m" by (simp add: perm_def length_stable_sort_rows)
  show "row_le keys (perm ! p) (perm ! q)" if "p < q" "q < m" for p q
    using sorted_stable_sort_rows[of keys "[0..<m]"] that len
    by (simp add: perm_def sorted_wrt_iff_nth_less)
  show "perm ! p < perm ! q"
    if "p < q" "q < m" "\<forall>(col, asc) \<in> set keys. col ! (perm ! p) = col ! (perm ! q)" for p q
  proof -
    have "sorted_wrt (\<lambda>a b. row_le keys b a \<longrightarrow> a < b) perm"
      unfolding perm_def by (rule stable_stable_sort_rows) (simp add: sorted_wrt_iff_nth_less)
    then have "row_le keys (perm ! q) (perm ! p) \<longrightarrow> perm ! p < perm ! q"
      using that(1,2) len by (simp add: sorted_wrt_iff_nth_less)
    moreover have "row_le keys (perm ! q) (perm ! p)"
      by (rule row_le_equal_keys) (use that(3) in auto)
    ultimately show ?thesis by simp
  qed
qed

lemma norm_indices_nat: "\<forall>i \<in> set l. i < n \<Longrightarrow> norm_indices n (map int l) = Inr l"
  by (induction l) (auto simp: norm_index_def)

lemma getitem_array_nat:
  "\<forall>i \<in> set l. i < length xs \<Longrightarrow> getitem_array xs (map int l) = Inr (map (\<lambda>i. xs ! i) l)"
  by (simp add: getitem_array_def norm_indices_nat)

lemma regular_members_member:
  "regular_members n ms \<Longrightarrow> (k, v) \<in> set ms \<Longrightarrow> regular_member n v"
  by (induction ms) auto

lemma remdups_all_equal: "xs \<noteq> [] \<Longrightarrow> \<forall>x \<in> set xs. x = n \<Longrightarrow> remdups xs = [n]"
proof (induction xs)
  case Nil
  then show ?case by simp
next
  case (Cons x xs)
  then show ?case by (cases xs) auto
qed

lemma member_lengths_uniform:
  assumes "\<forall>(k, v) \<in> set ms. \<forall>l \<in> set (sliceable_length v). l = n"
    and "length (member_index st) = n" and "class_index st = IntArray ci" and "length ci = n"
    and "ctm_length (class_index_to_members st) = n"
  shows "member_lengths (Entity ms (Some st)) = [n]"
  unfolding member_lengths_def
  by (rule remdups_all_equal) (use assms in auto)

lemma regular_sliceable_length:
  "regular_member n v \<Longrightarrow> \<forall>l \<in> set (sliceable_length v). l = n"
  by (cases v) auto

lemma member_lengths_default_indexed:
  assumes "default_indexed n e"
  shows "member_lengths e = [n]"
proof -
  obtain ms i where e: "e = Entity ms i" by (cases e)
  with assms have i: "i = Some (default_index n)" and reg: "regular_members n ms" by auto
  have "\<forall>(k, v) \<in> set ms. \<forall>l \<in> set (sliceable_length v). l = n"
    using regular_members_member[OF reg] regular_sliceable_length by blast
  then show ?thesis
    unfolding e i
    by (rule member_lengths_uniform[where ci = "map int [0..<n]"]) (simp_all add: default_index_def)
qed

lemma query_default_list:
  assumes "\<forall>i \<in> set l. i < n"
  shows "query_index (default_index n) (SList (map int l)) = Inr (MArray (map int l))"
proof -
  have "map (\<lambda>i. map int [0..<n] ! i) l = map int l"
    using assms by (intro map_cong) auto
  then show ?thesis
    using assms by (simp add: query_by_values_def default_index_def getitem_array_nat)
qed

lemma getitem_index_default_list:
  assumes "\<forall>i \<in> set l. i < n"
  shows "\<exists>st. getitem_index (default_index n) (SList (map int l)) (MArray (map int l)) = Inr st \<and>
           length (member_index st) = length l \<and>
           (\<exists>ci. class_index st = IntArray ci \<and> length ci = length l) \<and>
           ctm_length (class_index_to_members st) = length l"
  using assms by (simp add: getitem_index_def default_index_def getitem_array_nat)

lemma getitem_member_list_flat:
  assumes "regular_member n v" and "entity_of v = None" and "\<forall>i \<in> set l. i < n"
  shows "getitem_member v (MArray (map int l)) =
           Inr (case v of
                  Arr xs \<Rightarrow> Arr (map (\<lambda>i. xs ! i) l)
                | Masked xs mk \<Rightarrow> Masked (map (\<lambda>i. xs ! i) l) (map (\<lambda>i. mk ! i) l)
                | TimeF xs scale fmt \<Rightarrow> TimeF (map (\<lambda>i. xs ! i) l) scale fmt
                | _ \<Rightarrow> v)"
  using assms by (cases v) (simp_all add: getitem_array_nat)

lemma getitem_list_regular:
  fixes e :: "'a entity" and ms :: "(string \<times> 'a member) list" and v :: "'a member"
  shows "default_indexed n e \<Longrightarrow> \<forall>i \<in> set l. i < n \<Longrightarrow> \<exists>e'. getitem e (SList (map int l)) = Inr e'"
    and "regular_members n ms \<Longrightarrow> \<forall>i \<in> set l. i < n \<Longrightarrow>
           \<exists>ms'. getitem_members ms (MArray (map int l)) = Inr ms' \<and>
                 (\<forall>(k, v') \<in> set ms'. \<forall>x \<in> set (sliceable_length v'). x = length l)"
    and "regular_member n v \<Longrightarrow> \<forall>i \<in> set l. i < n \<Longrightarrow>
           \<exists>v'. getitem_member v (MArray (map int l)) = Inr v' \<and>
                (\<forall>x \<in> set (sliceable_length v'). x = length l)"
proof (induction n e and n ms and n v rule: default_indexed_regular_members_regular_member.induct)
  case (1 n ms i)
  then have i: "i = Some (default_index n)" and "regular_members n ms" by auto
  with 1 obtain ms' where ms': "getitem_members ms (MArray (map int l)) = Inr ms'" by blast
  from getitem_index_default_list[OF 1(3)] obtain st
    where st: "getitem_index (default_index n) (SList (map int l)) (MArray (map int l)) = Inr st"
    by blast
  show ?case
    using query_default_list[OF 1(3)] by (simp add: i ms' st)
next
  case (2 n)
  then show ?case by simp
next
  case (3 n k v rest)
  then show ?case by fastforce
next
  case (4 n xs)
  then show ?case by (simp add: getitem_array_nat)
next
  case (5 n xs mk)
  then show ?case by (simp add: getitem_array_nat)
next
  case (6 n xs scale fmt)
  then show ?case by (simp add: getitem_array_nat)
next
  case (7 n ent)
  then show ?case by fastforce
qed simp_all

lemma find_attributes_own:
  assumes "\<forall>b \<in> set bys. \<exists>v. map_of (members e) b = Some v"
  shows "find_attributes e bys = Inr (map (\<lambda>b. the (map_of (members e) b)) bys)"
  using assms by (induction bys) (auto simp: find_attribute_def)

lemma sort_data_columns:
  assumes "\<forall>b \<in> set bys. sort_column fill (f b) = Inr (colf b)"
  shows "sort_data fill (map (\<lambda>b. (b, f b)) bys) d =
           Inr (\<lambda>x. if x \<in> set bys then Some (colf x) else d x)"
  using assms
proof (induction bys arbitrary: d)
  case Nil
  then show ?case by simp
next
  case (Cons b bys)
  have "(\<lambda>x. if x \<in> set bys then Some (colf x) else (d(b \<mapsto> colf b)) x) =
        (\<lambda>x. if x \<in> set (b # bys) then Some (colf x) else d x)"
    by (rule ext) simp
  with Cons show ?case by simp
qed

lemma zip_map_self: "zip xs (map f xs) = map (\<lambda>x. (x, f x)) xs"
  by (induction xs) auto

lemma those_map_Some: "those (map (\<lambda>b. Some (g b)) bs) = Some (map g bs)"
  by (induction bs) auto

lemma sorted_indices_columns:
  assumes "bys \<noteq> []" and "length asc = length bys" and "\<forall>b \<in> set bys. length (colf b) = n"
  shows "sorted_indices (\<lambda>x. if x \<in> set bys then Some (colf x) else None) bys asc =
           Inr (stable_sort_rows (zip (map colf bys) asc) [0..<n])"
proof -
  have m: "map (\<lambda>x. if x \<in> set bys then Some (colf x) else None) bys = map (\<lambda>b. Some (colf b)) bys"
    by (rule map_cong) auto
  have cols: "those (map (\<lambda>x. if x \<in> set bys then Some (colf x) else None) bys) = Some (map colf bys)"
    unfolding m by (rule those_map_Some)
  from assms(1) obtain b0 rest where bys: "bys = b0 # rest" by (cases bys) auto
  have all: "list_all (\<lambda>c. length c = length (colf b0)) (map colf rest)"
    using assms(3) by (auto simp: bys list_all_iff)
  have n: "length (colf b0) = n" using assms(3) by (simp add: bys)
  show ?thesis
    unfolding sorted_indices_def cols
    using all n assms(2) by (simp add: bys)
qed

lemma regular_sort_column_length:
  "regular_member n v \<Longrightarrow> sort_column fill v = Inr c \<Longrightarrow> length c = n"
  by (cases v) auto

lemma sort_values_regular:
  fixes e :: "'a::linorder entity"
  assumes reg: "default_indexed n e" and "bys \<noteq> []" and "length asc = length bys"
    and cols: "\<forall>b \<in> set bys. \<exists>v. map_of (members e) b = Some v \<and> sort_column fill v = Inr (colf b)"
  shows "\<exists>ms'. getitem_members (members e) (MArray (map int (stable_sort_rows (zip (map colf bys) asc) [0..<n]))) = Inr ms' \<and>
           sort_values fill e (ByList bys) inplace (AscList asc) =
             Inr (if inplace then (Entity ms' (Some (default_index n)), None)
                  else (e, Some (Entity ms' (Some (default_index n)))))"
proof -
  define perm where "perm = stable_sort_rows (zip (map colf bys) asc) [0..<n]"
  obtain ms i where e: "e = Entity ms i" by (cases e)
  with reg have i: "i = Some (default_index n)" and regms: "regular_members n ms" by auto
  have perm: "\<forall>p \<in> set perm. p < n" "length perm = n"
    by (simp_all add: perm_def set_stable_sort_rows length_stable_sort_rows)
  have args: "sort_arguments (ByList bys) (AscList asc) = Inr (bys, asc)"
    using assms(3) by simp
  have attrs: "find_attributes e bys = Inr (map (\<lambda>b. the (map_of (members e) b)) bys)"
    by (rule find_attributes_own) (use cols in blast)
  have data: "sort_data fill (zip bys (map (\<lambda>b. the (map_of (members e) b)) bys)) Map.empty =
          Inr (\<lambda>x. if x \<in> set bys then Some (colf x) else None)"
    unfolding zip_map_self by (rule sort_data_columns) (use cols in auto)
  have len: "\<forall>b \<in> set bys. length (colf b) = n"
  proof
    fix b assume "b \<in> set bys"
    with cols obtain v where v: "map_of ms b = Some v" "sort_column fill v = Inr (colf b)"
      by (auto simp: e)
    from v(1) have "(b, v) \<in> set ms" by (rule map_of_SomeD)
    then have "regular_member n v" by (rule regular_members_member[OF regms])
    then show "length (colf b) = n" using v(2) by (rule regular_sort_column_length)
  qed
  have inds: "sorted_indices (\<lambda>x. if x \<in> set bys then Some (colf x) else None) bys asc = Inr perm"
    unfolding perm_def by (rule sorted_indices_columns[OF assms(2,3) len])
  have e1: "set_index e NoValues = Inr e"
    using set_index_default[OF member_lengths_default_indexed[OF reg]] by (simp add: e i)
  from getitem_list_regular(2)[OF regms perm(1)] obtain ms' where
    ms': "getitem_members ms (MArray (map int perm)) = Inr ms'"
      "\<forall>(k, v') \<in> set ms'. \<forall>x \<in> set (sliceable_length v'). x = n"
    using perm(2) by auto
  from getitem_index_default_list[OF perm(1)] obtain st ci where
    st: "getitem_index (default_index n) (SList (map int perm)) (MArray (map int perm)) = Inr st"
      "length (member_index st) = n" "class_index st = IntArray ci" "length ci = n"
      "ctm_length (class_index_to_members st) = n"
    using perm(2) by auto
  have copy0: "getitem e (SList (map int perm)) = Inr (Entity ms' (Some st))"
    using query_default_list[OF perm(1)] by (simp add: e i ms'(1) st(1))
  have "member_lengths (Entity ms' (Some st)) = [n]"
    by (rule member_lengths_uniform[OF ms'(2) st(2,3,4,5)])
  then have copy: "set_index (Entity ms' (Some st)) NoValues = Inr (Entity ms' (Some (default_index n)))"
    using set_index_default by fastforce
  have attr: "class_index_attribute (default_index n) = None"
    by (simp add: default_index_def)
  have idx: "idx e = Some (default_index n)"
    by (simp add: e i)
  have "sort_values fill e (ByList bys) inplace (AscList asc) =
             Inr (if inplace then (Entity ms' (Some (default_index n)), None)
                  else (e, Some (Entity ms' (Some (default_index n)))))"
    by (simp add: sort_values_def assms(3) attrs data inds idx e1 copy0 copy attr)
  with ms'(1) show ?thesis by (auto simp: perm_def e)
qed

lemma sort_arguments_forms:
  "sort_values fill e (ByStr b) inplace (AscBool a) = sort_values fill e (ByList [b]) inplace (AscList [a])"
  "sort_values fill e (ByList bys) inplace (AscBool a) =
     sort_values fill e (ByList bys) inplace (AscList (map (\<lambda>i. a) bys))"
  "sort_values fill e (ByStr b) inplace (AscList asc) = sort_values fill e (ByList [b]) inplace (AscList asc)
     \<or> length asc \<noteq> 1"
  by (auto simp: sort_values_def)

lemma sort_example:
  fixes x y z k1 k2 :: "'a::linorder"
  assumes "k1 < k2"
  shows "\<exists>e. init [(''name'', Arr [x, y, z]), (''num'', Arr [k2, k1, k2])] NoValues = Inr e \<and>
          sort_values fill e (ByStr ''num'') False (AscBool True) =
            Inr (e, Some (Entity [(''name'', Arr [y, x, z]), (''num'', Arr [k1, k2, k2])] (idx e)))"
proof -
  let ?ms = "[(''name'', Arr [x, y, z]), (''num'', Arr [k2, k1, k2])]"
  let ?e = "Entity ?ms (Some (default_index 3))"
  let ?colf = "\<lambda>b. if b = ''num'' then [k2, k1, k2] else []"
  have "member_lengths (Entity ?ms None) = [3]"
    by (simp add: member_lengths_def)
  then have built: "init ?ms NoValues = Inr ?e"
    using set_index_default[of "Entity ?ms None" 3] by (simp add: init_def)
  have reg: "default_indexed 3 ?e" by simp
  have perm: "stable_sort_rows (zip (map ?colf [''num'']) [True]) [0..<3] = [1, 0, 2]"
    using assms by (auto simp: upt_3)
  from sort_values_regular[OF reg, of "[''num'']" "[True]" fill ?colf False]
  have "sort_values fill ?e (ByList [''num'']) False (AscList [True]) =
          Inr (?e, Some (Entity [(''name'', Arr [y, x, z]), (''num'', Arr [k1, k2, k2])] (Some (default_index 3))))"
    unfolding perm by (auto simp: getitem_array_def norm_index_def)
  with built show ?thesis
    by (intro exI[of _ ?e]) (simp add: sort_arguments_forms(1))
qed

lemma sort_example_descending:
  fixes x y z k1 k2 :: "'a::linorder"
  assumes "k1 < k2"
  shows "\<exists>e. init [(''name'', Arr [x, y, z]), (''num'', Arr [k2, k1, k2])] NoValues = Inr e \<and>
          sort_values fill e (ByStr ''num'') False (AscBool False) =
            Inr (e, Some (Entity [(''name'', Arr [x, z, y]), (''num'', Arr [k2, k2, k1])] (idx e)))"
proof -
  let ?ms = "[(''name'', Arr [x, y, z]), (''num'', Arr [k2, k1, k2])]"
  let ?e = "Entity ?ms (Some (default_index 3))"
  let ?colf = "\<lambda>b. if b = ''num'' then [k2, k1, k2] else []"
  have "member_lengths (Entity ?ms None) = [3]"
    by (simp add: member_lengths_def)
  then have built: "init ?ms NoValues = Inr ?e"
    using set_index_default[of "Entity ?ms None" 3] by (simp add: init_def)
  have reg: "default_indexed 3 ?e" by simp
  have perm: "stable_sort_rows (zip (map ?colf [''num'']) [False]) [0..<3] = [0, 2, 1]"
    using assms by (auto simp: upt_3)
  from sort_values_regular[OF reg, of "[''num'']" "[False]" fill ?colf False]
  have "sort_values fill ?e (ByList [''num'']) False (AscList [False]) =
          Inr (?e, Some (Entity [(''name'', Arr [x, z, y]), (''num'', Arr [k2, k2, k1])] (Some (default_index 3))))"
    unfolding perm by (auto simp: getitem_array_def norm_index_def)
  with built show ?thesis
    by (intro exI[of _ ?e]) (simp add: sort_arguments_forms(1))
qed

lemma sort_example_two_keys:
  fixes x y z k1 k2 :: "'a::linorder"
  assumes "k1 < k2" and "x < z"
  shows "\<exists>e. init [(''name'', Arr [x, y, z]), (''num'', Arr [k2, k1, k2])] NoValues = Inr e \<and>
          sort_values fill e (ByList [''num'', ''name'']) False (AscList [True, False]) =
            Inr (e, Some (Entity [(''name'', Arr [y, z, x]), (''num'', Arr [k1, k2, k2])] (idx e)))"
proof -
  let ?ms = "[(''name'', Arr [x, y, z]), (''num'', Arr [k2, k1, k2])]"
  let ?e = "Entity ?ms (Some (default_index 3))"
  let ?colf = "\<lambda>b. if b = ''num'' then [k2, k1, k2] else [x, y, z]"
  have "member_lengths (Entity ?ms None) = [3]"
    by (simp add: member_lengths_def)
  then have built: "init ?ms NoValues = Inr ?e"
    using set_index_default[of "Entity ?ms None" 3] by (simp add: init_def)
  have reg: "default_indexed 3 ?e" by simp
  have perm: "stable_sort_rows (zip (map ?colf [''num'', ''name'']) [True, False]) [0..<3] = [1, 2, 0]"
    using assms by (auto simp: upt_3)
  from sort_values_regular[OF reg, of "[''num'', ''name'']" "[True, False]" fill ?colf False]
  have "sort_values fill ?e (ByList [''num'', ''name'']) False (AscList [True, False]) =
          Inr (?e, Some (Entity [(''name'', Arr [y, z, x]), (''num'', Arr [k1, k2, k2])] (Some (default_index 3))))"
    unfolding perm by (auto simp: getitem_array_def norm_index_def)
  with built show ?thesis
    by (intro exI[of _ ?e]) simp
qed

text \<open>
  Sorting under the default index. For rows with names \<open>x, y, z\<close> and numeric keys
  \<open>k2, k1, k2\<close> with \<open>k1 < k2\<close> (the rows \<open>(x, 2), (y, 1), (z, 2)\<close>), sorting on the numeric
  key returns the rows in the order \<open>y, x, z\<close> when ascending and \<open>x, z, y\<close> when
  descending, the tied rows \<open>x\<close> and \<open>z\<close> in their original order both times; sorting on
  the numeric key ascending and then on the name descending returns \<open>y, z, x\<close> when
  \<open>x < z\<close>. In general the sorted row labels are a permutation of the rows; of two rows
  the earlier one either agrees with the later one on every key or is strictly before it,
  in the direction of that key, on the first key where they differ; and rows that agree on
  every key keep their original relative order. For an entity of \<open>n\<close> rows under the
  default index whose sort keys are attributes of the entity, \<open>sort_values\<close> succeeds and
  returns (or, in place, becomes) the copy whose arrays, masked arrays and time arrays
  are the rows in this order, under the default index again. A single key and a single
  direction are the one-element lists.
\<close>

theorem sort_values_stable:
  fixes e :: "'a::linorder entity" and keys :: "('a list \<times> bool) list"
  shows
  "(k1 < k2 \<longrightarrow>
      (\<exists>e0. init [(''name'', Arr [x, y, z]), (''num'', Arr [k2, k1, k2])] NoValues = Inr e0 \<and>
           sort_values fill e0 (ByStr ''num'') False (AscBool True) =
             Inr (e0, Some (Entity [(''name'', Arr [y, x, z]), (''num'', Arr [k1, k2, k2])] (idx e0))))) \<and>
   (k1 < k2 \<longrightarrow>
      (\<exists>e0. init [(''name'', Arr [x, y, z]), (''num'', Arr [k2, k1, k2])] NoValues = Inr e0 \<and>
           sort_values fill e0 (ByStr ''num'') False (AscBool False) =
             Inr (e0, Some (Entity [(''name'', Arr [x, z, y]), (''num'', Arr [k2, k2, k1])] (idx e0))))) \<and>
   (k1 < k2 \<and> x < z \<longrightarrow>
      (\<exists>e0. init [(''name'', Arr [x, y, z]), (''num'', Arr [k2, k1, k2])] NoValues = Inr e0 \<and>
           sort_values fill e0 (ByList [''num'', ''name'']) False (AscList [True, False]) =
             Inr (e0, Some (Entity [(''name'', Arr [y, z, x]), (''num'', Arr [k1, k2, k2])] (idx e0))))) \<and>
   (distinct (stable_sort_rows keys [0..<m]) \<and>
    set (stable_sort_rows keys [0..<m]) = {0..<m} \<and>
    (\<forall>p q. p < q \<and> q < m \<longrightarrow>
       (\<forall>j < length keys.
           fst (keys ! j) ! (stable_sort_rows keys [0..<m] ! p) =
           fst (keys ! j) ! (stable_sort_rows keys [0..<m] ! q)) \<or>
       (\<exists>j < length keys.
           (\<forall>i < j. fst (keys ! i) ! (stable_sort_rows keys [0..<m] ! p) =
                    fst (keys ! i) ! (stable_sort_rows keys [0..<m] ! q)) \<and>
           (if snd (keys ! j)
            then fst (keys ! j) ! (stable_sort_rows keys [0..<m] ! p) <
                 fst (keys ! j) ! (stable_sort_rows keys [0..<m] ! q)
            else fst (keys ! j) ! (stable_sort_rows keys [0..<m] ! q) <
                 fst (keys ! j) ! (stable_sort_rows keys [0..<m] ! p)))) \<and>
    (\<forall>p q. p < q \<and> q < m \<and>
       (\<forall>(col, asc) \<in> set keys.
          col ! (stable_sort_rows keys [0..<m] ! p) = col ! (stable_sort_rows keys [0..<m] ! q)) \<longrightarrow>
       stable_sort_rows keys [0..<m] ! p < stable_sort_rows keys [0..<m] ! q)) \<and>
   (default_indexed n e \<and> bys \<noteq> [] \<and> length ascending = length bys \<and>
    (\<forall>b \<in> set bys. \<exists>v. map_of (members e) b = Some v \<and> sort_column fill v = Inr (colf b)) \<longrightarrow>
      (\<exists>copy. sort_values fill e (ByList bys) inplace (AscList ascending) =
                Inr (if inplace then (copy, None) else (e, Some copy)) \<and>
         idx copy = Some (default_index n) \<and>
         list_all2 (\<lambda>(k, v) (k', v'). k' = k \<and>
             (case v of
                Arr xs \<Rightarrow>
                  v' = Arr (map (\<lambda>i. xs ! i) (stable_sort_rows (zip (map colf bys) ascending) [0..<n]))
              | Masked xs mk \<Rightarrow>
                  v' = Masked (map (\<lambda>i. xs ! i) (stable_sort_rows (zip (map colf bys) ascending) [0..<n]))
                              (map (\<lambda>i. mk ! i) (stable_sort_rows (zip (map colf bys) ascending) [0..<n]))
              | TimeF xs scale fmt \<Rightarrow>
                  v' = TimeF (map (\<lambda>i. xs ! i) (stable_sort_rows (zip (map colf bys) ascending) [0..<n])) scale fmt
              | Opaque c \<Rightarrow> v' = Opaque c
              | NoneV \<Rightarrow> v' = NoneV
              | _ \<Rightarrow> True))
           (members e) (members copy))) \<and>
   sort_values fill e (ByStr b) inplace (AscBool a) = sort_values fill e (ByList [b]) inplace (AscList [a]) \<and>
   sort_values fill e (ByList bys) inplace (AscBool a) =
     sort_values fill e (ByList bys) inplace (AscList (map (\<lambda>i. a) bys))"
proof (intro conjI impI)
  assume "k1 < k2"
  then show "\<exists>e0. init [(''name'', Arr [x, y, z]), (''num'', Arr [k2, k1, k2])] NoValues = Inr e0 \<and>
           sort_values fill e0 (ByStr ''num'') False (AscBool True) =
             Inr (e0, Some (Entity [(''name'', Arr [y, x, z]), (''num'', Arr [k1, k2, k2])] (idx e0)))"
    by (rule sort_example)
next
  assume "k1 < k2"
  then show "\<exists>e0. init [(''name'', Arr [x, y, z]), (''num'', Arr [k2, k1, k2])] NoValues = Inr e0 \<and>
           sort_values fill e0 (ByStr ''num'') False (AscBool False) =
             Inr (e0, Some (Entity [(''name'', Arr [x, z, y]), (''num'', Arr [k2, k2, k1])] (idx e0)))"
    by (rule sort_example_descending)
next
  assume "k1 < k2 \<and> x < z"
  then show "\<exists>e0. init [(''name'', Arr [x, y, z]), (''num'', Arr [k2, k1, k2])] NoValues = Inr e0 \<and>
           sort_values fill e0 (ByList [''num'', ''name'']) False (AscList [True, False]) =
             Inr (e0, Some (Entity [(''name'', Arr [y, z, x]), (''num'', Arr [k1, k2, k2])] (idx e0)))"
    using sort_example_two_keys by blast
next
  show "distinct (stable_sort_rows keys [0..<m])"
    by (rule stable_sort_rows_properties)
next
  show "set (stable_sort_rows keys [0..<m]) = {0..<m}"
    by (rule stable_sort_rows_properties)
next
  show "\<forall>p q. p < q \<and> q < m \<longrightarrow>
       (\<forall>j < length keys.
           fst (keys ! j) ! (stable_sort_rows keys [0..<m] ! p) =
           fst (keys ! j) ! (stable_sort_rows keys [0..<m] ! q)) \<or>
       (\<exists>j < length keys.
           (\<forall>i < j. fst (keys ! i) ! (stable_sort_rows keys [0..<m] ! p) =
                    fst (keys ! i) ! (stable_sort_rows keys [0..<m] ! q)) \<and>
           (if snd (keys ! j)
            then fst (keys ! j) ! (stable_sort_rows keys [0..<m] ! p) <
                 fst (keys ! j) ! (stable_sort_rows keys [0..<m] ! q)
            else fst (keys ! j) ! (stable_sort_rows keys [0..<m] ! q) <
                 fst (keys ! j) ! (stable_sort_rows keys [0..<m] ! p)))"
  proof (intro allI impI)
    fix p q assume "p < q \<and> q < m"
    then have "row_le keys (stable_sort_rows keys [0..<m] ! p) (stable_sort_rows keys [0..<m] ! q)"
      using stable_sort_rows_properties(4)[of p q m keys] by blast
    then show "(\<forall>j < length keys.
           fst (keys ! j) ! (stable_sort_rows keys [0..<m] ! p) =
           fst (keys ! j) ! (stable_sort_rows keys [0..<m] ! q)) \<or>
       (\<exists>j < length keys.
           (\<forall>i < j. fst (keys ! i) ! (stable_sort_rows keys [0..<m] ! p) =
                    fst (keys ! i) ! (stable_sort_rows keys [0..<m] ! q)) \<and>
           (if snd (keys ! j)
            then fst (keys ! j) ! (stable_sort_rows keys [0..<m] ! p) <
                 fst (keys ! j) ! (stable_sort_rows keys [0..<m] ! q)
            else fst (keys ! j) ! (stable_sort_rows keys [0..<m] ! q) <
                 fst (keys ! j) ! (stable_sort_rows keys [0..<m] ! p)))"
      by (simp only: row_le_lexicographic)
  qed
next
  show "\<forall>p q. p < q \<and> q < m \<and>
       (\<forall>(col, asc) \<in> set keys.
          col ! (stable_sort_rows keys [0..<m] ! p) = col ! (stable_sort_rows keys [0..<m] ! q)) \<longrightarrow>
       stable_sort_rows keys [0..<m] ! p < stable_sort_rows keys [0..<m] ! q"
    using stable_sort_rows_properties(5)[of _ _ m keys] by blast
next
  assume h: "default_indexed n e \<and> bys \<noteq> [] \<and> length ascending = length bys \<and>
    (\<forall>b \<in> set bys. \<exists>v. map_of (members e) b = Some v \<and> sort_column fill v = Inr (colf b))"
  define perm where "perm = stable_sort_rows (zip (map colf bys) ascending) [0..<n]"
  have perm: "\<forall>i \<in> set perm. i < n"
    by (simp add: perm_def set_stable_sort_rows)
  from h have reg: "default_indexed n e" by simp
  then have regms: "regular_members n (members e)" by (cases e) simp
  from sort_values_regular[of n e bys ascending fill colf inplace] h obtain ms' where
    ms': "getitem_members (members e) (MArray (map int perm)) = Inr ms'"
    and sorted: "sort_values fill e (ByList bys) inplace (AscList ascending) =
             Inr (if inplace then (Entity ms' (Some (default_index n)), None)
                  else (e, Some (Entity ms' (Some (default_index n)))))"
    unfolding perm_def by blast
  have member: "case v of
                Arr xs \<Rightarrow> v' = Arr (map (\<lambda>i. xs ! i) perm)
              | Masked xs mk \<Rightarrow> v' = Masked (map (\<lambda>i. xs ! i) perm) (map (\<lambda>i. mk ! i) perm)
              | TimeF xs scale fmt \<Rightarrow> v' = TimeF (map (\<lambda>i. xs ! i) perm) scale fmt
              | Opaque c \<Rightarrow> v' = Opaque c
              | NoneV \<Rightarrow> v' = NoneV
              | _ \<Rightarrow> True"
    if "(k, v) \<in> set (members e)" and "getitem_member v (MArray (map int perm)) = Inr v'" for k v v'
  proof -
    have "regular_member n v" by (rule regular_members_member[OF regms that(1)])
    then show ?thesis using that(2) perm by (cases v) (auto simp: getitem_array_nat)
  qed
  have "list_all2 (\<lambda>(k, v) (k', v'). k' = k \<and> getitem_member v (MArray (map int perm)) = Inr v') (members e) ms'"
    by (rule getitem_members_success[OF ms'])
  then have rel: "list_all2 (\<lambda>(k, v) (k', v'). k' = k \<and>
             (case v of
                Arr xs \<Rightarrow> v' = Arr (map (\<lambda>i. xs ! i) perm)
              | Masked xs mk \<Rightarrow> v' = Masked (map (\<lambda>i. xs ! i) perm) (map (\<lambda>i. mk ! i) perm)
              | TimeF xs scale fmt \<Rightarrow> v' = TimeF (map (\<lambda>i. xs ! i) perm) scale fmt
              | Opaque c \<Rightarrow> v' = Opaque c
              | NoneV \<Rightarrow> v' = NoneV
              | _ \<Rightarrow> True)) (members e) ms'"
    by (rule list.rel_mono_strong) (use member in auto)
  show "\<exists>copy. sort_values fill e (ByList bys) inplace (AscList ascending) =
                Inr (if inplace then (copy, None) else (e, Some copy)) \<and>
         idx copy = Some (default_index n) \<and>
         list_all2 (\<lambda>(k, v) (k', v'). k' = k \<and>
             (case v of
                Arr xs \<Rightarrow>
                  v' = Arr (map (\<lambda>i. xs ! i) (stable_sort_rows (zip (map colf bys) ascending) [0..<n]))
              | Masked xs mk \<Rightarrow>
                  v' = Masked (map (\<lambda>i. xs ! i) (stable_sort_rows (zip (map colf bys) ascending) [0..<n]))
                              (map (\<lambda>i. mk ! i) (stable_sort_rows (zip (map colf bys) ascending) [0..<n]))
              | TimeF xs scale fmt \<Rightarrow>
                  v' = TimeF (map (\<lambda>i. xs ! i) (stable_sort_rows (zip (map colf bys) ascending) [0..<n])) scale fmt
              | Opaque c \<Rightarrow> v' = Opaque c
              | NoneV \<Rightarrow> v' = NoneV
              | _ \<Rightarrow> True))
           (members e) (members copy)"
    apply (rule exI[of _ "Entity ms' (Some (default_index n))"])
    using sorted rel unfolding perm_def by simp
next
  show "sort_values fill e (ByStr b) inplace (AscBool a) = sort_values fill e (ByList [b]) inplace (AscList [a])"
    by (rule sort_arguments_forms)
next
  show "sort_values fill e (ByList bys) inplace (AscBool a) =
     sort_values fill e (ByList bys) inplace (AscList (map (\<lambda>i. a) bys))"
    by (rule sort_arguments_forms)
qed

theorem sort_values_stable_witness:
  "(1::int) < 2 \<and> (10::int) < 30 \<and>
   default_indexed 3 (Entity [(''name'', Arr [10, 20, 30 :: int]), (''num'', Arr [2, 1, 2])] (Some (default_index 3))) \<and>
   (\<exists>e0. init [(''name'', Arr [10, 20, 30 :: int]), (''num'', Arr [2, 1, 2])] NoValues = Inr e0 \<and>
         sort_values 0 e0 (ByStr ''num'') False (AscBool True) =
           Inr (e0, Some (Entity [(''name'', Arr [20, 10, 30]), (''num'', Arr [1, 2, 2])] (idx e0)))) \<and>
   (\<exists>e0. init [(''name'', Arr [10, 20, 30 :: int]), (''num'', Arr [2, 1, 2])] NoValues = Inr e0 \<and>
         sort_values 0 e0 (ByStr ''num'') False (AscBool False) =
           Inr (e0, Some (Entity [(''name'', Arr [10, 30, 20]), (''num'', Arr [2, 2, 1])] (idx e0)))) \<and>
   (\<exists>e0. init [(''name'', Arr [10, 20, 30 :: int]), (''num'', Arr [2, 1, 2])] NoValues = Inr e0 \<and>
         sort_values 0 e0 (ByList [''num'', ''name'']) False (AscList [True, False]) =
           Inr (e0, Some (Entity [(''name'', Arr [20, 30, 10]), (''num'', Arr [1, 2, 2])] (idx e0)))) \<and>
   (\<exists>copy. sort_values 0 (Entity [(''name'', Arr [10, 20, 30 :: int]), (''num'', Arr [2, 1, 2])] (Some (default_index 3)))
              (ByList [''num'', ''name'']) False (AscList [True, False]) =
            Inr (Entity [(''name'', Arr [10, 20, 30 :: int]), (''num'', Arr [2, 1, 2])] (Some (default_index 3)), Some copy) \<and>
          idx copy = Some (default_index 3))"
proof -
  let ?e = "Entity [(''name'', Arr [10, 20, 30 :: int]), (''num'', Arr [2, 1, 2])] (Some (default_index 3))"
  let ?colf = "\<lambda>b. if b = ''num'' then [2, 1, 2 :: int] else [10, 20, 30]"
  have h1: "(1::int) < 2" by simp
  have h3: "(10::int) < 30" by simp
  have h13: "(1::int) < 2 \<and> (10::int) < 30" by simp
  have reg: "default_indexed 3 ?e" by simp
  have h2: "default_indexed 3 ?e \<and> [''num'', ''name''] \<noteq> [] \<and>
            length [True, False] = length [''num'', ''name''] \<and>
            (\<forall>b \<in> set [''num'', ''name'']. \<exists>v. map_of (members ?e) b = Some v \<and> sort_column 0 v = Inr (?colf b))"
    by simp
  note t = sort_values_stable[where ?k1.0 = 1 and ?k2.0 = 2 and fill = 0 and x = 10 and y = 20 and z = 30
      and keys = "[]" and m = 0 and n = 3 and e = ?e and bys = "[''num'', ''name'']"
      and ascending = "[True, False]" and colf = ?colf and inplace = False and b = "''num''" and a = True]
  note ex1 = t[THEN conjunct1, THEN mp, OF h1]
  note ex_desc = t[THEN conjunct2, THEN conjunct1, THEN mp, OF h1]
  note ex_two = t[THEN conjunct2, THEN conjunct2, THEN conjunct1, THEN mp, OF h13]
  note ex2 = t[THEN conjunct2, THEN conjunct2, THEN conjunct2, THEN conjunct2, THEN conjunct1, THEN mp, OF h2]
  from ex2 obtain copy where
    copy: "sort_values 0 ?e (ByList [''num'', ''name'']) False (AscList [True, False]) =
            Inr (if False then (copy, None) else (?e, Some copy))"
      "idx copy = Some (default_index 3)"
    by (elim exE conjE)
  have ex2': "\<exists>copy. sort_values 0 ?e (ByList [''num'', ''name'']) False (AscList [True, False]) =
            Inr (?e, Some copy) \<and> idx copy = Some (default_index 3)"
    using copy by (intro exI[of _ copy]) simp
  show ?thesis
    by (intro conjI) (rule h1, rule h3, rule reg, rule ex1, rule ex_desc, rule ex_two, rule ex2')
qed

section \<open>Concatenation round trip\<close>

lemma getitem_slice_open_start:
  assumes "0 \<le> b"
  shows "getitem_slice xs (Slice None (Some b) None) = getitem_slice xs (Slice (Some 0) (Some b) (Some 1))"
  using assms by (simp add: getitem_slice_def slice_positions_def slice_indices_def Let_def)

lemma getitem_slice_open_stop:
  assumes "0 \<le> a"
  shows "getitem_slice xs (Slice (Some a) None None) =
           getitem_slice xs (Slice (Some a) (Some (int (length xs))) (Some 1))"
  using assms by (simp add: getitem_slice_def slice_positions_def slice_indices_def Let_def)

lemma drop_take_map_upt:
  assumes "b \<le> n"
  shows "drop a (take b (map f [0..<n])) = map f [a..<b]"
  using assms by (simp add: take_map drop_map min_def)

lemma is_consecutive_nth:
  "is_consecutive sls \<longleftrightarrow>
     (\<forall>i. Suc i < length sls \<longrightarrow>
        stop (sls ! i) = start (sls ! Suc i) \<and>
        (step (sls ! i) \<noteq> None \<longrightarrow> step (sls ! i) = step (sls ! Suc i)))"
proof (induction sls rule: is_consecutive.induct)
  case (1 s_i s_next rest)
  show ?case
  proof (cases "stop s_i \<noteq> start s_next \<or> (step s_i \<noteq> None \<and> step s_i \<noteq> step s_next)")
    case True
    then have "\<not> is_consecutive (s_i # s_next # rest)" by auto
    moreover have "\<not> (\<forall>i. Suc i < length (s_i # s_next # rest) \<longrightarrow>
        stop ((s_i # s_next # rest) ! i) = start ((s_i # s_next # rest) ! Suc i) \<and>
        (step ((s_i # s_next # rest) ! i) \<noteq> None \<longrightarrow>
           step ((s_i # s_next # rest) ! i) = step ((s_i # s_next # rest) ! Suc i)))"
    proof
      assume "\<forall>i. Suc i < length (s_i # s_next # rest) \<longrightarrow>
        stop ((s_i # s_next # rest) ! i) = start ((s_i # s_next # rest) ! Suc i) \<and>
        (step ((s_i # s_next # rest) ! i) \<noteq> None \<longrightarrow>
           step ((s_i # s_next # rest) ! i) = step ((s_i # s_next # rest) ! Suc i))"
      from this[rule_format, of 0] True show False by simp
    qed
    ultimately show ?thesis by blast
  next
    case False
    then have "is_consecutive (s_i # s_next # rest) = is_consecutive (s_next # rest)" by auto
    also have "\<dots> = (\<forall>i. Suc i < length (s_next # rest) \<longrightarrow>
        stop ((s_next # rest) ! i) = start ((s_next # rest) ! Suc i) \<and>
        (step ((s_next # rest) ! i) \<noteq> None \<longrightarrow> step ((s_next # rest) ! i) = step ((s_next # rest) ! Suc i)))"
      using 1 False by blast
    also have "\<dots> = (\<forall>i. Suc i < length (s_i # s_next # rest) \<longrightarrow>
        stop ((s_i # s_next # rest) ! i) = start ((s_i # s_next # rest) ! Suc i) \<and>
        (step ((s_i # s_next # rest) ! i) \<noteq> None \<longrightarrow>
           step ((s_i # s_next # rest) ! i) = step ((s_i # s_next # rest) ! Suc i)))"
      (is "?L = ?R")
    proof
      assume l: ?L
      show ?R
      proof (intro allI impI)
        fix i assume i: "Suc i < length (s_i # s_next # rest)"
        show "stop ((s_i # s_next # rest) ! i) = start ((s_i # s_next # rest) ! Suc i) \<and>
          (step ((s_i # s_next # rest) ! i) \<noteq> None \<longrightarrow>
             step ((s_i # s_next # rest) ! i) = step ((s_i # s_next # rest) ! Suc i))"
        proof (cases i)
          case 0
          with False show ?thesis by auto
        next
          case (Suc j)
          with l i show ?thesis by auto
        qed
      qed
    next
      assume r: ?R
      show ?L
      proof (intro allI impI)
        fix i assume "Suc i < length (s_next # rest)"
        then have "Suc (Suc i) < length (s_i # s_next # rest)" by simp
        with r have "stop ((s_i # s_next # rest) ! Suc i) = start ((s_i # s_next # rest) ! Suc (Suc i)) \<and>
          (step ((s_i # s_next # rest) ! Suc i) \<noteq> None \<longrightarrow>
             step ((s_i # s_next # rest) ! Suc i) = step ((s_i # s_next # rest) ! Suc (Suc i)))"
          by blast
        then show "stop ((s_next # rest) ! i) = start ((s_next # rest) ! Suc i) \<and>
        (step ((s_next # rest) ! i) \<noteq> None \<longrightarrow> step ((s_next # rest) ! i) = step ((s_next # rest) ! Suc i))"
          by simp
      qed
    qed
    finally show ?thesis .
  qed
qed simp_all

lemma is_consecutive_unit_slices:
  "is_consecutive (map (\<lambda>i. Slice (Some (int i)) (Some (int i + 1)) (Some 1)) [a..<b])"
  unfolding is_consecutive_nth by auto

lemma query_default_range:
  assumes "a < b" and "b \<le> n"
  shows "query_index (default_index n) (SSlice (Slice (Some (int a)) (Some (int b)) (Some 1))) =
           Inr (MSlice (Slice (Some (int a)) (Some (int b)) (Some 1)))"
proof -
  let ?ds = "map (\<lambda>i. Slice (Some (int i)) (Some (int i + 1)) (Some 1))"
  have gathered: "getitem_slice (?ds [0..<n]) (Slice (Some (int a)) (Some (int b)) (Some 1)) = Inr (?ds [a..<b])"
    using assms by (simp add: getitem_slice_unit_step drop_take_map_upt)
  have ne: "[a..<b] = a # [Suc a..<b]"
    using assms by (simp add: upt_conv_Cons)
  have last: "stop (last (?ds [a..<b])) = Some (int b)"
  proof -
    have "[a..<b] \<noteq> []" using assms by simp
    then have "last (?ds [a..<b]) = Slice (Some (int (last [a..<b]))) (Some (int (last [a..<b]) + 1)) (Some 1)"
      by (simp add: last_map)
    moreover have "last [a..<b] = b - 1"
      using assms by (metis Suc_diff_1 last_upt less_imp_Suc_add zero_less_Suc)
    ultimately show ?thesis using assms by (simp add: of_nat_diff)
  qed
  have first: "?ds [a..<b] = Slice (Some (int a)) (Some (int a + 1)) (Some 1) # ?ds [Suc a..<b]"
    by (simp add: ne)
  have q: "query_slices (default_index n) (?ds [0..<n]) (Slice (Some (int a)) (Some (int b)) (Some 1)) =
          Inr (MSlice (Slice (Some (int a)) (Some (int b)) (Some 1)))"
    unfolding query_slices_def gathered
    using is_consecutive_unit_slices[of a b] last
    by (simp add: first)
  have len: "len (default_index n) = Inr n"
    by (simp add: default_index_def)
  show ?thesis
    using assms q by (simp add: query_slice_def len) (simp add: default_index_def)
qed

lemma getitem_index_default_range:
  assumes "a \<le> b" and "b \<le> n"
  shows "getitem_index (default_index n) (SSlice (Slice (Some (int a)) (Some (int b)) (Some 1)))
           (MSlice (Slice (Some (int a)) (Some (int b)) (Some 1))) =
         Inr \<lparr> member_length = n, member_index = map int [a..<b], class_index_attribute = None,
               class_index = IntArray (map int [a..<b]),
               class_index_to_members =
                 Slices (map (\<lambda>i. Slice (Some (int i)) (Some (int i + 1)) (Some 1)) [a..<b]) \<rparr>"
  using assms
  by (simp add: getitem_index_def default_index_def getitem_slice_unit_step drop_take_map_upt)

lemma concatenate_index_halves:
  assumes "k \<le> n"
  shows "concatenate_index
           \<lparr> member_length = n, member_index = map int [0..<k], class_index_attribute = None,
               class_index = IntArray (map int [0..<k]),
               class_index_to_members =
                 Slices (map (\<lambda>i. Slice (Some (int i)) (Some (int i + 1)) (Some 1)) [0..<k]) \<rparr>
           [\<lparr> member_length = n, member_index = map int [k..<n], class_index_attribute = None,
               class_index = IntArray (map int [k..<n]),
               class_index_to_members =
                 Slices (map (\<lambda>i. Slice (Some (int i)) (Some (int i + 1)) (Some 1)) [k..<n]) \<rparr>] =
         Inr (default_index n)"
proof -
  have "[0..<n] = [0..<k] @ [k..<n]"
    using assms by (metis le_add_diff_inverse upt_add_eq_append zero_le)
  then show ?thesis
    by (simp add: concatenate_index_def default_index_def)
qed

lemma index_assertion_halves:
  "index_assertion
           \<lparr> member_length = n, member_index = mi, class_index_attribute = None,
               class_index = ci, class_index_to_members = Slices s1 \<rparr>
           \<lparr> member_length = n, member_index = mi', class_index_attribute = None,
               class_index = ci', class_index_to_members = Slices s2 \<rparr>"
  by (simp add: index_assertion_def)

lemma mjd_times_regular:
  fixes e :: "'a entity" and ms :: "(string \<times> 'a member) list" and v :: "'a member"
  shows "default_indexed n e \<Longrightarrow> default_indexed n (mjd_times e)"
    and "regular_members n ms \<Longrightarrow>
           regular_members n (mjd_times_members ms) \<and> map fst (mjd_times_members ms) = map fst ms"
    and "regular_member n v \<Longrightarrow> regular_member n (mjd_times_member v)"
  by (induction n e and n ms and n v rule: default_indexed_regular_members_regular_member.induct) auto

lemma split_members_step:
  assumes v: "getitem_member v m1 = Inr v1" "getitem_member v m2 = Inr v2" "same_kind v1 v2"
      "member_assertion v1 v2" "concatenate_member v1 [v2] = Inr (mjd_times_member v)"
    and rest: "getitem_members rest m1 = Inr ms1" "getitem_members rest m2 = Inr ms2"
      "map fst ms1 = map fst rest" "map fst ms2 = map fst rest"
      "list_all2 same_kind (map snd ms1) (map snd ms2)"
      "list_all2 member_assertion (map snd ms1) (map snd ms2)"
      "\<forall>other. (\<forall>(key, v2) \<in> set ms2. map_of (members other) key = Some v2) \<longrightarrow>
           concatenate_members ms1 [other] = Inr (mjd_times_members rest)"
  shows "\<exists>ms1' ms2'. getitem_members ((key, v) # rest) m1 = Inr ms1' \<and>
           getitem_members ((key, v) # rest) m2 = Inr ms2' \<and>
           map fst ms1' = map fst ((key, v) # rest) \<and> map fst ms2' = map fst ((key, v) # rest) \<and>
           list_all2 same_kind (map snd ms1') (map snd ms2') \<and>
           list_all2 member_assertion (map snd ms1') (map snd ms2') \<and>
           (\<forall>other. (\<forall>(key, v2) \<in> set ms2'. map_of (members other) key = Some v2) \<longrightarrow>
              concatenate_members ms1' [other] = Inr (mjd_times_members ((key, v) # rest)))"
proof -
  have f1: "getitem_members ((key, v) # rest) m1 = Inr ((key, v1) # ms1)"
    by (simp add: v(1) rest(1))
  have f2: "getitem_members ((key, v) # rest) m2 = Inr ((key, v2) # ms2)"
    by (simp add: v(2) rest(2))
  have f3: "map fst ((key, v1) # ms1) = map fst ((key, v) # rest)" by (simp add: rest(3))
  have f4: "map fst ((key, v2) # ms2) = map fst ((key, v) # rest)" by (simp add: rest(4))
  have f5: "list_all2 same_kind (map snd ((key, v1) # ms1)) (map snd ((key, v2) # ms2))"
    by (simp add: v(3) rest(5))
  have f6: "list_all2 member_assertion (map snd ((key, v1) # ms1)) (map snd ((key, v2) # ms2))"
    by (simp add: v(4) rest(6))
  have f7: "\<forall>other. (\<forall>(key, v2) \<in> set ((key, v2) # ms2). map_of (members other) key = Some v2) \<longrightarrow>
              concatenate_members ((key, v1) # ms1) [other] = Inr (mjd_times_members ((key, v) # rest))"
  proof (intro allI impI)
    fix other :: "'a entity"
    assume look: "\<forall>(key, v2) \<in> set ((key, v2) # ms2). map_of (members other) key = Some v2"
    then have here: "map_of (members other) key = Some v2" by simp
    from look have "\<forall>(key, v2) \<in> set ms2. map_of (members other) key = Some v2" by simp
    with rest(7) have tail: "concatenate_members ms1 [other] = Inr (mjd_times_members rest)" by blast
    show "concatenate_members ((key, v1) # ms1) [other] = Inr (mjd_times_members ((key, v) # rest))"
      by (simp add: here v(5) tail)
  qed
  show ?thesis
    apply (rule exI[of _ "(key, v1) # ms1"])
    apply (rule exI[of _ "(key, v2) # ms2"])
    using f1 f2 f3 f4 f5 f6 f7 by (intro conjI)
qed

lemma split_entity_step:
  fixes ms :: "(string \<times> 'a member) list"
  assumes k: "0 < k" "k < n"
    and names: "distinct (map fst ms)" and reg: "regular_members n ms"
    and ms1: "getitem_members ms (MSlice (Slice (Some 0) (Some (int k)) (Some 1))) = Inr ms1"
    and ms2: "getitem_members ms (MSlice (Slice (Some (int k)) (Some (int n)) (Some 1))) = Inr ms2"
    and fst1: "map fst ms1 = map fst ms" and fst2: "map fst ms2 = map fst ms"
    and kinds: "list_all2 same_kind (map snd ms1) (map snd ms2)"
    and asserts: "list_all2 member_assertion (map snd ms1) (map snd ms2)"
    and conc: "\<forall>other. (\<forall>(key, v2) \<in> set ms2. map_of (members other) key = Some v2) \<longrightarrow>
           concatenate_members ms1 [other] = Inr (mjd_times_members ms)"
  shows "\<exists>h1 h2.
           getitem (Entity ms (Some (default_index n))) (SSlice (Slice (Some 0) (Some (int k)) (Some 1))) = Inr h1 \<and>
           getitem (Entity ms (Some (default_index n))) (SSlice (Slice (Some (int k)) (Some (int n)) (Some 1))) = Inr h2 \<and>
           concatenate_from h1 [h2] = Inr (mjd_times (Entity ms (Some (default_index n))))"
proof -
  let ?ds = "map (\<lambda>i. Slice (Some (int i)) (Some (int i + 1)) (Some 1))"
  let ?H1 = "\<lparr> member_length = n, member_index = map int [0..<k], class_index_attribute = None,
               class_index = IntArray (map int [0..<k]), class_index_to_members = Slices (?ds [0..<k]) \<rparr>"
  let ?H2 = "\<lparr> member_length = n, member_index = map int [k..<n], class_index_attribute = None,
               class_index = IntArray (map int [k..<n]), class_index_to_members = Slices (?ds [k..<n]) \<rparr>"
  let ?h1 = "Entity ms1 (Some ?H1)" and ?h2 = "Entity ms2 (Some ?H2)"
  have q1: "query_index (default_index n) (SSlice (Slice (Some 0) (Some (int k)) (Some 1))) =
              Inr (MSlice (Slice (Some 0) (Some (int k)) (Some 1)))"
    using query_default_range[of 0 k n] k by simp
  have q2: "query_index (default_index n) (SSlice (Slice (Some (int k)) (Some (int n)) (Some 1))) =
              Inr (MSlice (Slice (Some (int k)) (Some (int n)) (Some 1)))"
    using query_default_range[of k n n] k by simp
  have g1: "getitem_index (default_index n) (SSlice (Slice (Some 0) (Some (int k)) (Some 1)))
              (MSlice (Slice (Some 0) (Some (int k)) (Some 1))) = Inr ?H1"
    using getitem_index_default_range[of 0 k n] k by simp
  have g2: "getitem_index (default_index n) (SSlice (Slice (Some (int k)) (Some (int n)) (Some 1)))
              (MSlice (Slice (Some (int k)) (Some (int n)) (Some 1))) = Inr ?H2"
    using getitem_index_default_range[of k n n] k by simp
  have h1: "getitem (Entity ms (Some (default_index n))) (SSlice (Slice (Some 0) (Some (int k)) (Some 1))) = Inr ?h1"
    using q1 g1 ms1 by (simp del: query_index.simps)
  have h2: "getitem (Entity ms (Some (default_index n))) (SSlice (Slice (Some (int k)) (Some (int n)) (Some 1))) = Inr ?h2"
    using q2 g2 ms2 by (simp del: query_index.simps)
  have schema: "same_schema ?h1 ?h2"
    using fst1 fst2 kinds by (simp add: same_schema_def)
  have holds: "assertions_hold ?h1 ?h2"
    using asserts by (simp add: assertions_hold_def index_assertion_def)
  have "distinct (map fst ms2)" using names fst2 by simp
  then have "\<forall>(key, v2) \<in> set ms2. map_of (members ?h2) key = Some v2"
    by (auto intro: map_of_is_SomeI)
  with conc have members: "concatenate_members ms1 [?h2] = Inr (mjd_times_members ms)"
    by blast
  have index: "concatenate_index ?H1 [?H2] = Inr (default_index n)"
    using concatenate_index_halves[of k n] k by simp
  have "default_indexed n (mjd_times (Entity ms (Some (default_index n))))"
    by (rule mjd_times_regular(1)) (simp add: names reg)
  then have "member_lengths (Entity (mjd_times_members ms) (Some (default_index n))) = [n]"
    using member_lengths_default_indexed by fastforce
  then have rebuilt: "set_index (Entity (mjd_times_members ms) (Some (default_index n))) NoValues =
                  Inr (Entity (mjd_times_members ms) (Some (default_index n)))"
    using set_index_default by fastforce
  have attr: "attribute_values (class_index_attribute (default_index n)) = NoValues"
    by (simp add: attribute_values_def default_index_def)
  have "concatenate_from ?h1 [?h2] = Inr (mjd_times (Entity ms (Some (default_index n))))"
    using schema holds by (simp add: members index rebuilt attr)
  with h1 h2 show ?thesis by blast
qed

lemma split_concatenate:
  fixes e :: "'a entity" and ms :: "(string \<times> 'a member) list" and v :: "'a member"
  shows "default_indexed n e \<Longrightarrow> 0 < k \<Longrightarrow> k < n \<Longrightarrow>
           \<exists>h1 h2. getitem e (SSlice (Slice (Some 0) (Some (int k)) (Some 1))) = Inr h1 \<and>
                   getitem e (SSlice (Slice (Some (int k)) (Some (int n)) (Some 1))) = Inr h2 \<and>
                   concatenate_from h1 [h2] = Inr (mjd_times e)"
    and "regular_members n ms \<Longrightarrow> 0 < k \<Longrightarrow> k < n \<Longrightarrow>
           \<exists>ms1 ms2. getitem_members ms (MSlice (Slice (Some 0) (Some (int k)) (Some 1))) = Inr ms1 \<and>
               getitem_members ms (MSlice (Slice (Some (int k)) (Some (int n)) (Some 1))) = Inr ms2 \<and>
               map fst ms1 = map fst ms \<and> map fst ms2 = map fst ms \<and>
               list_all2 same_kind (map snd ms1) (map snd ms2) \<and>
               list_all2 member_assertion (map snd ms1) (map snd ms2) \<and>
               (\<forall>other. (\<forall>(key, v2) \<in> set ms2. map_of (members other) key = Some v2) \<longrightarrow>
                  concatenate_members ms1 [other] = Inr (mjd_times_members ms))"
    and "regular_member n v \<Longrightarrow> 0 < k \<Longrightarrow> k < n \<Longrightarrow>
           \<exists>v1 v2. getitem_member v (MSlice (Slice (Some 0) (Some (int k)) (Some 1))) = Inr v1 \<and>
               getitem_member v (MSlice (Slice (Some (int k)) (Some (int n)) (Some 1))) = Inr v2 \<and>
               same_kind v1 v2 \<and> member_assertion v1 v2 \<and>
               concatenate_member v1 [v2] = Inr (mjd_times_member v)"
proof (induction n e and n ms and n v rule: default_indexed_regular_members_regular_member.induct)
  case (1 n ms i)
  then have i: "i = Some (default_index n)" and names: "distinct (map fst ms)"
    and reg: "regular_members n ms" by auto
  from 1 reg obtain ms1 ms2 where
    "getitem_members ms (MSlice (Slice (Some 0) (Some (int k)) (Some 1))) = Inr ms1"
    "getitem_members ms (MSlice (Slice (Some (int k)) (Some (int n)) (Some 1))) = Inr ms2"
    "map fst ms1 = map fst ms" "map fst ms2 = map fst ms"
    "list_all2 same_kind (map snd ms1) (map snd ms2)"
    "list_all2 member_assertion (map snd ms1) (map snd ms2)"
    "\<forall>other. (\<forall>(key, v2) \<in> set ms2. map_of (members other) key = Some v2) \<longrightarrow>
                  concatenate_members ms1 [other] = Inr (mjd_times_members ms)"
    by blast
  from split_entity_step[OF 1(3,4) names reg this] show ?case
    unfolding i .
next
  case (2 n)
  show ?case by simp
next
  case (3 n key v rest)
  then have "regular_member n v" "regular_members n rest" by auto
  with 3 obtain v1 v2 ms1 ms2 where
    v: "getitem_member v (MSlice (Slice (Some 0) (Some (int k)) (Some 1))) = Inr v1"
       "getitem_member v (MSlice (Slice (Some (int k)) (Some (int n)) (Some 1))) = Inr v2"
       "same_kind v1 v2" "member_assertion v1 v2"
       "concatenate_member v1 [v2] = Inr (mjd_times_member v)"
    and rest: "getitem_members rest (MSlice (Slice (Some 0) (Some (int k)) (Some 1))) = Inr ms1"
      "getitem_members rest (MSlice (Slice (Some (int k)) (Some (int n)) (Some 1))) = Inr ms2"
      "map fst ms1 = map fst rest" "map fst ms2 = map fst rest"
      "list_all2 same_kind (map snd ms1) (map snd ms2)"
      "list_all2 member_assertion (map snd ms1) (map snd ms2)"
      "\<forall>other. (\<forall>(key, v2) \<in> set ms2. map_of (members other) key = Some v2) \<longrightarrow>
           concatenate_members ms1 [other] = Inr (mjd_times_members rest)"
    by blast
  show ?case by (rule split_members_step[OF v rest])
next
  case (4 n xs)
  then show ?case by (simp add: getitem_slice_unit_step)
next
  case (5 n xs mk)
  then show ?case by (simp add: getitem_slice_unit_step)
next
  case (6 n xs scale fmt)
  then show ?case by (simp add: getitem_slice_unit_step)
next
  case (7 n ent)
  then have "default_indexed n ent" by simp
  with 7 obtain h1 h2 where
    "getitem ent (SSlice (Slice (Some 0) (Some (int k)) (Some 1))) = Inr h1"
    "getitem ent (SSlice (Slice (Some (int k)) (Some (int n)) (Some 1))) = Inr h2"
    "concatenate_from h1 [h2] = Inr (mjd_times ent)"
    by blast
  then show ?case by simp
next
  case (8 n x)
  show ?case by simp
next
  case (9 n)
  show ?case by simp
next
  case (10 n)
  then show ?case by simp
qed

lemma getitem_open_slices:
  fixes ms :: "(string \<times> 'a member) list"
  assumes "0 < n"
  shows "getitem (Entity ms (Some (default_index n))) (SSlice (Slice None (Some (int k)) None)) =
         getitem (Entity ms (Some (default_index n))) (SSlice (Slice (Some 0) (Some (int k)) (Some 1)))"
    and "getitem (Entity ms (Some (default_index n))) (SSlice (Slice (Some (int k)) None None)) =
         getitem (Entity ms (Some (default_index n))) (SSlice (Slice (Some (int k)) (Some (int n)) (Some 1)))"
proof -
  let ?ds = "map (\<lambda>i. Slice (Some (int i)) (Some (int i + 1)) (Some 1)) [0..<n]"
  have a: "getitem_slice xs (Slice None (Some (int k)) None) =
           getitem_slice xs (Slice (Some 0) (Some (int k)) (Some 1))" for xs :: "'b list"
    by (rule getitem_slice_open_start) simp
  have b1: "getitem_slice ?ds (Slice (Some (int k)) None None) =
            getitem_slice ?ds (Slice (Some (int k)) (Some (int n)) (Some 1))"
    using getitem_slice_open_stop[of "int k" ?ds] by simp
  have b2: "getitem_slice (map int [0..<n]) (Slice (Some (int k)) None None) =
            getitem_slice (map int [0..<n]) (Slice (Some (int k)) (Some (int n)) (Some 1))"
    using getitem_slice_open_stop[of "int k" "map int [0..<n]"] by simp
  have q1: "query_index (default_index n) (SSlice (Slice None (Some (int k)) None)) =
            query_index (default_index n) (SSlice (Slice (Some 0) (Some (int k)) (Some 1)))"
    using assms by (simp add: query_slice_def query_slices_def default_index_def a)
  have c1: "class_index_select (class_index (default_index n)) (SSlice (Slice None (Some (int k)) None)) =
            class_index_select (class_index (default_index n)) (SSlice (Slice (Some 0) (Some (int k)) (Some 1)))"
    by (simp add: default_index_def a)
  have g1: "getitem_index (default_index n) (SSlice (Slice None (Some (int k)) None)) m =
            getitem_index (default_index n) (SSlice (Slice (Some 0) (Some (int k)) (Some 1))) m" for m
    unfolding getitem_index_def c1 by (rule refl)
  have q2: "query_index (default_index n) (SSlice (Slice (Some (int k)) None None)) =
            query_index (default_index n) (SSlice (Slice (Some (int k)) (Some (int n)) (Some 1)))"
    by (cases "n \<le> k") (simp_all add: query_slice_def query_slices_def default_index_def b1)
  have c2: "class_index_select (class_index (default_index n)) (SSlice (Slice (Some (int k)) None None)) =
            class_index_select (class_index (default_index n)) (SSlice (Slice (Some (int k)) (Some (int n)) (Some 1)))"
    by (simp add: default_index_def b2)
  have g2: "getitem_index (default_index n) (SSlice (Slice (Some (int k)) None None)) m =
            getitem_index (default_index n) (SSlice (Slice (Some (int k)) (Some (int n)) (Some 1))) m" for m
    unfolding getitem_index_def c2 by (rule refl)
  show "getitem (Entity ms (Some (default_index n))) (SSlice (Slice None (Some (int k)) None)) =
         getitem (Entity ms (Some (default_index n))) (SSlice (Slice (Some 0) (Some (int k)) (Some 1)))"
    unfolding getitem.simps q1 g1 by (rule refl)
  show "getitem (Entity ms (Some (default_index n))) (SSlice (Slice (Some (int k)) None None)) =
         getitem (Entity ms (Some (default_index n))) (SSlice (Slice (Some (int k)) (Some (int n)) (Some 1)))"
    unfolding getitem.simps q2 g2 by (rule refl)
qed

lemma getitem_rows_relation:
  assumes "getitem (Entity ms (Some st)) sel = Inr h"
    and "query_index st sel = Inr (MSlice (Slice (Some (int a)) (Some (int b)) (Some 1)))"
  shows "list_all2 (\<lambda>(key, v) (key', v'). key' = key \<and>
            (case v of
               Arr xs \<Rightarrow> v' = Arr (drop a (take b xs))
             | Masked xs mk \<Rightarrow> v' = Masked (drop a (take b xs)) (drop a (take b mk))
             | TimeF xs scale fmt \<Rightarrow> v' = TimeF (drop a (take b xs)) scale fmt
             | Opaque x \<Rightarrow> v' = Opaque x
             | NoneV \<Rightarrow> v' = NoneV
             | _ \<Rightarrow> True)) ms (members h)"
proof -
  let ?m = "MSlice (Slice (Some (int a)) (Some (int b)) (Some 1))"
  have "getitem_members ms ?m = Inr (members h)"
    by (rule getitem_success_members[OF assms])
  then have rel: "list_all2 (\<lambda>(k, v) (k', v'). k' = k \<and> getitem_member v ?m = Inr v') ms (members h)"
    by (rule getitem_members_success)
  have member: "case v of
               Arr xs \<Rightarrow> v' = Arr (drop a (take b xs))
             | Masked xs mk \<Rightarrow> v' = Masked (drop a (take b xs)) (drop a (take b mk))
             | TimeF xs scale fmt \<Rightarrow> v' = TimeF (drop a (take b xs)) scale fmt
             | Opaque x \<Rightarrow> v' = Opaque x
             | NoneV \<Rightarrow> v' = NoneV
             | _ \<Rightarrow> True" if "getitem_member v ?m = Inr v'" for v v'
    using that by (cases v) (auto simp: getitem_slice_unit_step)
  from rel show ?thesis
    by (rule list.rel_mono_strong) (use member in auto)
qed

text \<open>
  The round trip under the default index. An entity of \<open>n\<close> rows under the default index
  is split at any row \<open>k\<close> strictly between 0 and \<open>n\<close> by the two reads \<open>entity[:k]\<close> and
  \<open>entity[k:]\<close>. Both reads succeed,
  the first part holds the first \<open>k\<close> rows of every array, masked array (data and mask)
  and time array, the second part the remaining rows, and concatenating the two parts in
  this order returns the original entity: the same attributes with the same values in
  the same row order, nested entities included, opaque attributes unchanged, under the
  default index of \<open>n\<close> rows. Time arrays come back with their values and scale and the
  format \<open>mjd\<close>.
\<close>

theorem concatenate_round_trip:
  fixes e :: "'a entity"
  assumes "default_indexed n e" and "0 < k" and "k < n"
  shows "\<exists>h1 h2.
     getitem e (SSlice (Slice None (Some (int k)) None)) = Inr h1 \<and>
     getitem e (SSlice (Slice (Some (int k)) None None)) = Inr h2 \<and>
     list_all2 (\<lambda>(key, v) (key', v'). key' = key \<and>
            (case v of
               Arr xs \<Rightarrow> v' = Arr (take k xs)
             | Masked xs mk \<Rightarrow> v' = Masked (take k xs) (take k mk)
             | TimeF xs scale fmt \<Rightarrow> v' = TimeF (take k xs) scale fmt
             | Opaque x \<Rightarrow> v' = Opaque x
             | NoneV \<Rightarrow> v' = NoneV
             | _ \<Rightarrow> True)) (members e) (members h1) \<and>
     list_all2 (\<lambda>(key, v) (key', v'). key' = key \<and>
            (case v of
               Arr xs \<Rightarrow> v' = Arr (drop k xs)
             | Masked xs mk \<Rightarrow> v' = Masked (drop k xs) (drop k mk)
             | TimeF xs scale fmt \<Rightarrow> v' = TimeF (drop k xs) scale fmt
             | Opaque x \<Rightarrow> v' = Opaque x
             | NoneV \<Rightarrow> v' = NoneV
             | _ \<Rightarrow> True)) (members e) (members h2) \<and>
     concatenate [h1, h2] = Inr (mjd_times e)"
proof -
  obtain ms i where e: "e = Entity ms i" by (cases e)
  with assms(1) have i: "i = Some (default_index n)" and reg: "regular_members n ms" by auto
  have n: "0 < n" using assms by simp
  from split_concatenate(1)[OF assms] obtain h1 h2 where
    h1: "getitem e (SSlice (Slice (Some 0) (Some (int k)) (Some 1))) = Inr h1"
    and h2: "getitem e (SSlice (Slice (Some (int k)) (Some (int n)) (Some 1))) = Inr h2"
    and joined: "concatenate_from h1 [h2] = Inr (mjd_times e)"
    by blast
  have o1: "getitem e (SSlice (Slice None (Some (int k)) None)) = Inr h1"
    using h1 getitem_open_slices(1)[OF n, of ms k] by (simp add: e i)
  have o2: "getitem e (SSlice (Slice (Some (int k)) None None)) = Inr h2"
    using h2 getitem_open_slices(2)[of n ms k] n by (simp add: e i)
  have q1: "query_index (default_index n) (SSlice (Slice (Some 0) (Some (int k)) (Some 1))) =
              Inr (MSlice (Slice (Some (int 0)) (Some (int k)) (Some 1)))"
    using query_default_range[of 0 k n] assms by simp
  have q2: "query_index (default_index n) (SSlice (Slice (Some (int k)) (Some (int n)) (Some 1))) =
              Inr (MSlice (Slice (Some (int k)) (Some (int n)) (Some 1)))"
    using query_default_range[of k n n] assms by simp
  have r1: "list_all2 (\<lambda>(key, v) (key', v'). key' = key \<and>
            (case v of
               Arr xs \<Rightarrow> v' = Arr (drop 0 (take k xs))
             | Masked xs mk \<Rightarrow> v' = Masked (drop 0 (take k xs)) (drop 0 (take k mk))
             | TimeF xs scale fmt \<Rightarrow> v' = TimeF (drop 0 (take k xs)) scale fmt
             | Opaque x \<Rightarrow> v' = Opaque x
             | NoneV \<Rightarrow> v' = NoneV
             | _ \<Rightarrow> True)) ms (members h1)"
    by (rule getitem_rows_relation[OF h1[unfolded e i] q1])
  have r2: "list_all2 (\<lambda>(key, v) (key', v'). key' = key \<and>
            (case v of
               Arr xs \<Rightarrow> v' = Arr (drop k (take n xs))
             | Masked xs mk \<Rightarrow> v' = Masked (drop k (take n xs)) (drop k (take n mk))
             | TimeF xs scale fmt \<Rightarrow> v' = TimeF (drop k (take n xs)) scale fmt
             | Opaque x \<Rightarrow> v' = Opaque x
             | NoneV \<Rightarrow> v' = NoneV
             | _ \<Rightarrow> True)) ms (members h2)"
    by (rule getitem_rows_relation[OF h2[unfolded e i] q2])
  have first: "list_all2 (\<lambda>(key, v) (key', v'). key' = key \<and>
            (case v of
               Arr xs \<Rightarrow> v' = Arr (take k xs)
             | Masked xs mk \<Rightarrow> v' = Masked (take k xs) (take k mk)
             | TimeF xs scale fmt \<Rightarrow> v' = TimeF (take k xs) scale fmt
             | Opaque x \<Rightarrow> v' = Opaque x
             | NoneV \<Rightarrow> v' = NoneV
             | _ \<Rightarrow> True)) ms (members h1)"
    using r1 unfolding drop_0 .
  have second: "list_all2 (\<lambda>(key, v) (key', v'). key' = key \<and>
            (case v of
               Arr xs \<Rightarrow> v' = Arr (drop k xs)
             | Masked xs mk \<Rightarrow> v' = Masked (drop k xs) (drop k mk)
             | TimeF xs scale fmt \<Rightarrow> v' = TimeF (drop k xs) scale fmt
             | Opaque x \<Rightarrow> v' = Opaque x
             | NoneV \<Rightarrow> v' = NoneV
             | _ \<Rightarrow> True)) ms (members h2)"
    using r2
  proof (rule list.rel_mono_strong)
    fix kv kv' :: "string \<times> 'a member"
    assume "kv \<in> set ms"
      and rel: "(case kv of (key, v) \<Rightarrow> \<lambda>(key', v'). key' = key \<and>
            (case v of
               Arr xs \<Rightarrow> v' = Arr (drop k (take n xs))
             | Masked xs mk \<Rightarrow> v' = Masked (drop k (take n xs)) (drop k (take n mk))
             | TimeF xs scale fmt \<Rightarrow> v' = TimeF (drop k (take n xs)) scale fmt
             | Opaque x \<Rightarrow> v' = Opaque x
             | NoneV \<Rightarrow> v' = NoneV
             | _ \<Rightarrow> True)) kv'"
    obtain key v where kv: "kv = (key, v)" by (cases kv)
    obtain key' v' where kv': "kv' = (key', v')" by (cases kv')
    have "regular_member n v"
      using regular_members_member[OF reg] \<open>kv \<in> set ms\<close> kv by blast
    then show "(case kv of (key, v) \<Rightarrow> \<lambda>(key', v'). key' = key \<and>
            (case v of
               Arr xs \<Rightarrow> v' = Arr (drop k xs)
             | Masked xs mk \<Rightarrow> v' = Masked (drop k xs) (drop k mk)
             | TimeF xs scale fmt \<Rightarrow> v' = TimeF (drop k xs) scale fmt
             | Opaque x \<Rightarrow> v' = Opaque x
             | NoneV \<Rightarrow> v' = NoneV
             | _ \<Rightarrow> True)) kv'"
      using rel unfolding kv kv' by (cases v) auto
  qed
  have "concatenate [h1, h2] = Inr (mjd_times e)"
    using joined by simp
  with o1 o2 first second show ?thesis
    by (auto simp: e)
qed

theorem concatenate_round_trip_witness:
  "default_indexed 4
     (Entity [(''x'', Arr [10, 11, 12, 13 :: int]), (''t'', TimeF [1, 2, 3, 4] ''utc'' ''jd''),
              (''m'', Masked [5, 6, 7, 8] [True, False, False, True]),
              (''inner'', Nested (Entity [(''y'', Arr [0, 1, 2, 3])] (Some (default_index 4)))),
              (''origin'', Opaque 7)] (Some (default_index 4))) \<and>
   (0::nat) < 1 \<and> (1::nat) < 4 \<and>
   (\<exists>h1 h2.
      getitem (Entity [(''x'', Arr [10, 11, 12, 13 :: int]), (''t'', TimeF [1, 2, 3, 4] ''utc'' ''jd''),
              (''m'', Masked [5, 6, 7, 8] [True, False, False, True]),
              (''inner'', Nested (Entity [(''y'', Arr [0, 1, 2, 3])] (Some (default_index 4)))),
              (''origin'', Opaque 7)] (Some (default_index 4)))
        (SSlice (Slice None (Some 1) None)) = Inr h1 \<and>
      getitem (Entity [(''x'', Arr [10, 11, 12, 13 :: int]), (''t'', TimeF [1, 2, 3, 4] ''utc'' ''jd''),
              (''m'', Masked [5, 6, 7, 8] [True, False, False, True]),
              (''inner'', Nested (Entity [(''y'', Arr [0, 1, 2, 3])] (Some (default_index 4)))),
              (''origin'', Opaque 7)] (Some (default_index 4)))
        (SSlice (Slice (Some 1) None None)) = Inr h2 \<and>
      concatenate [h1, h2] =
        Inr (Entity [(''x'', Arr [10, 11, 12, 13 :: int]), (''t'', TimeF [1, 2, 3, 4] ''utc'' ''mjd''),
              (''m'', Masked [5, 6, 7, 8] [True, False, False, True]),
              (''inner'', Nested (Entity [(''y'', Arr [0, 1, 2, 3])] (Some (default_index 4)))),
              (''origin'', Opaque 7)] (Some (default_index 4))))"
proof -
  let ?e = "Entity [(''x'', Arr [10, 11, 12, 13 :: int]), (''t'', TimeF [1, 2, 3, 4] ''utc'' ''jd''),
              (''m'', Masked [5, 6, 7, 8] [True, False, False, True]),
              (''inner'', Nested (Entity [(''y'', Arr [0, 1, 2, 3])] (Some (default_index 4)))),
              (''origin'', Opaque 7)] (Some (default_index 4))"
  have h: "default_indexed 4 ?e" "(0::nat) < 1" "(1::nat) < 4" by simp_all
  have m: "mjd_times ?e =
        Entity [(''x'', Arr [10, 11, 12, 13 :: int]), (''t'', TimeF [1, 2, 3, 4] ''utc'' ''mjd''),
              (''m'', Masked [5, 6, 7, 8] [True, False, False, True]),
              (''inner'', Nested (Entity [(''y'', Arr [0, 1, 2, 3])] (Some (default_index 4)))),
              (''origin'', Opaque 7)] (Some (default_index 4))"
    by simp
  from concatenate_round_trip[OF h] obtain h1 h2 where
    "getitem ?e (SSlice (Slice None (Some (int 1)) None)) = Inr h1"
    "getitem ?e (SSlice (Slice (Some (int 1)) None None)) = Inr h2"
    "concatenate [h1, h2] = Inr (mjd_times ?e)"
    by blast
  then have "\<exists>h1 h2. getitem ?e (SSlice (Slice None (Some 1) None)) = Inr h1 \<and>
      getitem ?e (SSlice (Slice (Some 1) None None)) = Inr h2 \<and>
      concatenate [h1, h2] = Inr (mjd_times ?e)"
    by (intro exI[of _ h1] exI[of _ h2]) simp
  then show ?thesis
    unfolding m using h by (intro conjI)
qed

section \<open>Concatenating the parts of a grouped index\<close>

text \<open>
  C8. An entity split into two contiguous parts by row position and concatenated again
  should be the original entity. For an entity of four rows indexed on an attribute with
  the keys \<open>a, a, b, b\<close>, the reads \<open>entity[:1]\<close> and \<open>entity[1:]\<close> return the first two and
  the last two rows. \<open>concatenate\<close> joins the members to the original four rows, and it
  joins the index arrays of the two copies as well: a class index of two entries and a
  mapping of two slices. The final \<open>set_index\<close> then finds the lengths 4 and 2 among the
  arrays of the instance dictionary and raises the \<open>ValueError\<close> of the cardinality check.
\<close>

theorem concatenate_grouped_halves_fails:
  "init [(''k'', Arr [''a'', ''a'', ''b'', ''b'']), (''x'', Arr [''r0'', ''r1'', ''r2'', ''r3''])] (ByName ''k'') =
     Inr (Entity [(''k'', Arr [''a'', ''a'', ''b'', ''b'']), (''x'', Arr [''r0'', ''r1'', ''r2'', ''r3''])]
       (Some \<lparr> member_length = 4, member_index = [0, 1, 2, 3], class_index_attribute = Some ''k'',
               class_index = IntArray [0, 1],
               class_index_to_members =
                 Slices [Slice (Some 0) (Some 2) (Some 1), Slice (Some 2) (Some 4) (Some 1)] \<rparr>)) \<and>
   getitem (Entity [(''k'', Arr [''a'', ''a'', ''b'', ''b'']), (''x'', Arr [''r0'', ''r1'', ''r2'', ''r3''])]
       (Some \<lparr> member_length = 4, member_index = [0, 1, 2, 3], class_index_attribute = Some ''k'',
               class_index = IntArray [0, 1],
               class_index_to_members =
                 Slices [Slice (Some 0) (Some 2) (Some 1), Slice (Some 2) (Some 4) (Some 1)] \<rparr>))
       (SSlice (Slice None (Some 1) None)) =
     Inr (Entity [(''k'', Arr [''a'', ''a'']), (''x'', Arr [''r0'', ''r1''])]
       (Some \<lparr> member_length = 4, member_index = [0, 1], class_index_attribute = Some ''k'',
               class_index = IntArray [0],
               class_index_to_members =
                 Slices [Slice (Some 0) (Some 2) (Some 1), Slice (Some 2) (Some 4) (Some 1)] \<rparr>)) \<and>
   getitem (Entity [(''k'', Arr [''a'', ''a'', ''b'', ''b'']), (''x'', Arr [''r0'', ''r1'', ''r2'', ''r3''])]
       (Some \<lparr> member_length = 4, member_index = [0, 1, 2, 3], class_index_attribute = Some ''k'',
               class_index = IntArray [0, 1],
               class_index_to_members =
                 Slices [Slice (Some 0) (Some 2) (Some 1), Slice (Some 2) (Some 4) (Some 1)] \<rparr>))
       (SSlice (Slice (Some 1) None None)) =
     Inr (Entity [(''k'', Arr [''b'', ''b'']), (''x'', Arr [''r2'', ''r3''])]
       (Some \<lparr> member_length = 4, member_index = [2, 3], class_index_attribute = Some ''k'',
               class_index = IntArray [1],
               class_index_to_members = Slices [] \<rparr>)) \<and>
   concatenate_members [(''k'', Arr [''a'', ''a'']), (''x'', Arr [''r0'', ''r1''])]
     [Entity [(''k'', Arr [''b'', ''b'']), (''x'', Arr [''r2'', ''r3''])]
       (Some \<lparr> member_length = 4, member_index = [2, 3], class_index_attribute = Some ''k'',
               class_index = IntArray [1],
               class_index_to_members = Slices [] \<rparr>)] =
     Inr [(''k'', Arr [''a'', ''a'', ''b'', ''b'']), (''x'', Arr [''r0'', ''r1'', ''r2'', ''r3''])] \<and>
   concatenate_index
       \<lparr> member_length = 4, member_index = [0, 1], class_index_attribute = Some ''k'',
               class_index = IntArray [0],
               class_index_to_members =
                 Slices [Slice (Some 0) (Some 2) (Some 1), Slice (Some 2) (Some 4) (Some 1)] \<rparr>
       [\<lparr> member_length = 4, member_index = [2, 3], class_index_attribute = Some ''k'',
               class_index = IntArray [1],
               class_index_to_members = Slices [] \<rparr>] =
     Inr \<lparr> member_length = 4, member_index = [0, 1, 2, 3], class_index_attribute = Some ''k'',
               class_index = IntArray [0, 1],
               class_index_to_members =
                 Slices [Slice (Some 0) (Some 2) (Some 1), Slice (Some 2) (Some 4) (Some 1)] \<rparr> \<and>
   member_lengths
     (Entity [(''k'', Arr [''a'', ''a'', ''b'', ''b'']), (''x'', Arr [''r0'', ''r1'', ''r2'', ''r3''])]
       (Some \<lparr> member_length = 4, member_index = [0, 1, 2, 3], class_index_attribute = Some ''k'',
               class_index = IntArray [0, 1],
               class_index_to_members =
                 Slices [Slice (Some 0) (Some 2) (Some 1), Slice (Some 2) (Some 4) (Some 1)] \<rparr>)) = [4, 2] \<and>
   concatenate
     [Entity [(''k'', Arr [''a'', ''a'']), (''x'', Arr [''r0'', ''r1''])]
       (Some \<lparr> member_length = 4, member_index = [0, 1], class_index_attribute = Some ''k'',
               class_index = IntArray [0],
               class_index_to_members =
                 Slices [Slice (Some 0) (Some 2) (Some 1), Slice (Some 2) (Some 4) (Some 1)] \<rparr>),
      Entity [(''k'', Arr [''b'', ''b'']), (''x'', Arr [''r2'', ''r3''])]
       (Some \<lparr> member_length = 4, member_index = [2, 3], class_index_attribute = Some ''k'',
               class_index = IntArray [1],
               class_index_to_members = Slices [] \<rparr>)] =
     Inl (ValueError ''All sliceable members must have the same length.'')"
  by code_simp

section \<open>Sorting under a grouped index\<close>

text \<open>
  C9. \<open>sort_values\<close> should sort stably on its keys. For an entity of four rows indexed on
  an attribute with the keys \<open>7, 7, 8, 8\<close> and the sort key \<open>num = 2, 1, 4, 3\<close>, the sorted
  row labels are \<open>1, 0, 3, 2\<close>, but no row is reordered: the call \<open>self.set_index()\<close> that
  precedes the reordering finds the lengths 4 and 2 among the arrays of the instance
  dictionary (four rows, a class index of two entries, a mapping of two slices) and
  raises the \<open>ValueError\<close> of the cardinality check, in place or not.
\<close>

theorem sort_on_grouped_index_fails:
  "init [(''orbit_id'', Arr [7, 7, 8, 8 :: int]), (''num'', Arr [2, 1, 4, 3])] (ByName ''orbit_id'') =
     Inr (Entity [(''orbit_id'', Arr [7, 7, 8, 8]), (''num'', Arr [2, 1, 4, 3])]
       (Some \<lparr> member_length = 4, member_index = [0, 1, 2, 3],
               class_index_attribute = Some ''orbit_id'',
               class_index = IntArray [0, 1],
               class_index_to_members =
                 Slices [Slice (Some 0) (Some 2) (Some 1), Slice (Some 2) (Some 4) (Some 1)] \<rparr>)) \<and>
   sorted_indices [''num'' \<mapsto> [2, 1, 4, 3 :: int]] [''num''] [True] = Inr [1, 0, 3, 2] \<and>
   member_lengths (Entity [(''orbit_id'', Arr [7, 7, 8, 8 :: int]), (''num'', Arr [2, 1, 4, 3])]
       (Some \<lparr> member_length = 4, member_index = [0, 1, 2, 3],
               class_index_attribute = Some ''orbit_id'',
               class_index = IntArray [0, 1],
               class_index_to_members =
                 Slices [Slice (Some 0) (Some 2) (Some 1), Slice (Some 2) (Some 4) (Some 1)] \<rparr>)) = [4, 2] \<and>
   set_index (Entity [(''orbit_id'', Arr [7, 7, 8, 8 :: int]), (''num'', Arr [2, 1, 4, 3])]
       (Some \<lparr> member_length = 4, member_index = [0, 1, 2, 3],
               class_index_attribute = Some ''orbit_id'',
               class_index = IntArray [0, 1],
               class_index_to_members =
                 Slices [Slice (Some 0) (Some 2) (Some 1), Slice (Some 2) (Some 4) (Some 1)] \<rparr>)) NoValues =
     Inl (ValueError ''All sliceable members must have the same length.'') \<and>
   sort_values 0 (Entity [(''orbit_id'', Arr [7, 7, 8, 8 :: int]), (''num'', Arr [2, 1, 4, 3])]
       (Some \<lparr> member_length = 4, member_index = [0, 1, 2, 3],
               class_index_attribute = Some ''orbit_id'',
               class_index = IntArray [0, 1],
               class_index_to_members =
                 Slices [Slice (Some 0) (Some 2) (Some 1), Slice (Some 2) (Some 4) (Some 1)] \<rparr>))
       (ByStr ''num'') False (AscBool True) =
     Inl (ValueError ''All sliceable members must have the same length.'') \<and>
   sort_values 0 (Entity [(''orbit_id'', Arr [7, 7, 8, 8 :: int]), (''num'', Arr [2, 1, 4, 3])]
       (Some \<lparr> member_length = 4, member_index = [0, 1, 2, 3],
               class_index_attribute = Some ''orbit_id'',
               class_index = IntArray [0, 1],
               class_index_to_members =
                 Slices [Slice (Some 0) (Some 2) (Some 1), Slice (Some 2) (Some 4) (Some 1)] \<rparr>))
       (ByStr ''num'') True (AscBool True) =
     Inl (ValueError ''All sliceable members must have the same length.'')"
  by code_simp

text \<open>
  A sort key that the entity itself does not have is looked up on every nested entity,
  and every match is appended. With the key \<open>q\<close> on two nested entities the list of
  attributes is one longer than the list of keys, and pairing them by position gives the
  second key \<open>num\<close> the column \<open>q\<close> of the second nested entity: the rows \<open>(5, 2), (5, 1)\<close>
  are compared as \<open>(5, 1), (5, 2)\<close> and stay in their order.
\<close>

theorem sort_key_on_two_nested_entities:
  "find_attributes
     (Entity [(''num'', Arr [2, 1 :: int]),
              (''first'', Nested (Entity [(''q'', Arr [5, 5])] (Some (default_index 2)))),
              (''second'', Nested (Entity [(''q'', Arr [1, 2])] (Some (default_index 2))))]
        (Some (default_index 2)))
     [''q'', ''num''] = Inr [Arr [5, 5], Arr [1, 2], Arr [2, 1]] \<and>
   (case sort_values 0
       (Entity [(''num'', Arr [2, 1 :: int]),
                (''first'', Nested (Entity [(''q'', Arr [5, 5])] (Some (default_index 2)))),
                (''second'', Nested (Entity [(''q'', Arr [1, 2])] (Some (default_index 2))))]
          (Some (default_index 2)))
       (ByList [''q'', ''num'']) False (AscBool True) of
      Inr (e', Some copy) \<Rightarrow> map_of (members copy) ''num'' = Some (Arr [2, 1])
    | _ \<Rightarrow> False)"
  by code_simp

end
